(* ===== verification/Prelude.thy ===== *)
theory Prelude
  imports Main "HOL-Library.Word" "HOL-Library.Signed_Division"
begin

text \<open>
  What every contract theory shares: the ways a contract invocation can end
  (\<open>outcome\<close>), the host environment an invocation sees (\<open>env\<close>), Rust's integer
  types as machine words with their checked and saturating operations, sums over
  finite maps, and byte strings read as numbers in either byte order.

  Integers. \<open>u32\<close>, \<open>u64\<close> and \<open>u128\<close> are words read by \<open>unat\<close>; \<open>i128\<close> is a
  128-bit word read by \<open>sint\<close>. The workspace builds with
  \<open>overflow-checks = true\<close>, so a plain \<open>+\<close> that overflows panics: it is modelled by
  the \<open>checked_\<close> operation whose \<open>None\<close> becomes \<open>Trap\<close>.
\<close>

section \<open>Automation collections\<close>

named_theorems outcome_splits \<open>case splits for the outcome of an invocation\<close>
named_theorems unat_arith_simps \<open>reading machine operations as natural numbers\<close>
named_theorems sint_arith_simps \<open>reading signed machine operations as integers\<close>

section \<open>Outcomes of an invocation\<close>

text \<open>
  A contract function returns a value, returns one of its declared errors, or
  panics. In the last two cases the host rolls every storage write of the
  invocation back, so neither carries a state.
\<close>

datatype ('e, 'a) outcome = Ok 'a | Err 'e | Trap

lemmas outcome_split_rules [outcome_splits] = outcome.splits option.splits if_splits

fun is_ok :: "('e, 'a) outcome \<Rightarrow> bool" where
  "is_ok (Ok _) = True"
| "is_ok (Err _) = False"
| "is_ok Trap = False"

fun outcome_bind :: "('e, 'a) outcome \<Rightarrow> ('a \<Rightarrow> ('e, 'b) outcome) \<Rightarrow> ('e, 'b) outcome" where
  "outcome_bind (Ok x) k = k x"
| "outcome_bind (Err e) k = Err e"
| "outcome_bind Trap k = Trap"

lemma outcome_bind_Ok [simp]:
  "outcome_bind m k = Ok y \<longleftrightarrow> (\<exists>x. m = Ok x \<and> k x = Ok y)"
  by (cases m) auto

lemma is_ok_iff: "is_ok m \<longleftrightarrow> (\<exists>x. m = Ok x)"
  by (cases m) auto

text \<open>\<open>Option::ok_or\<close> and \<open>expect\<close>: a missing value is an error or a panic.\<close>

definition ok_or :: "'a option \<Rightarrow> 'e \<Rightarrow> ('e, 'a) outcome" where
  "ok_or v e = (case v of None \<Rightarrow> Err e | Some x \<Rightarrow> Ok x)"

definition expect :: "'a option \<Rightarrow> ('e, 'a) outcome" where
  "expect v = (case v of None \<Rightarrow> Trap | Some x \<Rightarrow> Ok x)"

lemma ok_or_Ok [simp]: "ok_or v e = Ok x \<longleftrightarrow> v = Some x"
  by (auto simp: ok_or_def split: option.splits)

lemma expect_Ok [simp]: "expect v = Ok x \<longleftrightarrow> v = Some x"
  by (auto simp: expect_def split: option.splits)

lemma ok_or_simps [simp]: "ok_or (Some x) e = Ok x" "ok_or None e = Err e"
  by (auto simp: ok_or_def)

lemma expect_simps [simp]: "expect (Some x) = Ok x" "expect None = Trap"
  by (auto simp: expect_def)

text \<open>\<open>Option::unwrap_or\<close>.\<close>

definition unwrap_or :: "'a option \<Rightarrow> 'a \<Rightarrow> 'a" where
  "unwrap_or v d = (case v of None \<Rightarrow> d | Some x \<Rightarrow> x)"

lemma unwrap_or_simps [simp]: "unwrap_or (Some x) d = x" "unwrap_or None d = d"
  by (auto simp: unwrap_or_def)

lemma unwrap_or_False [simp]: "unwrap_or v False \<longleftrightarrow> v = Some True"
  by (cases v) auto

section \<open>Machine integers\<close>

type_synonym u8 = "8 word"
type_synonym u32 = "32 word"
type_synonym u64 = "64 word"
type_synonym u128 = "128 word"
type_synonym i128 = "128 word"

definition checked_add :: "'a::len word \<Rightarrow> 'a word \<Rightarrow> 'a word option" where
  "checked_add x y = (if unat x + unat y < 2 ^ LENGTH('a) then Some (x + y) else None)"

definition checked_sub :: "'a::len word \<Rightarrow> 'a word \<Rightarrow> 'a word option" where
  "checked_sub x y = (if y \<le> x then Some (x - y) else None)"

definition checked_div :: "'a::len word \<Rightarrow> 'a word \<Rightarrow> 'a word option" where
  "checked_div x y = (if y = 0 then None else Some (x div y))"

definition checked_mul :: "'a::len word \<Rightarrow> 'a word \<Rightarrow> 'a word option" where
  "checked_mul x y = (if unat x * unat y < 2 ^ LENGTH('a) then Some (x * y) else None)"

definition saturating_add :: "'a::len word \<Rightarrow> 'a word \<Rightarrow> 'a word" where
  "saturating_add x y = (if unat x + unat y < 2 ^ LENGTH('a) then x + y else - 1)"

definition saturating_sub :: "'a::len word \<Rightarrow> 'a word \<Rightarrow> 'a word" where
  "saturating_sub x y = (if x < y then 0 else x - y)"

definition saturating_mul :: "'a::len word \<Rightarrow> 'a word \<Rightarrow> 'a word" where
  "saturating_mul x y = (if unat x * unat y < 2 ^ LENGTH('a) then x * y else - 1)"

lemma unat_max_word: "unat (- 1 :: 'a::len word) = 2 ^ LENGTH('a) - 1"
  by (simp add: unsigned_minus_1_eq_mask mask_eq_exp_minus_1)

lemma checked_add_Some:
  "checked_add x y = Some (z :: 'a::len word) \<longleftrightarrow>
     unat x + unat y < 2 ^ LENGTH('a) \<and> z = x + y"
  by (auto simp: checked_add_def)

lemma unat_checked_add [unat_arith_simps]:
  "checked_add x y = Some z \<Longrightarrow> unat z = unat x + unat y"
  by (simp add: checked_add_Some unat_word_ariths)

lemma checked_sub_Some:
  "checked_sub x y = Some z \<longleftrightarrow> y \<le> x \<and> z = x - y"
  by (auto simp: checked_sub_def)

lemma unat_checked_sub [unat_arith_simps]:
  "checked_sub x y = Some z \<Longrightarrow> unat z = unat x - unat y \<and> unat y \<le> unat x"
  by (auto simp: checked_sub_Some unat_sub word_le_nat_alt)

lemma checked_mul_Some:
  "checked_mul x y = Some (z :: 'a::len word) \<longleftrightarrow>
     unat x * unat y < 2 ^ LENGTH('a) \<and> z = x * y"
  by (auto simp: checked_mul_def)

lemma unat_saturating_add [unat_arith_simps]:
  "unat (saturating_add x (y :: 'a::len word)) = min (unat x + unat y) (2 ^ LENGTH('a) - 1)"
  by (auto simp: saturating_add_def unat_word_ariths unat_max_word min_def)

lemma unat_saturating_sub [unat_arith_simps]:
  "unat (saturating_sub x y) = unat x - unat y"
  by (auto simp: saturating_sub_def unat_sub word_less_nat_alt word_le_nat_alt not_less)

lemma unat_saturating_mul [unat_arith_simps]:
  "unat (saturating_mul x (y :: 'a::len word)) = min (unat x * unat y) (2 ^ LENGTH('a) - 1)"
proof (cases "unat x * unat y < 2 ^ LENGTH('a)")
  case True
  then have "unat x * unat y \<le> 2 ^ LENGTH('a) - 1" by linarith
  with True show ?thesis by (simp add: saturating_mul_def unat_word_ariths min_absorb1)
next
  case False
  then have "2 ^ LENGTH('a) - 1 \<le> unat x * unat y" by linarith
  with False show ?thesis by (simp add: saturating_mul_def unat_max_word min_absorb2)
qed

lemma unat_min_word [unat_arith_simps]: "unat (min x (y :: 'a::len word)) = min (unat x) (unat y)"
  by (auto simp: min_def word_le_nat_alt)

lemma unat_max_of_words [unat_arith_simps]:
  "unat (max x (y :: 'a::len word)) = max (unat x) (unat y)"
  by (auto simp: max_def word_le_nat_alt)

lemma unat_div_word [unat_arith_simps]: "unat (x div (y :: 'a::len word)) = unat x div unat y"
  by (rule unat_div_distrib)

lemma unat_widen [unat_arith_simps]:
  "LENGTH('a::len) \<le> LENGTH('b::len) \<Longrightarrow> unat (ucast (x :: 'a word) :: 'b word) = unat x"
  by (simp add: unsigned_ucast_eq take_bit_nat_eq_self order_less_le_trans [OF unsigned_less])

lemma unat_u32_less: "unat (x :: u32) < 2 ^ 32"
  using unsigned_less [of x, where ?'a = nat] by simp

lemma unat_u64_less: "unat (x :: u64) < 2 ^ 64"
  using unsigned_less [of x, where ?'a = nat] by simp

text \<open>Signed 128-bit operations (\<open>i128\<close>).\<close>

definition i128_fits :: "int \<Rightarrow> bool" where
  "i128_fits r \<longleftrightarrow> - (2 ^ 127) \<le> r \<and> r < 2 ^ 127"

definition i128_checked_add :: "i128 \<Rightarrow> i128 \<Rightarrow> i128 option" where
  "i128_checked_add x y =
     (if i128_fits (sint x + sint y) then Some (word_of_int (sint x + sint y)) else None)"

definition i128_checked_sub :: "i128 \<Rightarrow> i128 \<Rightarrow> i128 option" where
  "i128_checked_sub x y =
     (if i128_fits (sint x - sint y) then Some (word_of_int (sint x - sint y)) else None)"

definition i128_checked_mul :: "i128 \<Rightarrow> i128 \<Rightarrow> i128 option" where
  "i128_checked_mul x y =
     (if i128_fits (sint x * sint y) then Some (word_of_int (sint x * sint y)) else None)"

definition i128_saturating_add :: "i128 \<Rightarrow> i128 \<Rightarrow> i128" where
  "i128_saturating_add x y =
     word_of_int (max (- (2 ^ 127)) (min (2 ^ 127 - 1) (sint x + sint y)))"

text \<open>Rust's \<open>/\<close> on signed integers truncates towards zero.\<close>

definition i128_div :: "i128 \<Rightarrow> i128 \<Rightarrow> i128" where
  "i128_div x y = word_of_int (sint x sdiv sint y)"

definition i128_max :: "i128 \<Rightarrow> i128 \<Rightarrow> i128" where
  "i128_max x y = (if sint x < sint y then y else x)"

lemma i128_fits_sint [simp]: "i128_fits (sint (x :: i128))"
  using sint_greater_eq [of x] sint_less [of x] by (simp add: i128_fits_def)

lemma sint_i128_of_int [sint_arith_simps]:
  "i128_fits r \<Longrightarrow> sint (word_of_int r :: i128) = r"
  by (simp add: i128_fits_def sint_sbintrunc' signed_take_bit_int_eq_self)

lemma i128_of_int_eq_iff:
  "i128_fits r \<Longrightarrow> (word_of_int r :: i128) = z \<longleftrightarrow> sint z = r"
  by (metis sint_i128_of_int signed_word_eqI)

lemma i128_checked_add_Some:
  "i128_checked_add x y = Some z \<longleftrightarrow> i128_fits (sint x + sint y) \<and> sint z = sint x + sint y"
  unfolding i128_checked_add_def by (metis i128_of_int_eq_iff option.distinct(1) option.inject)

lemma i128_checked_sub_Some:
  "i128_checked_sub x y = Some z \<longleftrightarrow> i128_fits (sint x - sint y) \<and> sint z = sint x - sint y"
  unfolding i128_checked_sub_def by (metis i128_of_int_eq_iff option.distinct(1) option.inject)

lemma i128_checked_mul_Some:
  "i128_checked_mul x y = Some z \<longleftrightarrow> i128_fits (sint x * sint y) \<and> sint z = sint x * sint y"
  unfolding i128_checked_mul_def by (metis i128_of_int_eq_iff option.distinct(1) option.inject)

lemma i128_checked_add_fits:
  assumes "i128_fits (sint x + sint y)"
  obtains z where "i128_checked_add x y = Some z" and "sint z = sint x + sint y"
  using assms i128_checked_add_Some by (metis i128_checked_add_def)

lemma i128_checked_sub_fits:
  assumes "i128_fits (sint x - sint y)"
  obtains z where "i128_checked_sub x y = Some z" and "sint z = sint x - sint y"
  using assms i128_checked_sub_Some by (metis i128_checked_sub_def)

lemma sint_i128_saturating_add [sint_arith_simps]:
  "sint (i128_saturating_add x y) = max (- (2 ^ 127)) (min (2 ^ 127 - 1) (sint x + sint y))"
  unfolding i128_saturating_add_def by (rule sint_i128_of_int) (simp add: i128_fits_def)

lemma sint_i128_max [sint_arith_simps]: "sint (i128_max x y) = max (sint x) (sint y)"
  by (auto simp: i128_max_def)

section \<open>Addresses, symbols, hashes and the host environment\<close>

text \<open>
  An address is its strkey text, a symbol its characters, and \<open>BytesN<N>\<close> a list of
  bytes. \<open>env\<close> is what an invocation reads from the host: the ledger sequence and
  timestamp, the addresses whose signatures cover the invocation, the contract
  that called (if any), the running contract's own address and the contracts
  already on the call stack.
\<close>

type_synonym address = string
type_synonym symbol = string
type_synonym bytes = "u8 list"
type_synonym vc_hash = bytes

record env =
  ledger_sequence :: u32
  ledger_timestamp :: u64
  signers :: "address set"
  invoker :: "address option"
  current_contract :: address
  call_stack :: "address list"

text \<open>
  \<open>Address::require_auth\<close> succeeds for an address that signed, and for a contract
  that is the direct caller; otherwise it traps.
\<close>

definition authorized :: "env \<Rightarrow> address \<Rightarrow> bool" where
  "authorized e a \<longleftrightarrow> a \<in> signers e \<or> invoker e = Some a"

text \<open>The environment of a call from the running contract to \<open>callee\<close>.\<close>

definition call_env :: "env \<Rightarrow> address \<Rightarrow> env" where
  "call_env e callee =
     e\<lparr>invoker := Some (current_contract e), current_contract := callee,
       call_stack := current_contract e # call_stack e\<rparr>"

lemma call_env_simps [simp]:
  "ledger_sequence (call_env e c) = ledger_sequence e"
  "ledger_timestamp (call_env e c) = ledger_timestamp e"
  "signers (call_env e c) = signers e"
  "invoker (call_env e c) = Some (current_contract e)"
  "current_contract (call_env e c) = c"
  "call_stack (call_env e c) = current_contract e # call_stack e"
  by (simp_all add: call_env_def)

lemma authorized_call_env [simp]:
  "authorized (call_env e c) a \<longleftrightarrow> a \<in> signers e \<or> a = current_contract e"
  by (auto simp: authorized_def)

section \<open>Sums over finite maps\<close>

text \<open>The total of \<open>f\<close> over the entries of a map, and how an update changes it.\<close>

definition map_total :: "('v \<Rightarrow> 'n::comm_monoid_add) \<Rightarrow> ('k \<rightharpoonup> 'v) \<Rightarrow> 'n" where
  "map_total f m = (\<Sum>k\<in>dom m. f (the (m k)))"

definition entry_of :: "('v \<Rightarrow> 'n::comm_monoid_add) \<Rightarrow> 'v option \<Rightarrow> 'n" where
  "entry_of f v = (case v of None \<Rightarrow> 0 | Some x \<Rightarrow> f x)"

lemma entry_of_simps [simp]: "entry_of f None = 0" "entry_of f (Some x) = f x"
  by (simp_all add: entry_of_def)

lemma map_total_empty [simp]: "map_total f Map.empty = 0"
  by (simp add: map_total_def)

lemma map_total_split:
  assumes "finite (dom m)"
  shows "map_total f m = entry_of f (m k) + (\<Sum>j\<in>dom m - {k}. f (the (m j)))"
proof (cases "m k")
  case None
  then have "dom m - {k} = dom m" by auto
  then show ?thesis using None by (simp add: map_total_def)
next
  case (Some v)
  then have "k \<in> dom m" by auto
  then show ?thesis using Some sum.remove [OF assms, of k "\<lambda>j. f (the (m j))"]
    by (simp add: map_total_def)
qed

lemma map_total_update:
  assumes "finite (dom m)"
  shows "map_total f (m(k := v)) + entry_of f (m k) = map_total f m + entry_of f v"
proof -
  have fin: "finite (dom (m(k := v)))" using assms by simp
  have "dom (m(k := v)) - {k} = dom m - {k}" by auto
  then have "(\<Sum>j\<in>dom (m(k := v)) - {k}. f (the ((m(k := v)) j))) = (\<Sum>j\<in>dom m - {k}. f (the (m j)))"
    by (intro sum.cong) auto
  then show ?thesis
    using map_total_split [OF fin, of f k] map_total_split [OF assms, of f k]
    by (simp add: ac_simps)
qed

section \<open>Numbers and byte strings\<close>

text \<open>Numbers read from bytes, least or most significant byte first.\<close>

fun le_value :: "bytes \<Rightarrow> nat" where
  "le_value [] = 0"
| "le_value (b # bs) = unat b + 256 * le_value bs"

definition be_value :: "bytes \<Rightarrow> nat" where
  "be_value bs = le_value (rev bs)"

lemma le_value_append: "le_value (xs @ ys) = le_value xs + 256 ^ length xs * le_value ys"
  by (induction xs) (simp_all add: algebra_simps)

lemma le_value_zeros [simp]: "le_value (replicate n 0) = 0"
  by (induction n) simp_all

end
