(* ===== verification/Shared_Types.thy ===== *)
theory Shared_Types
  imports Prelude
begin

text \<open>
  The crate \<open>contracts/credit-oracle-types\<close>: the credential record shared by the two
  oracles, the credit-oracle's error codes (with the ordering Rust derives for
  them), the scoring weights and their validity check, and the cross-contract
  client wrapper that turns a failed \<open>apply_weights\<close> call into a typed error.
\<close>

section \<open>Credential records\<close>

record identity_vc_record =
  vc_hash_of :: vc_hash
  issuer :: address
  anchored_at :: u64
  revoked :: bool

type_synonym credential_type = symbol

definition MIN_COMPONENT_WEIGHT :: u32 where
  "MIN_COMPONENT_WEIGHT = 10"

section \<open>Error codes of the credit-oracle\<close>

datatype credit_error =
    CoAlreadyInitialized | CoNotAuthorized | FeederNotRegistered | LenderNotRegistered
  | CoInvalidWeights | CoNoPendingAdmin | ComputeCooldownActive | DisputeAlreadyPending
  | DisputeNotFound | InvalidInputKey | InvalidIdentityOracle | CoContractPaused
  | InvalidRecencyConfig | CoTimelockNotExpired | CoNoPendingWeights | CoNotInitialized
  | InvalidAmount | InvalidComputeCooldown

text \<open>The discriminants of the enum, which order it (\<open>derive(PartialOrd, Ord)\<close>).\<close>

primrec credit_error_code :: "credit_error \<Rightarrow> nat" where
  "credit_error_code CoAlreadyInitialized = 1"
| "credit_error_code CoNotAuthorized = 2"
| "credit_error_code FeederNotRegistered = 3"
| "credit_error_code LenderNotRegistered = 4"
| "credit_error_code CoInvalidWeights = 5"
| "credit_error_code CoNoPendingAdmin = 6"
| "credit_error_code ComputeCooldownActive = 7"
| "credit_error_code DisputeAlreadyPending = 8"
| "credit_error_code DisputeNotFound = 9"
| "credit_error_code InvalidInputKey = 10"
| "credit_error_code InvalidIdentityOracle = 11"
| "credit_error_code CoContractPaused = 12"
| "credit_error_code InvalidRecencyConfig = 13"
| "credit_error_code CoTimelockNotExpired = 14"
| "credit_error_code CoNoPendingWeights = 15"
| "credit_error_code CoNotInitialized = 16"
| "credit_error_code InvalidAmount = 17"
| "credit_error_code InvalidComputeCooldown = 18"

lemma credit_error_code_inject [simp]:
  "credit_error_code x = credit_error_code y \<longleftrightarrow> x = y"
  by (cases x; cases y) simp_all

instantiation credit_error :: linorder
begin

definition less_eq_credit_error :: "credit_error \<Rightarrow> credit_error \<Rightarrow> bool" where
  "less_eq_credit_error x y \<longleftrightarrow> credit_error_code x \<le> credit_error_code y"

definition less_credit_error :: "credit_error \<Rightarrow> credit_error \<Rightarrow> bool" where
  "less_credit_error x y \<longleftrightarrow> credit_error_code x < credit_error_code y"

instance
  by standard (auto simp: less_eq_credit_error_def less_credit_error_def)

end

section \<open>Scoring weights\<close>

record scoring_weights =
  vc_weight :: u32
  tx_weight :: u32
  repayment_weight :: u32

record pending_weights_record =
  pw_weights :: scoring_weights
  pw_effective_ledger :: u32

text \<open>
  \<open>ScoringWeights::is_valid\<close>. The sum is computed in \<open>u32\<close> after the three
  minimum checks succeeded, so it panics (\<open>None\<close>) when it overflows.
\<close>

definition is_valid :: "scoring_weights \<Rightarrow> bool option" where
  "is_valid w =
     (if MIN_COMPONENT_WEIGHT \<le> vc_weight w \<and> MIN_COMPONENT_WEIGHT \<le> tx_weight w
         \<and> MIN_COMPONENT_WEIGHT \<le> repayment_weight w
      then (case checked_add (vc_weight w) (tx_weight w) of
              None \<Rightarrow> None
            | Some a \<Rightarrow>
                (case checked_add a (repayment_weight w) of
                   None \<Rightarrow> None
                 | Some b \<Rightarrow> Some (b = 100)))
      else Some False)"

text \<open>The abstract specification: each component at least ten, the sum a hundred.\<close>

definition weights_ok :: "scoring_weights \<Rightarrow> bool" where
  "weights_ok w \<longleftrightarrow>
     10 \<le> unat (vc_weight w) \<and> 10 \<le> unat (tx_weight w) \<and> 10 \<le> unat (repayment_weight w)
     \<and> unat (vc_weight w) + unat (tx_weight w) + unat (repayment_weight w) = 100"

lemma min_component_le: "MIN_COMPONENT_WEIGHT \<le> (x :: u32) \<longleftrightarrow> 10 \<le> unat x"
  by (simp add: MIN_COMPONENT_WEIGHT_def word_le_nat_alt)

lemma word_eq_100: "(x :: u32) = 100 \<longleftrightarrow> unat x = 100"
  by (simp add: word_unat_eq_iff)

lemma is_valid_iff: "is_valid w = Some True \<longleftrightarrow> weights_ok w"
  by (auto simp: is_valid_def weights_ok_def min_component_le checked_add_def word_eq_100
      unat_word_ariths split: option.splits if_splits)

lemma is_valid_panics:
  "is_valid w = None \<longleftrightarrow>
     10 \<le> unat (vc_weight w) \<and> 10 \<le> unat (tx_weight w) \<and> 10 \<le> unat (repayment_weight w)
     \<and> 2 ^ 32 \<le> unat (vc_weight w) + unat (tx_weight w) + unat (repayment_weight w)"
  by (auto simp: is_valid_def min_component_le checked_add_def unat_word_ariths
      split: option.splits if_splits)

section \<open>The cross-contract client of the credit-oracle\<close>

text \<open>
  \<open>CreditOracleClient::apply_weights\<close>: the call is a \<open>try_invoke\<close>, a typed error is
  returned as it is and anything else (a trapped invocation) is reported as
  \<open>NoPendingWeights\<close>. \<open>'w\<close> is the state of the called contract.
\<close>

definition client_apply_weights :: "('w \<Rightarrow> (credit_error, 'w) outcome) \<Rightarrow> 'w \<Rightarrow> (credit_error, 'w) outcome"
  where
  "client_apply_weights call w =
     (case call w of Ok w' \<Rightarrow> Ok w' | Err e \<Rightarrow> Err e | Trap \<Rightarrow> Err CoNoPendingWeights)"

text \<open>\<open>get_scoring_weights\<close> of the client, with its own fallback.\<close>

definition client_get_scoring_weights :: "(credit_error, scoring_weights) outcome \<Rightarrow> (credit_error, scoring_weights) outcome"
  where
  "client_get_scoring_weights r =
     (case r of Ok w \<Rightarrow> Ok w | Err e \<Rightarrow> Err e | Trap \<Rightarrow> Err CoNotInitialized)"

text \<open>
  The client calls that use \<open>invoke_contract\<close> (\<open>propose_weights\<close>, \<open>accept_admin\<close>): any
  error of the callee traps the caller.
\<close>

definition client_invoke :: "('w \<Rightarrow> (credit_error, 'w) outcome) \<Rightarrow> 'w \<Rightarrow> 'w option" where
  "client_invoke call w = (case call w of Ok w' \<Rightarrow> Some w' | Err _ \<Rightarrow> None | Trap \<Rightarrow> None)"

lemma client_apply_weights_never_traps [simp]: "client_apply_weights call w \<noteq> Trap"
  by (simp add: client_apply_weights_def split: outcome.splits)

lemma client_apply_weights_Ok [simp]: "client_apply_weights call w = Ok w' \<longleftrightarrow> call w = Ok w'"
  by (simp add: client_apply_weights_def split: outcome.splits)

lemma client_invoke_Some [simp]: "client_invoke call w = Some w' \<longleftrightarrow> call w = Ok w'"
  by (simp add: client_invoke_def split: outcome.splits)

end
