(* ===== verification/Scoring.thy ===== *)
theory Scoring
  imports Shared_Types
begin

text \<open>
  The environment-free arithmetic of the credit-oracle
  (\<open>contracts/credit-oracle/src/lib.rs\<close>): the recency multiplier, its application to
  the points of a credential, and \<open>compute_score_pure\<close>. The definitions compute on
  words of the widths the code uses; each is proved equal to a specification on
  natural numbers and integers, which also shows that no intermediate \<open>u128\<close> operation
  wraps, and the bounds and monotonicity facts are read off the specification.
\<close>

section \<open>Constants\<close>

definition MIN_SCORE :: u32 where "MIN_SCORE = 300"
definition MAX_SCORE :: u32 where "MAX_SCORE = 850"
definition BPS_DENOMINATOR :: u32 where "BPS_DENOMINATOR = 10000"
definition SECONDS_PER_DAY :: u64 where "SECONDS_PER_DAY = 86400"
definition DEFAULT_DECAY_BPS_PER_DAY :: u32 where "DEFAULT_DECAY_BPS_PER_DAY = 5"
definition DEFAULT_MIN_RECENCY_BPS :: u32 where "DEFAULT_MIN_RECENCY_BPS = 5000"

lemmas scoring_constants =
  MIN_SCORE_def MAX_SCORE_def BPS_DENOMINATOR_def SECONDS_PER_DAY_def
  DEFAULT_DECAY_BPS_PER_DAY_def DEFAULT_MIN_RECENCY_BPS_def

section \<open>Recency decay\<close>

definition recency_multiplier_bps :: "u64 \<Rightarrow> u64 \<Rightarrow> u32 \<Rightarrow> u32 \<Rightarrow> u32" where
  "recency_multiplier_bps anchored now decay_bps_per_day min_recency_bps =
     (let age_days = saturating_sub now anchored div SECONDS_PER_DAY;
          decay = saturating_mul age_days (ucast decay_bps_per_day);
          multiplier = saturating_sub (ucast BPS_DENOMINATOR) decay;
          floor_bps = min (ucast min_recency_bps) (ucast BPS_DENOMINATOR)
      in ucast (max multiplier floor_bps))"

definition apply_recency_bps :: "u32 \<Rightarrow> u32 \<Rightarrow> u32" where
  "apply_recency_bps points recency_bps =
     ucast (saturating_mul (ucast points :: u64) (ucast recency_bps) div ucast BPS_DENOMINATOR)"

text \<open>The documented formula, on unbounded numbers.\<close>

definition recency_spec :: "nat \<Rightarrow> nat \<Rightarrow> nat \<Rightarrow> nat \<Rightarrow> nat" where
  "recency_spec anchored now rate lowest =
     max (10000 - (now - anchored) div 86400 * rate) (min lowest 10000)"

lemma unat_narrow:
  "unat x < 2 ^ LENGTH('b::len) \<Longrightarrow> unat (ucast (x :: 'a::len word) :: 'b word) = unat x"
  by (simp add: unsigned_ucast_eq take_bit_nat_eq_self)

lemma unat_bps [simp]: "unat BPS_DENOMINATOR = 10000"
  by (simp add: BPS_DENOMINATOR_def)

lemma unat_seconds [simp]: "unat SECONDS_PER_DAY = 86400"
  by (simp add: SECONDS_PER_DAY_def)

lemma unat_u32_to_u64 [simp]: "unat (ucast (x :: u32) :: u64) = unat x"
  by (simp add: unat_widen)

lemma unat_u32_to_u128 [simp]: "unat (ucast (x :: u32) :: u128) = unat x"
  by (simp add: unat_widen)

lemma unat_recency_multiplier:
  "unat (recency_multiplier_bps a n r m) = recency_spec (unat a) (unat n) (unat r) (unat m)"
proof -
  let ?age = "saturating_sub n a div SECONDS_PER_DAY"
  let ?mul = "saturating_sub (ucast BPS_DENOMINATOR :: u64) (saturating_mul ?age (ucast r))"
  have age: "unat ?age = (unat n - unat a) div 86400"
    by (simp add: unat_arith_simps)
  have sat: "(10000::nat) - min p (2 ^ 64 - 1) = 10000 - p" for p
    by (auto simp: min_def)
  have mul: "unat ?mul = 10000 - (unat n - unat a) div 86400 * unat r"
    by (simp add: unat_saturating_sub unat_saturating_mul age sat [simplified])
  have "unat (max ?mul (min (ucast m) (ucast BPS_DENOMINATOR))) =
        recency_spec (unat a) (unat n) (unat r) (unat m)"
    by (simp add: unat_max_of_words unat_min_word mul recency_spec_def)
  moreover have "recency_spec (unat a) (unat n) (unat r) (unat m) \<le> 10000"
    by (simp add: recency_spec_def)
  ultimately show ?thesis
    by (simp add: recency_multiplier_bps_def Let_def unat_narrow)
qed

lemma recency_spec_bounds:
  "min lowest 10000 \<le> recency_spec a n r lowest" "recency_spec a n r lowest \<le> 10000"
  by (auto simp: recency_spec_def)

lemma recency_spec_mono:
  assumes "a \<le> b"
  shows "recency_spec a n r m \<le> recency_spec b n r m"
proof -
  have "(n - b) div 86400 * r \<le> (n - a) div 86400 * r"
    using assms by (intro mult_le_mono1 div_le_mono) simp
  then show ?thesis
    unfolding recency_spec_def by (intro max.mono diff_le_mono2) auto
qed

lemma unat_apply_recency:
  assumes "unat b \<le> 10000"
  shows "unat (apply_recency_bps p b) = unat p * unat b div 10000"
proof -
  have p: "unat p < 2 ^ 32"
    using unat_u32_less [of p] by simp
  have "unat p * unat b \<le> 2 ^ 32 * 10000"
    using p assms by (intro mult_le_mono) auto
  then have sat: "min (unat p * unat b) (2 ^ 64 - 1) = unat p * unat b"
    by (auto simp: min_def)
  have "unat p * unat b div 10000 \<le> unat p * 10000 div 10000"
    using assms by (intro div_le_mono mult_le_mono) auto
  then have "unat p * unat b div 10000 < 2 ^ 32"
    using p by simp
  then show ?thesis
    by (simp add: apply_recency_bps_def unat_narrow unat_div_word unat_saturating_mul sat [simplified])
qed

section \<open>The pure scoring function\<close>

definition compute_score_pure ::
  "u32 \<Rightarrow> i128 \<Rightarrow> u32 \<Rightarrow> u32 \<Rightarrow> u32 \<Rightarrow> i128 \<Rightarrow> u32 \<Rightarrow> u32 \<Rightarrow> u32 \<Rightarrow> u32" where
  "compute_score_pure vc_points volume_30d avg_counterparties on_time_count total_count
       total_repaid w_vc w_tx w_repayment =
     (let vc_score = (ucast (min vc_points 100) :: u128);
          volume_score = min (i128_max (i128_div volume_30d 100000000) 0 :: u128) 80;
          counterparty_bonus = ucast (min (avg_counterparties div 5) 20);
          tx_score = min (volume_score + counterparty_bonus) 100;
          repayment_rate_score =
            (case checked_div (saturating_mul (ucast on_time_count) 10000) (ucast total_count) of
               Some r \<Rightarrow> r div 100
             | None \<Rightarrow> 0);
          repayment_volume_score = min (i128_max (i128_div total_repaid 100000000) 0) 100;
          repay_score = (repayment_rate_score + repayment_volume_score) div 2;
          composite = (vc_score * ucast w_vc + tx_score * ucast w_tx
                       + repay_score * ucast w_repayment) div 100;
          score = ucast MIN_SCORE + saturating_mul composite 550 div 100
      in ucast (max (min score (ucast MAX_SCORE)) (ucast MIN_SCORE)))"

text \<open>The published formula (\<open>docs/scoring-spec.md\<close>) on unbounded numbers.\<close>

definition capped_volume :: "int \<Rightarrow> nat \<Rightarrow> nat" where
  "capped_volume v cap = min (nat (v div 100000000)) cap"

definition rate_spec :: "nat \<Rightarrow> nat \<Rightarrow> nat" where
  "rate_spec on_time total_n = (if total_n = 0 then 0 else on_time * 10000 div total_n div 100)"

definition tx_spec :: "int \<Rightarrow> nat \<Rightarrow> nat" where
  "tx_spec volume avg = min (capped_volume volume 80 + min (avg div 5) 20) 100"

definition repay_spec :: "nat \<Rightarrow> nat \<Rightarrow> int \<Rightarrow> nat" where
  "repay_spec on_time total_n repaid = (rate_spec on_time total_n + capped_volume repaid 100) div 2"

definition composite_spec :: "nat \<Rightarrow> nat \<Rightarrow> nat \<Rightarrow> nat \<Rightarrow> nat \<Rightarrow> nat \<Rightarrow> nat" where
  "composite_spec vc tx repay w_vc w_tx w_repay = (vc * w_vc + tx * w_tx + repay * w_repay) div 100"

definition final_spec :: "nat \<Rightarrow> nat" where
  "final_spec composite = max (min (300 + composite * 550 div 100) 850) 300"

definition score_spec ::
  "nat \<Rightarrow> int \<Rightarrow> nat \<Rightarrow> nat \<Rightarrow> nat \<Rightarrow> int \<Rightarrow> nat \<Rightarrow> nat \<Rightarrow> nat \<Rightarrow> nat" where
  "score_spec vc_points volume avg on_time total_n repaid w_vc w_tx w_repay =
     final_spec (composite_spec (min vc_points 100) (tx_spec volume avg)
                  (repay_spec on_time total_n repaid) w_vc w_tx w_repay)"

subsection \<open>Reading the words\<close>

lemma unat_of_nonneg:
  assumes "0 \<le> sint (x :: i128)"
  shows "unat x = nat (sint x)"
proof -
  have "sint x < 2 ^ 127" using sint_less [of x] by simp
  then have "take_bit 128 (sint x) = sint x"
    using assms by (intro take_bit_int_eq_self) auto
  then have "uint x = sint x"
    by (simp add: uint_sint)
  then show ?thesis by (simp add: unat_eq_nat_uint)
qed

lemma i128_scale_down:
  "unat (i128_max (i128_div v 100000000) 0 :: u128) = nat (sint v div 100000000)"
proof -
  have m: "- (2 ^ 127) \<le> sint v" "sint v < 2 ^ 127"
    using sint_greater_eq [of v] sint_less [of v] by simp_all
  have sd: "sint v sdiv 100000000 = (if 0 \<le> sint v then sint v div 100000000
                                     else - (- sint v div 100000000))"
    by (cases "sint v = 0") (auto simp: signed_divide_int_def sgn_if)
  have "i128_fits (sint v sdiv 100000000)"
    unfolding i128_fits_def sd using m by (auto split: if_splits)
  then have s: "sint (i128_div v 100000000) = sint v sdiv 100000000"
    by (simp add: i128_div_def sint_i128_of_int)
  have nn: "0 \<le> sint (i128_max (i128_div v 100000000) 0)"
    by (simp add: sint_i128_max)
  show ?thesis
  proof (cases "0 \<le> sint v")
    case True
    then show ?thesis
      using unat_of_nonneg [OF nn] by (simp add: sint_i128_max s sd pos_imp_zdiv_nonneg_iff max_def)
  next
    case False
    then have "sint v div 100000000 < 0" by (simp add: neg_imp_zdiv_neg_iff)
    moreover have "0 \<le> - sint v div 100000000" using False by simp
    ultimately show ?thesis
      using unat_of_nonneg [OF nn] False by (simp add: sint_i128_max s sd max_def)
  qed
qed

subsection \<open>The word computation is the specification\<close>

lemma unat_add_nowrap: "unat x + unat (y :: 'a::len word) < 2 ^ LENGTH('a) \<Longrightarrow> unat (x + y) = unat x + unat y"
  by (simp add: unat_word_ariths)

lemma unat_mult_nowrap: "unat x * unat (y :: 'a::len word) < 2 ^ LENGTH('a) \<Longrightarrow> unat (x * y) = unat x * unat y"
  by (simp add: unat_word_ariths)

lemma capped_volume_le: "capped_volume v c \<le> c"
  by (simp add: capped_volume_def)

lemma tx_spec_le: "tx_spec v a \<le> 100"
  by (simp add: tx_spec_def)

lemma rate_spec_le: "rate_spec n t \<le> n * 100"
proof (cases "t = 0")
  case False
  have "n * 10000 div t \<le> n * 10000"
    by (rule div_le_dividend)
  then have "n * 10000 div t div 100 \<le> n * 10000 div 100"
    by (rule div_le_mono)
  with False show ?thesis by (simp add: rate_spec_def)
qed (simp add: rate_spec_def)

lemma repay_spec_le: "repay_spec n t v \<le> n * 100 + 100"
  using rate_spec_le [of n t] capped_volume_le [of v 100] by (simp add: repay_spec_def)

lemma unat_rate:
  "unat (case checked_div (saturating_mul (ucast (n :: u32)) 10000) (ucast (t :: u32)) of
           Some r \<Rightarrow> r div 100 | None \<Rightarrow> (0 :: u128)) = rate_spec (unat n) (unat t)"
proof -
  have n: "unat n < 2 ^ 32" using unat_u32_less [of n] by simp
  have z: "(ucast t :: u128) = 0 \<longleftrightarrow> unat t = 0"
    by (simp add: word_unat_eq_iff)
  have "unat n * 10000 \<le> 2 ^ 128 - 1"
    using n by simp
  then have m: "unat (saturating_mul (ucast n :: u128) 10000) = unat n * 10000"
    by (simp add: unat_saturating_mul)
  show ?thesis
    by (simp add: checked_div_def z rate_spec_def unat_div_word m)
qed

lemma unat_tx:
  "unat (min (min (i128_max (i128_div v 100000000) 0 :: u128) 80
              + ucast (min (a div 5) (20 :: u32))) 100) = tx_spec (sint v) (unat a)"
proof -
  have v: "unat (min (i128_max (i128_div v 100000000) 0 :: u128) 80) = capped_volume (sint v) 80"
    by (simp add: unat_min_word i128_scale_down capped_volume_def)
  have c: "unat (ucast (min (a div 5) (20 :: u32)) :: u128) = min (unat a div 5) 20"
    by (simp add: unat_min_word unat_div_word)
  have "capped_volume (sint v) 80 + min (unat a div 5) 20 \<le> 100"
    using capped_volume_le [of "sint v" 80] by simp
  then show ?thesis
    by (subst unat_min_word, subst unat_add_nowrap) (simp_all only: v c tx_spec_def, simp_all)
qed

lemma unat_repay:
  "unat (((case checked_div (saturating_mul (ucast (n :: u32)) 10000) (ucast (t :: u32)) of
             Some r \<Rightarrow> r div 100 | None \<Rightarrow> (0 :: u128))
          + min (i128_max (i128_div v 100000000) 0) 100) div 2)
   = repay_spec (unat n) (unat t) (sint v)"
proof -
  have v: "unat (min (i128_max (i128_div v 100000000) 0 :: u128) 100) = capped_volume (sint v) 100"
    by (simp add: unat_min_word i128_scale_down capped_volume_def)
  have "unat n < 2 ^ 32" using unat_u32_less [of n] by simp
  then have "rate_spec (unat n) (unat t) + capped_volume (sint v) 100 < 2 ^ 128"
    using rate_spec_le [of "unat n" "unat t"] capped_volume_le [of "sint v" 100] by simp
  then show ?thesis
    by (simp add: unat_div_word unat_add_nowrap unat_rate v repay_spec_def)
qed

lemma unat_composite:
  assumes "unat vc \<le> 100" and "unat tx \<le> 100" and "unat repay \<le> 2 ^ 32 * 100 + 100"
  shows "unat (((vc :: u128) * ucast (a :: u32) + tx * ucast (b :: u32) + repay * ucast (c :: u32)) div 100)
         = composite_spec (unat vc) (unat tx) (unat repay) (unat a) (unat b) (unat c)
      \<and> composite_spec (unat vc) (unat tx) (unat repay) (unat a) (unat b) (unat c) \<le> 2 ^ 80"
proof -
  have abc: "unat a \<le> 2 ^ 32" "unat b \<le> 2 ^ 32" "unat c \<le> 2 ^ 32"
    using unat_u32_less [of a] unat_u32_less [of b] unat_u32_less [of c] by simp_all
  have p: "unat vc * unat a \<le> 100 * 2 ^ 32" "unat tx * unat b \<le> 100 * 2 ^ 32"
      "unat repay * unat c \<le> (2 ^ 32 * 100 + 100) * 2 ^ 32"
    by (rule mult_le_mono; rule assms abc)+
  have m: "unat (vc * ucast a) = unat vc * unat a" "unat (tx * ucast b) = unat tx * unat b"
      "unat (repay * ucast c) = unat repay * unat c"
    using p by (simp_all add: unat_mult_nowrap)
  have s: "unat (vc * ucast a + tx * ucast b) = unat vc * unat a + unat tx * unat b"
    using p by (subst unat_add_nowrap) (simp_all add: m)
  have "unat (vc * ucast a + tx * ucast b + repay * ucast c)
        = unat vc * unat a + unat tx * unat b + unat repay * unat c"
    using p by (subst unat_add_nowrap) (simp_all add: m s)
  moreover have "unat vc * unat a + unat tx * unat b + unat repay * unat c \<le> 2 ^ 80"
    using p by simp
  ultimately show ?thesis
    by (simp add: unat_div_word composite_spec_def)
qed

lemma unat_final:
  assumes "unat c \<le> 2 ^ 80"
  shows "unat (ucast (max (min (ucast MIN_SCORE + saturating_mul (c :: u128) 550 div 100)
                (ucast MAX_SCORE)) (ucast MIN_SCORE)) :: u32) = final_spec (unat c)"
proof -
  have k: "unat MIN_SCORE = 300" "unat MAX_SCORE = 850"
    by (simp_all add: MIN_SCORE_def MAX_SCORE_def)
  have mul: "unat (saturating_mul c 550) = unat c * 550"
    using assms by (simp add: unat_saturating_mul)
  have "unat (ucast MIN_SCORE + saturating_mul c 550 div 100) = 300 + unat c * 550 div 100"
    using assms by (subst unat_add_nowrap) (simp_all add: unat_div_word mul k)
  then have f: "unat (max (min (ucast MIN_SCORE + saturating_mul c 550 div 100)
                (ucast MAX_SCORE)) (ucast MIN_SCORE)) = final_spec (unat c)"
    by (simp add: unat_max_of_words unat_min_word final_spec_def k)
  moreover have "final_spec (unat c) \<le> 850" by (simp add: final_spec_def)
  ultimately show ?thesis by (subst unat_narrow) simp_all
qed

lemma unat_compute_score_pure:
  "unat (compute_score_pure vp vol avg n t rep a b c) =
     score_spec (unat vp) (sint vol) (unat avg) (unat n) (unat t) (sint rep) (unat a) (unat b) (unat c)"
proof -
  let ?vc = "ucast (min vp 100) :: u128"
  let ?tx = "min (min (i128_max (i128_div vol 100000000) 0 :: u128) 80
                  + ucast (min (avg div 5) (20 :: u32))) 100"
  let ?rp = "((case checked_div (saturating_mul (ucast n) 10000) (ucast t) of
                 Some r \<Rightarrow> r div 100 | None \<Rightarrow> (0 :: u128))
              + min (i128_max (i128_div rep 100000000) 0) 100) div 2"
  let ?comp = "(?vc * ucast a + ?tx * ucast b + ?rp * ucast c) div 100"
  have vc: "unat ?vc = min (unat vp) 100"
    by (simp add: unat_min_word)
  have "unat n \<le> 2 ^ 32" using unat_u32_less [of n] by simp
  then have "unat ?rp \<le> 2 ^ 32 * 100 + 100"
    unfolding unat_repay using repay_spec_le [of "unat n" "unat t" "sint rep"] by simp
  then have comp: "unat ?comp = composite_spec (unat ?vc) (unat ?tx) (unat ?rp) (unat a) (unat b) (unat c)
      \<and> composite_spec (unat ?vc) (unat ?tx) (unat ?rp) (unat a) (unat b) (unat c) \<le> 2 ^ 80"
    by (intro unat_composite) (simp_all only: vc unat_tx tx_spec_le min.cobounded2)
  then have "unat (compute_score_pure vp vol avg n t rep a b c) = final_spec (unat ?comp)"
    unfolding compute_score_pure_def Let_def by (intro unat_final) simp
  then show ?thesis
    using comp by (simp only: vc unat_tx unat_repay score_spec_def)
qed

section \<open>Monotonicity and the perfect score\<close>

lemma capped_volume_mono: "v \<le> v' \<Longrightarrow> capped_volume v c \<le> capped_volume v' c"
  unfolding capped_volume_def by (intro min.mono nat_mono zdiv_mono1) auto

lemma tx_spec_mono: "v \<le> v' \<Longrightarrow> a \<le> a' \<Longrightarrow> tx_spec v a \<le> tx_spec v' a'"
  unfolding tx_spec_def
  by (intro min.mono add_mono capped_volume_mono div_le_mono order.refl)

lemma rate_spec_mono: "n \<le> n' \<Longrightarrow> rate_spec n t \<le> rate_spec n' t"
  unfolding rate_spec_def by (auto intro!: div_le_mono mult_le_mono1)

lemma repay_spec_mono: "n \<le> n' \<Longrightarrow> r \<le> r' \<Longrightarrow> repay_spec n t r \<le> repay_spec n' t r'"
  unfolding repay_spec_def by (intro div_le_mono add_mono rate_spec_mono capped_volume_mono)

lemma composite_spec_mono:
  "v \<le> v' \<Longrightarrow> x \<le> x' \<Longrightarrow> r \<le> r' \<Longrightarrow> composite_spec v x r a b c \<le> composite_spec v' x' r' a b c"
  unfolding composite_spec_def by (intro div_le_mono add_mono mult_le_mono1)

lemma final_spec_mono: "c \<le> c' \<Longrightarrow> final_spec c \<le> final_spec c'"
  unfolding final_spec_def by (intro max.mono min.mono add_mono div_le_mono mult_le_mono1 order.refl)

lemma score_spec_mono:
  assumes "v \<le> v'" and "vol \<le> vol'" and "g \<le> g'" and "n \<le> n'" and "r \<le> r'"
  shows "score_spec v vol g n t r a b c \<le> score_spec v' vol' g' n' t r' a b c"
  unfolding score_spec_def using assms
  by (intro final_spec_mono composite_spec_mono tx_spec_mono repay_spec_mono min.mono order.refl)

lemma rate_spec_le_100: "n \<le> t \<Longrightarrow> rate_spec n t \<le> 100"
proof (cases "t = 0")
  case False
  assume "n \<le> t"
  then have "n * 10000 div t \<le> t * 10000 div t"
    by (intro div_le_mono mult_le_mono1)
  then have "n * 10000 div t \<le> 10000" using False by simp
  then have "n * 10000 div t div 100 \<le> 10000 div 100" by (rule div_le_mono)
  with False show ?thesis by (simp add: rate_spec_def)
qed (simp add: rate_spec_def)

lemma repay_spec_le_100: "n \<le> t \<Longrightarrow> repay_spec n t r \<le> 100"
  using rate_spec_le_100 [of n t] capped_volume_le [of r 100] by (simp add: repay_spec_def)

lemma weighted_sum_max:
  assumes "a + b + c = (100::nat)" and "1 \<le> a" and "1 \<le> b" and "1 \<le> c"
    and "x \<le> 100" and "y \<le> 100" and "z \<le> 100"
  shows "x * a + y * b + z * c \<le> 10000"
    and "x * a + y * b + z * c = 10000 \<longleftrightarrow> x = 100 \<and> y = 100 \<and> z = 100"
proof -
  have m: "x * a \<le> 100 * a" "y * b \<le> 100 * b" "z * c \<le> 100 * c"
    using assms by simp_all
  have t: "100 * a + 100 * b + 100 * c = 10000" using assms(1) by simp
  show "x * a + y * b + z * c \<le> 10000" using m t by linarith
  show "x * a + y * b + z * c = 10000 \<longleftrightarrow> x = 100 \<and> y = 100 \<and> z = 100"
  proof
    assume "x * a + y * b + z * c = 10000"
    then have "x * a = 100 * a" "y * b = 100 * b" "z * c = 100 * c" using m t by linarith+
    then show "x = 100 \<and> y = 100 \<and> z = 100" using assms(2-4) by simp
  next
    assume "x = 100 \<and> y = 100 \<and> z = 100"
    then show "x * a + y * b + z * c = 10000" using t by simp
  qed
qed

lemma full_marks: "s \<le> (10000::nat) \<Longrightarrow> 300 + s div 100 * 550 div 100 = 850 \<longleftrightarrow> s = 10000"
proof -
  assume le: "s \<le> 10000"
  have "s div 100 * 550 div 100 \<le> 544" if "s \<noteq> 10000"
  proof -
    have "s div 100 \<le> 99" using le that by linarith
    then have "s div 100 * 550 div 100 \<le> 99 * 550 div 100"
      by (intro div_le_mono mult_le_mono1)
    then show ?thesis by simp
  qed
  then have "s \<noteq> 10000 \<Longrightarrow> 300 + s div 100 * 550 div 100 \<noteq> 850" by linarith
  then show ?thesis by (cases "s = 10000") simp_all
qed

section \<open>Properties\<close>

text \<open>C2: For every input, \<open>compute_score_pure\<close> computed in the code's 32- and 128-bit arithmetic is
  the published scoring formula on unbounded integers: no intermediate wraps, saturates
  or truncates away information.\<close>

theorem compute_score_is_spec:
  "unat (compute_score_pure vp vol avg n t rep a b c) =
     score_spec (unat vp) (sint vol) (unat avg) (unat n) (unat t) (sint rep) (unat a) (unat b) (unat c)"
  by (rule unat_compute_score_pure)

text \<open>One component moves the composite by at most its weight, and the score by 5.5 per weight point.\<close>

lemma component_swing: "y' \<le> 100 \<Longrightarrow> ((x :: nat) + y' * w) div 100 \<le> (x + y * w) div 100 + w"
proof -
  assume "y' \<le> 100"
  then have "x + y' * w \<le> (x + y * w) + w * 100"
    using mult_le_mono1 [of y' 100 w] by linarith
  then have "(x + y' * w) div 100 \<le> ((x + y * w) + w * 100) div 100" by (rule div_le_mono)
  then show ?thesis by simp
qed

lemma final_spec_swing:
  assumes "c' \<le> c + d"
  shows "final_spec c' \<le> final_spec c + (d * 550 + 99) div 100"
proof -
  have "c' * 550 div 100 \<le> c * 550 div 100 + (d * 550 + 99) div 100" using assms by linarith
  then show ?thesis unfolding final_spec_def by linarith
qed

lemma score_spec_swing:
  "score_spec vp' vol avg n t rep a b c \<le> score_spec vp vol avg n t rep a b c + (a * 550 + 99) div 100"
  "score_spec vp vol' avg' n t rep a b c \<le> score_spec vp vol avg n t rep a b c + (b * 550 + 99) div 100"
  "n' \<le> t' \<Longrightarrow>
    score_spec vp vol avg n' t' rep' a b c \<le> score_spec vp vol avg n t rep a b c + (c * 550 + 99) div 100"
  unfolding score_spec_def composite_spec_def
  subgoal using component_swing [of "min vp' 100" "tx_spec vol avg * b + repay_spec n t rep * c" a "min vp 100"]
    by (intro final_spec_swing) (simp add: ac_simps)
  subgoal using component_swing [OF tx_spec_le, of "min vp 100 * a + repay_spec n t rep * c" vol' avg' b "tx_spec vol avg"]
    by (intro final_spec_swing) (simp add: ac_simps)
  subgoal using component_swing [OF repay_spec_le_100, of n' t' "min vp 100 * a + tx_spec vol avg * b" rep' c "repay_spec n t rep"]
    by (intro final_spec_swing) (simp add: ac_simps)
  done

text \<open>C21: The score lies between \<open>MIN_SCORE\<close> and \<open>MAX_SCORE\<close> whatever the inputs and weights are, and each
  source of data can raise it by no more than its weight allows, 5.5 points per percent of that
  weight rounded up to a whole point (61 for a weight of 11): when the credential points, or the
  transaction statistics, or the whole repayment record of a subject are rewritten and the rest is unchanged.
  The new repayment record has no more on-time repayments than repayments, as every stored one has; the old is
  arbitrary.\<close>

theorem compute_score_bounds:
  "MIN_SCORE \<le> compute_score_pure vp vol avg n t rep a b c
   \<and> compute_score_pure vp vol avg n t rep a b c \<le> MAX_SCORE
   \<and> unat (compute_score_pure vp' vol avg n t rep a b c)
       \<le> unat (compute_score_pure vp vol avg n t rep a b c) + (unat a * 550 + 99) div 100
   \<and> unat (compute_score_pure vp vol' avg' n t rep a b c)
       \<le> unat (compute_score_pure vp vol avg n t rep a b c) + (unat b * 550 + 99) div 100
   \<and> unat (compute_score_pure vp vol avg (min n' t') t' rep' a b c)
       \<le> unat (compute_score_pure vp vol avg n t rep a b c) + (unat c * 550 + 99) div 100"
proof -
  have "MIN_SCORE \<le> compute_score_pure vp vol avg n t rep a b c"
    "compute_score_pure vp vol avg n t rep a b c \<le> MAX_SCORE"
    by (simp_all add: word_le_nat_alt unat_compute_score_pure score_spec_def final_spec_def
        MIN_SCORE_def MAX_SCORE_def)
  moreover have "unat (min n' t') \<le> unat t'" by (simp add: word_le_nat_alt [symmetric])
  ultimately show ?thesis
    unfolding unat_compute_score_pure by (intro conjI score_spec_swing)
qed

text \<open>C40: For fixed weights and a fixed number of recorded repayments the score never falls when
  the credential points, the transaction volume, the counterparties, the on-time
  repayments or the repaid amount grow.\<close>

theorem compute_score_monotone:
  assumes "vp \<le> vp'" and "sint vol \<le> sint vol'" and "avg \<le> avg'" and "n \<le> n'"
    and "sint rep \<le> sint rep'"
  shows "compute_score_pure vp vol avg n t rep a b c \<le> compute_score_pure vp' vol' avg' n' t rep' a b c"
  using assms unfolding word_le_nat_alt unat_compute_score_pure by (intro score_spec_mono)

theorem compute_score_monotone_witness:
  "compute_score_pure 20 300000000 5 8 10 0 40 30 30 \<le> compute_score_pure 60 900000000 25 9 10 0 40 30 30"
  by (rule compute_score_monotone) simp_all

text \<open>With valid weights and no more on-time repayments than repayments, the clamp is never
  needed (the score is 300 plus 5.5 points per composite point), and 850 is reached exactly
  when the credential, transaction and repayment components are all at 100.\<close>

theorem perfect_score_iff:
  assumes "is_valid w = Some True" and "n \<le> t"
  shows "unat (compute_score_pure vp vol avg n t rep (vc_weight w) (tx_weight w) (repayment_weight w))
         = 300 + composite_spec (min (unat vp) 100) (tx_spec (sint vol) (unat avg))
                   (repay_spec (unat n) (unat t) (sint rep))
                   (unat (vc_weight w)) (unat (tx_weight w)) (unat (repayment_weight w)) * 550 div 100
    \<and> (compute_score_pure vp vol avg n t rep (vc_weight w) (tx_weight w) (repayment_weight w) = MAX_SCORE
       \<longleftrightarrow> 100 \<le> unat vp \<and> tx_spec (sint vol) (unat avg) = 100
           \<and> repay_spec (unat n) (unat t) (sint rep) = 100)"
proof -
  let ?x = "min (unat vp) 100" and ?y = "tx_spec (sint vol) (unat avg)"
  let ?z = "repay_spec (unat n) (unat t) (sint rep)"
  let ?a = "unat (vc_weight w)" and ?b = "unat (tx_weight w)" and ?c = "unat (repayment_weight w)"
  let ?s = "?x * ?a + ?y * ?b + ?z * ?c"
  have w: "?a + ?b + ?c = 100" "1 \<le> ?a" "1 \<le> ?b" "1 \<le> ?c"
    using assms(1) by (auto simp: is_valid_iff weights_ok_def)
  have z: "?z \<le> 100" using assms(2) by (intro repay_spec_le_100) (simp add: word_le_nat_alt)
  note sums = weighted_sum_max [OF w, of ?x ?y ?z, OF min.cobounded2 tx_spec_le z]
  have le: "?s div 100 \<le> 100" using sums(1) by linarith
  have "unat (compute_score_pure vp vol avg n t rep (vc_weight w) (tx_weight w) (repayment_weight w))
      = 300 + ?s div 100 * 550 div 100"
    using le by (simp add: unat_compute_score_pure score_spec_def final_spec_def composite_spec_def)
  moreover have "300 + ?s div 100 * 550 div 100 = 850 \<longleftrightarrow> ?s = 10000"
    using sums(1) by (rule full_marks)
  moreover have "min (unat vp) 100 = 100 \<longleftrightarrow> 100 \<le> unat vp" by linarith
  ultimately show ?thesis
    using sums(2) by (simp add: composite_spec_def MAX_SCORE_def word_unat_eq_iff)
qed

theorem perfect_score_iff_witness:
  "compute_score_pure 100 8000000000 100 10 10 10000000000 40 30 30 = MAX_SCORE"
proof -
  let ?w = "\<lparr>vc_weight = 40, tx_weight = 30, repayment_weight = 30\<rparr>"
  have "is_valid ?w = Some True" by (simp add: is_valid_iff weights_ok_def)
  from perfect_score_iff [OF this, of 10 10 100 8000000000 100 10000000000] show ?thesis
    by (simp add: tx_spec_def repay_spec_def rate_spec_def capped_volume_def)
qed

text \<open>C22: The recency multiplier is the documented \<open>max(floor, 10000 - age_days * rate)\<close> on unbounded
  numbers with the floor capped at 10000, lies between the floor and 10000, and is monotone in the
  anchoring time; scaling by it never increases the points of a credential.\<close>

theorem recency_decay_correct:
  "unat (recency_multiplier_bps a n r m) = recency_spec (unat a) (unat n) (unat r) (unat m)
   \<and> min m BPS_DENOMINATOR \<le> recency_multiplier_bps a n r m
   \<and> recency_multiplier_bps a n r m \<le> BPS_DENOMINATOR
   \<and> recency_multiplier_bps (min a b) n r m \<le> recency_multiplier_bps a n r m
   \<and> unat (apply_recency_bps p (recency_multiplier_bps a n r m))
       = unat p * recency_spec (unat a) (unat n) (unat r) (unat m) div 10000
   \<and> apply_recency_bps p (recency_multiplier_bps a n r m) \<le> p"
proof -
  let ?b = "recency_multiplier_bps a n r m"
  have le: "unat ?b \<le> 10000"
    by (simp add: unat_recency_multiplier recency_spec_bounds)
  have "unat p * unat ?b div 10000 \<le> unat p * 10000 div 10000"
    using le by (intro div_le_mono mult_le_mono) auto
  then have "apply_recency_bps p ?b \<le> p"
    using le by (simp add: word_le_nat_alt unat_apply_recency)
  then show ?thesis
    using le recency_spec_bounds(1) [of "unat m" "unat a" "unat n" "unat r"]
    by (auto simp: word_le_nat_alt unat_recency_multiplier unat_apply_recency unat_min_word
        intro!: recency_spec_mono)
qed

end
