(* ===== verification/Interfaces.thy ===== *)
theory Interfaces
  imports Shared_Types
begin

text \<open>
  The contracts that several components honour, as locales over an abstract state:
  the two-step admin handover (credit-oracle, identity-oracle, revocation-registry),
  the tombstoned membership index (feeders, lenders, issuers), the pause switch and
  the one-shot initialiser. Each is interpreted in the theory of every contract
  that implements it.
\<close>

section \<open>Two-step admin handover\<close>

locale admin_handover =
  fixes admin_of :: "'s \<Rightarrow> address option"
    and pending_of :: "'s \<Rightarrow> address option"
    and propose :: "env \<Rightarrow> address \<Rightarrow> 's \<Rightarrow> ('e, 's) outcome"
    and accept :: "env \<Rightarrow> address \<Rightarrow> 's \<Rightarrow> ('e, 's) outcome"
  assumes propose_ok: "propose e n s = Ok s' \<Longrightarrow>
      (\<exists>a. admin_of s = Some a \<and> authorized e a) \<and>
      admin_of s' = admin_of s \<and> pending_of s' = Some n"
    and accept_ok: "accept e n s = Ok s' \<Longrightarrow>
      pending_of s = Some n \<and> authorized e n \<and> admin_of s' = Some n \<and> pending_of s' = None"
begin

text \<open>A completed handover was authorised by both sides and names the proposed address.\<close>

lemma handover:
  assumes "propose e n s = Ok s1" and "accept e' m s1 = Ok s2"
  shows "m = n \<and> (\<exists>a. admin_of s = Some a \<and> authorized e a) \<and> authorized e' n \<and>
         admin_of s2 = Some n \<and> pending_of s2 = None"
  using propose_ok [OF assms(1)] accept_ok [OF assms(2)] by auto

lemma accept_once: "accept e n s = Ok s' \<Longrightarrow> accept e' m s' \<noteq> Ok s''"
  using accept_ok [of e n s s'] accept_ok [of e' m s' s''] by auto

lemma accept_needs_proposal: "pending_of s \<noteq> Some n \<Longrightarrow> accept e n s \<noteq> Ok s'"
  using accept_ok [of e n s s'] by auto

end

section \<open>Membership with tombstones and an index\<close>

locale flag_index =
  fixes inv :: "'s \<Rightarrow> bool"
    and trusted :: "'s \<Rightarrow> address \<Rightarrow> bool"
    and listing :: "'s \<Rightarrow> address list"
    and reg :: "env \<Rightarrow> address \<Rightarrow> 's \<Rightarrow> ('e, 's) outcome"
    and dereg :: "env \<Rightarrow> address \<Rightarrow> 's \<Rightarrow> ('e, 's) outcome"
  assumes listing_exact: "inv s \<Longrightarrow> distinct (listing s) \<and> set (listing s) = {a. trusted s a}"
    and reg_ok: "inv s \<Longrightarrow> reg e a s = Ok s' \<Longrightarrow>
      inv s' \<and> (\<forall>b. trusted s' b \<longleftrightarrow> b = a \<or> trusted s b)"
    and dereg_ok: "inv s \<Longrightarrow> dereg e a s = Ok s' \<Longrightarrow>
      inv s' \<and> (\<forall>b. trusted s' b \<longleftrightarrow> b \<noteq> a \<and> trusted s b)"
begin

lemma reg_listed: "inv s \<Longrightarrow> reg e a s = Ok s' \<Longrightarrow>
    distinct (listing s') \<and> set (listing s') = insert a (set (listing s))"
  using reg_ok [of s e a s'] listing_exact [of s] listing_exact [of s'] by auto

lemma dereg_unlisted: "inv s \<Longrightarrow> dereg e a s = Ok s' \<Longrightarrow>
    distinct (listing s') \<and> set (listing s') = set (listing s) - {a}"
  using dereg_ok [of s e a s'] listing_exact [of s] listing_exact [of s'] by auto

text \<open>A register, deregister, register cycle lists the address exactly once.\<close>

lemma cycle_listed_once:
  assumes "inv s" and "reg e a s = Ok s1" and "dereg e' a s1 = Ok s2" and "reg e'' a s2 = Ok s3"
  shows "distinct (listing s3) \<and> set (listing s3) = insert a (set (listing s))"
proof -
  have i1: "inv s1" using reg_ok assms by blast
  have i2: "inv s2" using dereg_ok i1 assms by blast
  show ?thesis
    using reg_listed [OF assms(1,2)] dereg_unlisted [OF i1 assms(3)] reg_listed [OF i2 assms(4)]
    by auto
qed

end

section \<open>The pause switch\<close>

locale pause_switch =
  fixes paused :: "'s \<Rightarrow> bool"
    and pause :: "env \<Rightarrow> 's \<Rightarrow> ('e, 's) outcome"
    and unpause :: "env \<Rightarrow> 's \<Rightarrow> ('e, 's) outcome"
    and guarded :: "'call \<Rightarrow> bool"
    and run :: "env \<Rightarrow> 'call \<Rightarrow> 's \<Rightarrow> ('e, 's) outcome"
  assumes pause_ok: "pause e s = Ok s' \<Longrightarrow> paused s'"
    and unpause_ok: "unpause e s = Ok s' \<Longrightarrow> \<not> paused s'"
    and blocked: "paused s \<Longrightarrow> guarded c \<Longrightarrow> \<not> is_ok (run e c s)"
begin

lemma no_write_while_paused:
  "pause e s = Ok s' \<Longrightarrow> guarded c \<Longrightarrow> \<not> is_ok (run e' c s')"
  using pause_ok blocked by blast

end

section \<open>One-shot initialisation\<close>

locale one_shot_init =
  fixes admin_of :: "'s \<Rightarrow> address option"
    and init :: "env \<Rightarrow> 'arg \<Rightarrow> 's \<Rightarrow> ('e, 's) outcome"
  assumes init_ok: "init e x s = Ok s' \<Longrightarrow> admin_of s = None \<and> admin_of s' \<noteq> None"
begin

lemma init_once: "init e x s = Ok s' \<Longrightarrow> init e' y s' \<noteq> Ok s''"
  using init_ok [of e x s s'] init_ok [of e' y s' s''] by auto

end

section \<open>A source of revocation answers\<close>

text \<open>
  What the identity-oracle needs of the registry it is linked to: a call to a linked
  address returns. \<open>rq\<close> is the call, \<open>None\<close> a failed one.
\<close>

locale revocation_source =
  fixes rq :: "address \<Rightarrow> vc_hash \<Rightarrow> bool option"
    and linked :: "address \<Rightarrow> bool"
  assumes answers: "linked a \<Longrightarrow> \<exists>b. rq a h = Some b"
begin

lemma no_trap: "linked a \<Longrightarrow> rq a h \<noteq> None"
  using answers [of a h] by auto

end

section \<open>The identity service the score reads\<close>

text \<open>
  The five read-only calls the credit-oracle makes on an identity-oracle, the first
  argument being the contract called; \<open>None\<close> is a failed call. The locale says what
  scoring relies on where the identity-oracle is linked: the calls return, and every
  record of \<open>get_vc_details\<close> passes \<open>verify_vc\<close>.
\<close>

record identity_view =
  iv_is_deactivated :: "address \<Rightarrow> address \<Rightarrow> bool option"
  iv_get_vc_details :: "address \<Rightarrow> address \<Rightarrow> identity_vc_record list option"
  iv_verify_vc :: "address \<Rightarrow> address \<Rightarrow> vc_hash \<Rightarrow> bool option"
  iv_get_vc_credential_type :: "address \<Rightarrow> address \<Rightarrow> vc_hash \<Rightarrow> symbol option"
  iv_get_last_state_change_ledger :: "address \<Rightarrow> address \<Rightarrow> u32 option option"

locale identity_service =
  fixes iv :: identity_view
    and linked :: "address \<Rightarrow> bool"
  assumes deactivated_answers: "linked i \<Longrightarrow> \<exists>b. iv_is_deactivated iv i a = Some b"
    and details_answer: "linked i \<Longrightarrow> \<exists>rs. iv_get_vc_details iv i a = Some rs"
    and details_verify: "linked i \<Longrightarrow> iv_get_vc_details iv i a = Some rs \<Longrightarrow> r \<in> set rs \<Longrightarrow>
      iv_verify_vc iv i a (vc_hash_of r) = Some True"
    and type_answers: "linked i \<Longrightarrow> \<exists>t. iv_get_vc_credential_type iv i a h = Some t"

end
