(* ===== verification/Revocation_Registry.thy ===== *)
theory Revocation_Registry
  imports Interfaces
begin

text \<open>
  \<open>contracts/revocation-registry/src/lib.rs\<close>. The state is a record with one field
  per \<open>RevocationKey\<close> variant (\<open>None\<close> or an absent key is an unset entry) and the
  log of published events. \<open>revoke\<close> calls the linked identity-oracle: the call is the
  parameter \<open>mark\<close>, which takes the environment of the call and the state of the
  other contracts and returns their new state, or \<open>None\<close> when the call fails.
\<close>

section \<open>State\<close>

datatype rr_error =
    RrAlreadyInitialized | RrNotAuthorized | IssuerMismatch | RrNoPendingAdmin
  | BatchTooLarge | RrContractPaused | ReentrancyDetected | InvalidBatchLimit

datatype rr_event =
    RrInitialized address | RrPaused | RrUnpaused | IdOSet address
  | Revoked address vc_hash | BatchRev address nat

record rr_state =
  rr_admin :: "address option"
  rr_paused :: "bool option"
  rr_pending_admin :: "address option"
  rr_identity_oracle_id :: "address option"
  rr_registered_issuer :: "vc_hash \<rightharpoonup> address"
  rr_status :: "vc_hash \<rightharpoonup> bool"
  rr_issuer_of :: "vc_hash \<rightharpoonup> address"
  rr_revoked_list :: "address \<rightharpoonup> vc_hash list"
  rr_lock :: "bool option"
  rr_batch_limit :: "u32 option"
  rr_wasm :: "bytes option"
  rr_events :: "rr_event list"

definition rr_new :: rr_state where
  "rr_new = \<lparr>rr_admin = None, rr_paused = None, rr_pending_admin = None,
     rr_identity_oracle_id = None, rr_registered_issuer = Map.empty, rr_status = Map.empty,
     rr_issuer_of = Map.empty, rr_revoked_list = Map.empty, rr_lock = None,
     rr_batch_limit = None, rr_wasm = None, rr_events = []\<rparr>"

definition MAX_BATCH_SIZE :: u32 where
  "MAX_BATCH_SIZE = 100"

definition rr_publish :: "rr_event \<Rightarrow> rr_state \<Rightarrow> rr_state" where
  "rr_publish ev s = s\<lparr>rr_events := rr_events s @ [ev]\<rparr>"

section \<open>Guards\<close>

definition rr_require_admin :: "env \<Rightarrow> rr_state \<Rightarrow> (rr_error, address) outcome" where
  "rr_require_admin e s =
     (case rr_admin s of None \<Rightarrow> Trap | Some a \<Rightarrow> if authorized e a then Ok a else Trap)"

definition rr_ensure_not_paused :: "rr_state \<Rightarrow> (rr_error, unit) outcome" where
  "rr_ensure_not_paused s = (if unwrap_or (rr_paused s) False then Err RrContractPaused else Ok ())"

definition rr_enter_guard :: "rr_state \<Rightarrow> (rr_error, rr_state) outcome" where
  "rr_enter_guard s =
     (if rr_lock s \<noteq> None then Err ReentrancyDetected else Ok (s\<lparr>rr_lock := Some True\<rparr>))"

definition rr_exit_guard :: "rr_state \<Rightarrow> rr_state" where
  "rr_exit_guard s = s\<lparr>rr_lock := None\<rparr>"

section \<open>Administration\<close>

definition rr_initialize :: "env \<Rightarrow> address \<Rightarrow> rr_state \<Rightarrow> (rr_error, rr_state) outcome" where
  "rr_initialize e adm s =
     (if rr_admin s \<noteq> None then Err RrAlreadyInitialized
      else if \<not> authorized e adm then Trap
      else Ok ((rr_publish (RrInitialized adm) (s\<lparr>rr_admin := Some adm\<rparr>))
                 \<lparr>rr_batch_limit := Some MAX_BATCH_SIZE\<rparr>))"

definition rr_pause :: "env \<Rightarrow> rr_state \<Rightarrow> (rr_error, rr_state) outcome" where
  "rr_pause e s =
     outcome_bind (rr_require_admin e s) (\<lambda>_. Ok (rr_publish RrPaused (s\<lparr>rr_paused := Some True\<rparr>)))"

definition rr_unpause :: "env \<Rightarrow> rr_state \<Rightarrow> (rr_error, rr_state) outcome" where
  "rr_unpause e s =
     outcome_bind (rr_require_admin e s) (\<lambda>_. Ok (rr_publish RrUnpaused (s\<lparr>rr_paused := Some False\<rparr>)))"

definition rr_is_paused :: "rr_state \<Rightarrow> bool" where
  "rr_is_paused s = unwrap_or (rr_paused s) False"

definition rr_get_batch_limit :: "rr_state \<Rightarrow> u32" where
  "rr_get_batch_limit s = unwrap_or (rr_batch_limit s) MAX_BATCH_SIZE"

definition rr_set_batch_limit :: "env \<Rightarrow> address \<Rightarrow> u32 \<Rightarrow> rr_state \<Rightarrow> (rr_error, rr_state) outcome" where
  "rr_set_batch_limit e adm lim s =
     outcome_bind (rr_ensure_not_paused s) (\<lambda>_.
     outcome_bind (rr_require_admin e s) (\<lambda>stored.
       if adm \<noteq> stored then Err RrNotAuthorized
       else if lim = 0 \<or> MAX_BATCH_SIZE < lim then Err InvalidBatchLimit
       else Ok (s\<lparr>rr_batch_limit := Some lim\<rparr>)))"

definition rr_set_identity_oracle :: "env \<Rightarrow> address \<Rightarrow> rr_state \<Rightarrow> (rr_error, rr_state) outcome" where
  "rr_set_identity_oracle e oid s =
     outcome_bind (rr_ensure_not_paused s) (\<lambda>_.
     outcome_bind (rr_require_admin e s) (\<lambda>_.
       Ok (rr_publish (IdOSet oid) (s\<lparr>rr_identity_oracle_id := Some oid\<rparr>))))"

definition rr_propose_new_admin :: "env \<Rightarrow> address \<Rightarrow> rr_state \<Rightarrow> (rr_error, rr_state) outcome" where
  "rr_propose_new_admin e n s =
     outcome_bind (rr_require_admin e s) (\<lambda>_. Ok (s\<lparr>rr_pending_admin := Some n\<rparr>))"

definition rr_accept_admin :: "env \<Rightarrow> address \<Rightarrow> rr_state \<Rightarrow> (rr_error, rr_state) outcome" where
  "rr_accept_admin e n s =
     outcome_bind (rr_ensure_not_paused s) (\<lambda>_.
       case rr_pending_admin s of
         Some p \<Rightarrow>
           if p \<noteq> n then Err RrNotAuthorized
           else if \<not> authorized e n then Trap
           else Ok (s\<lparr>rr_admin := Some n, rr_pending_admin := None\<rparr>)
       | None \<Rightarrow> Err RrNoPendingAdmin)"

definition rr_maintain_storage :: "env \<Rightarrow> rr_state \<Rightarrow> (rr_error, rr_state) outcome" where
  "rr_maintain_storage e s =
     outcome_bind (rr_ensure_not_paused s) (\<lambda>_.
     outcome_bind (rr_require_admin e s) (\<lambda>_. Ok s))"

definition rr_upgrade :: "env \<Rightarrow> bytes \<Rightarrow> rr_state \<Rightarrow> (rr_error, rr_state) outcome" where
  "rr_upgrade e h s =
     outcome_bind (rr_ensure_not_paused s) (\<lambda>_.
     outcome_bind (rr_require_admin e s) (\<lambda>_. Ok (s\<lparr>rr_wasm := Some h\<rparr>)))"

section \<open>Revocation\<close>

text \<open>The first issuer to revoke a hash owns it; another issuer is a mismatch.\<close>

definition rr_claim :: "address \<Rightarrow> vc_hash \<Rightarrow> rr_state \<Rightarrow> (rr_error, rr_state) outcome" where
  "rr_claim issu h s =
     (case rr_registered_issuer s h of
        Some existing \<Rightarrow> if existing \<noteq> issu then Err IssuerMismatch else Ok s
      | None \<Rightarrow> Ok (s\<lparr>rr_registered_issuer := (rr_registered_issuer s)(h \<mapsto> issu)\<rparr>))"

definition rr_mark :: "address \<Rightarrow> vc_hash \<Rightarrow> rr_state \<Rightarrow> rr_state" where
  "rr_mark issu h s = s\<lparr>rr_status := (rr_status s)(h \<mapsto> True),
                        rr_issuer_of := (rr_issuer_of s)(h \<mapsto> issu)\<rparr>"

type_synonym 'w mark_call =
  "env \<Rightarrow> address \<Rightarrow> address \<Rightarrow> address \<Rightarrow> vc_hash \<Rightarrow> 'w \<Rightarrow> 'w option"

definition rr_notify_oracle ::
  "env \<Rightarrow> 'w mark_call \<Rightarrow> address \<Rightarrow> address \<Rightarrow> vc_hash \<Rightarrow> rr_state \<times> 'w
     \<Rightarrow> (rr_error, rr_state \<times> 'w) outcome" where
  "rr_notify_oracle e mark issu subject h sw =
     (case sw of (s, w) \<Rightarrow>
        case rr_identity_oracle_id s of
          None \<Rightarrow> Ok (s, w)
        | Some oid \<Rightarrow>
            outcome_bind (rr_enter_guard s) (\<lambda>s'.
              case mark (call_env e oid) oid issu subject h w of
                None \<Rightarrow> Trap
              | Some w' \<Rightarrow> Ok (rr_exit_guard s', w')))"

definition rr_append_revoked :: "address \<Rightarrow> vc_hash \<Rightarrow> rr_state \<Rightarrow> rr_state" where
  "rr_append_revoked issu h s =
     (let xs = unwrap_or (rr_revoked_list s issu) []
      in if h \<in> set xs then s
         else s\<lparr>rr_revoked_list := (rr_revoked_list s)(issu \<mapsto> xs @ [h])\<rparr>)"

definition rr_revoke ::
  "env \<Rightarrow> 'w mark_call \<Rightarrow> address \<Rightarrow> address \<Rightarrow> vc_hash \<Rightarrow> rr_state \<times> 'w
     \<Rightarrow> (rr_error, rr_state \<times> 'w) outcome" where
  "rr_revoke e mark issu subject h sw =
     (case sw of (s, w) \<Rightarrow>
        outcome_bind (rr_ensure_not_paused s) (\<lambda>_.
          if \<not> authorized e issu then Trap
          else outcome_bind (rr_claim issu h s) (\<lambda>s1.
               outcome_bind (rr_notify_oracle e mark issu subject h (rr_mark issu h s1, w)) (\<lambda>(s2, w').
                 Ok (rr_publish (Revoked issu h) (rr_append_revoked issu h s2), w')))))"

fun rr_batch_loop ::
  "address \<Rightarrow> vc_hash list \<Rightarrow> rr_state \<Rightarrow> vc_hash list \<Rightarrow> bool
     \<Rightarrow> (rr_error, rr_state \<times> vc_hash list \<times> bool) outcome" where
  "rr_batch_loop issu [] s xs modified = Ok (s, xs, modified)"
| "rr_batch_loop issu (h # hs) s xs modified =
     outcome_bind (rr_claim issu h s) (\<lambda>s1.
       let s2 = rr_publish (Revoked issu h) (rr_mark issu h s1)
       in if h \<in> set xs then rr_batch_loop issu hs s2 xs modified
          else rr_batch_loop issu hs s2 (xs @ [h]) True)"

definition rr_batch_revoke ::
  "env \<Rightarrow> address \<Rightarrow> vc_hash list \<Rightarrow> rr_state \<Rightarrow> (rr_error, rr_state) outcome" where
  "rr_batch_revoke e issu hs s =
     outcome_bind (rr_ensure_not_paused s) (\<lambda>_.
       if \<not> authorized e issu then Trap
       else if unat (unwrap_or (rr_batch_limit s) MAX_BATCH_SIZE) < length hs then Err BatchTooLarge
       else outcome_bind (rr_batch_loop issu hs s (unwrap_or (rr_revoked_list s issu) []) False)
              (\<lambda>(s', xs, modified).
                 let s'' = (if modified then s'\<lparr>rr_revoked_list := (rr_revoked_list s')(issu \<mapsto> xs)\<rparr>
                            else s')
                 in Ok (rr_publish (BatchRev issu (length hs)) s'')))"

section \<open>Queries\<close>

definition rr_is_revoked :: "rr_state \<Rightarrow> vc_hash \<Rightarrow> bool" where
  "rr_is_revoked s h = unwrap_or (rr_status s h) False"

definition rr_get_revocation_record :: "rr_state \<Rightarrow> vc_hash \<Rightarrow> address option" where
  "rr_get_revocation_record s h = rr_issuer_of s h"

definition rr_get_revocation_count :: "rr_state \<Rightarrow> address \<Rightarrow> nat" where
  "rr_get_revocation_count s issu = length (unwrap_or (rr_revoked_list s issu) [])"

definition rr_list_revoked_for_issuer :: "rr_state \<Rightarrow> address \<Rightarrow> vc_hash list" where
  "rr_list_revoked_for_issuer s issu = unwrap_or (rr_revoked_list s issu) []"

text \<open>
  \<open>list_revoked\<close>: one page of an issuer's list. \<open>cursor + limit\<close> is a \<open>u32\<close> addition,
  which panics (\<open>None\<close>) when it overflows.
\<close>

definition rr_list_revoked :: "rr_state \<Rightarrow> address \<Rightarrow> u32 \<Rightarrow> u32 \<Rightarrow> vc_hash list option" where
  "rr_list_revoked s issu cursor lim =
     (let xs = unwrap_or (rr_revoked_list s issu) [];
          n = length xs
      in if n \<le> unat cursor \<or> lim = 0 then Some []
         else case checked_add cursor lim of
                None \<Rightarrow> None
              | Some stop \<Rightarrow> Some (map (\<lambda>i. xs ! i) [unat cursor..<min (unat stop) n]))"

section \<open>Calls and reachable states\<close>

datatype rr_call =
    RrInitializeCall address | RrPauseCall | RrUnpauseCall | RrSetBatchLimitCall address u32
  | RrSetIdentityOracleCall address | RrProposeAdminCall address | RrAcceptAdminCall address
  | RrRevokeCall address address vc_hash | RrBatchRevokeCall address "vc_hash list"
  | RrMaintainCall | RrUpgradeCall bytes

definition rr_local :: "(rr_state \<Rightarrow> (rr_error, rr_state) outcome) \<Rightarrow> rr_state \<times> 'w
    \<Rightarrow> (rr_error, rr_state \<times> 'w) outcome" where
  "rr_local f sw = (case sw of (s, w) \<Rightarrow> outcome_bind (f s) (\<lambda>s'. Ok (s', w)))"

fun rr_exec :: "env \<Rightarrow> 'w mark_call \<Rightarrow> rr_call \<Rightarrow> rr_state \<times> 'w \<Rightarrow> (rr_error, rr_state \<times> 'w) outcome"
  where
  "rr_exec e mark (RrInitializeCall a) sw = rr_local (rr_initialize e a) sw"
| "rr_exec e mark RrPauseCall sw = rr_local (rr_pause e) sw"
| "rr_exec e mark RrUnpauseCall sw = rr_local (rr_unpause e) sw"
| "rr_exec e mark (RrSetBatchLimitCall a l) sw = rr_local (rr_set_batch_limit e a l) sw"
| "rr_exec e mark (RrSetIdentityOracleCall a) sw = rr_local (rr_set_identity_oracle e a) sw"
| "rr_exec e mark (RrProposeAdminCall a) sw = rr_local (rr_propose_new_admin e a) sw"
| "rr_exec e mark (RrAcceptAdminCall a) sw = rr_local (rr_accept_admin e a) sw"
| "rr_exec e mark (RrRevokeCall i subj h) sw = rr_revoke e mark i subj h sw"
| "rr_exec e mark (RrBatchRevokeCall i hs) sw = rr_local (rr_batch_revoke e i hs) sw"
| "rr_exec e mark RrMaintainCall sw = rr_local (rr_maintain_storage e) sw"
| "rr_exec e mark (RrUpgradeCall h) sw = rr_local (rr_upgrade e h) sw"

text \<open>Reachable states: any sequence of successful calls, in any environments.\<close>

inductive rr_reachable :: "rr_state \<times> 'w \<Rightarrow> bool" where
  rr_start: "rr_reachable (rr_new, w)"
| rr_step: "rr_reachable sw \<Longrightarrow> rr_exec e mark c sw = Ok sw' \<Longrightarrow> rr_reachable sw'"

section \<open>Recording a revocation\<close>

text \<open>What a successful revocation of one hash writes, and the part of the state it is about.\<close>

definition rr_recorded :: "address \<Rightarrow> vc_hash \<Rightarrow> rr_state \<Rightarrow> rr_state" where
  "rr_recorded issu h s =
     rr_append_revoked issu h
       (rr_mark issu h (s\<lparr>rr_registered_issuer := (rr_registered_issuer s)(h \<mapsto> issu)\<rparr>))"

definition rr_claimable :: "address \<Rightarrow> rr_state \<Rightarrow> vc_hash \<Rightarrow> bool" where
  "rr_claimable issu s h \<longleftrightarrow>
     rr_registered_issuer s h = None \<or> rr_registered_issuer s h = Some issu"

definition rr_view ::
  "rr_state \<Rightarrow> (vc_hash \<rightharpoonup> address) \<times> (vc_hash \<rightharpoonup> bool) \<times> (vc_hash \<rightharpoonup> address)
     \<times> (address \<Rightarrow> vc_hash list)" where
  "rr_view s = (rr_registered_issuer s, rr_status s, rr_issuer_of s, rr_list_revoked_for_issuer s)"

lemma rr_claim_Ok:
  "rr_claim issu h s = Ok s' \<longleftrightarrow>
     rr_claimable issu s h \<and>
     s' = s\<lparr>rr_registered_issuer := (rr_registered_issuer s)(h \<mapsto> issu)\<rparr>"
  by (cases "rr_registered_issuer s h")
     (auto simp: rr_claim_def rr_claimable_def fun_upd_idem)

lemma rr_claim_Err: "rr_claim issu h s = Err er \<longleftrightarrow> \<not> rr_claimable issu s h \<and> er = IssuerMismatch"
  by (cases "rr_registered_issuer s h") (auto simp: rr_claim_def rr_claimable_def)

lemma rr_claim_not_Trap [simp]: "rr_claim issu h s \<noteq> Trap"
  by (simp add: rr_claim_def split: option.splits)

lemma rr_view_publish [simp]: "rr_view (rr_publish ev s) = rr_view s"
  by (simp add: rr_view_def rr_publish_def rr_list_revoked_for_issuer_def fun_eq_iff)

lemma rr_recorded_fields:
  "rr_registered_issuer (rr_recorded issu h s) = (rr_registered_issuer s)(h \<mapsto> issu)"
  "rr_status (rr_recorded issu h s) = (rr_status s)(h \<mapsto> True)"
  "rr_issuer_of (rr_recorded issu h s) = (rr_issuer_of s)(h \<mapsto> issu)"
  "rr_lock (rr_recorded issu h s) = rr_lock s"
  "rr_batch_limit (rr_recorded issu h s) = rr_batch_limit s"
  "rr_admin (rr_recorded issu h s) = rr_admin s"
  "rr_pending_admin (rr_recorded issu h s) = rr_pending_admin s"
  "rr_paused (rr_recorded issu h s) = rr_paused s"
  "rr_identity_oracle_id (rr_recorded issu h s) = rr_identity_oracle_id s"
  "rr_list_revoked_for_issuer (rr_recorded issu h s) =
     (rr_list_revoked_for_issuer s)(issu := (let xs = rr_list_revoked_for_issuer s issu
        in if h \<in> set xs then xs else xs @ [h]))"
  by (auto simp: rr_recorded_def rr_append_revoked_def rr_mark_def rr_list_revoked_for_issuer_def
      Let_def fun_eq_iff)

lemma rr_view_recorded_cong:
  "rr_view s = rr_view t \<Longrightarrow> rr_view (rr_recorded issu h s) = rr_view (rr_recorded issu h t)"
  by (simp add: rr_view_def rr_recorded_fields)

lemma rr_claimable_cong: "rr_view s = rr_view t \<Longrightarrow> rr_claimable issu s h = rr_claimable issu t h"
  by (simp add: rr_view_def rr_claimable_def)

subsection \<open>Single revocation\<close>

lemma rr_notify_oracle_Ok:
  "rr_notify_oracle e mark issu subj h (s, w) = Ok (s', w') \<longleftrightarrow>
     (case rr_identity_oracle_id s of
        None \<Rightarrow> s' = s \<and> w' = w
      | Some oid \<Rightarrow> rr_lock s = None \<and> s' = s \<and> mark (call_env e oid) oid issu subj h w = Some w')"
  by (auto simp: rr_notify_oracle_def rr_enter_guard_def rr_exit_guard_def
      split: option.splits if_splits)

lemma rr_append_mark_comm:
  "rr_identity_oracle_id (rr_mark issu h s) = rr_identity_oracle_id s"
  "rr_lock (rr_mark issu h s) = rr_lock s"
  by (simp_all add: rr_mark_def)

lemma rr_revoke_Ok:
  "rr_revoke e mark issu subj h (s, w) = Ok (s', w') \<longleftrightarrow>
     \<not> rr_is_paused s \<and> authorized e issu \<and> rr_claimable issu s h
     \<and> s' = rr_publish (Revoked issu h) (rr_recorded issu h s)
     \<and> (case rr_identity_oracle_id s of
          None \<Rightarrow> w' = w
        | Some oid \<Rightarrow> rr_lock s = None \<and> mark (call_env e oid) oid issu subj h w = Some w')"
  by (cases "rr_identity_oracle_id s")
     (auto simp: rr_revoke_def rr_ensure_not_paused_def rr_is_paused_def rr_claim_Ok
      rr_notify_oracle_Ok rr_append_mark_comm rr_recorded_def)

subsection \<open>Batch revocation\<close>

text \<open>The state of the loop with the local list written back, as the end of the loop does.\<close>

definition rr_flush :: "address \<Rightarrow> vc_hash list \<Rightarrow> rr_state \<Rightarrow> rr_state" where
  "rr_flush issu xs s = s\<lparr>rr_revoked_list := (rr_revoked_list s)(issu \<mapsto> xs)\<rparr>"

fun rr_claimable_all :: "address \<Rightarrow> vc_hash list \<Rightarrow> rr_state \<Rightarrow> bool" where
  "rr_claimable_all issu [] s = True"
| "rr_claimable_all issu (h # hs) s \<longleftrightarrow>
     rr_claimable issu s h \<and> rr_claimable_all issu hs (rr_recorded issu h s)"

lemma rr_view_flush_step:
  "rr_view (rr_recorded issu h (rr_flush issu xs s)) =
   rr_view (rr_flush issu (if h \<in> set xs then xs else xs @ [h])
     (rr_publish ev (rr_mark issu h
        (s\<lparr>rr_registered_issuer := (rr_registered_issuer s)(h \<mapsto> issu)\<rparr>))))"
  by (simp add: rr_view_def rr_recorded_fields)
     (auto simp: rr_flush_def rr_mark_def rr_publish_def rr_list_revoked_for_issuer_def fun_eq_iff)

lemma rr_claimable_all_cong:
  "rr_view s = rr_view t \<Longrightarrow> rr_claimable_all issu hs s = rr_claimable_all issu hs t"
proof (induction hs arbitrary: s t)
  case (Cons h hs)
  from Cons.prems have "rr_view (rr_recorded issu h s) = rr_view (rr_recorded issu h t)"
    by (rule rr_view_recorded_cong)
  then have "rr_claimable_all issu hs (rr_recorded issu h s)
             = rr_claimable_all issu hs (rr_recorded issu h t)"
    by (rule Cons.IH)
  moreover have "rr_claimable issu s h = rr_claimable issu t h"
    using Cons.prems by (rule rr_claimable_cong)
  ultimately show ?case by simp
qed simp

lemma rr_fold_recorded_cong:
  "rr_view s = rr_view t \<Longrightarrow>
     rr_view (fold (rr_recorded issu) hs s) = rr_view (fold (rr_recorded issu) hs t)"
proof (induction hs arbitrary: s t)
  case (Cons h hs)
  show ?case
    using Cons.IH [OF rr_view_recorded_cong [OF Cons.prems]] by simp
qed simp

lemma rr_batch_loop_Ok:
  "rr_batch_loop issu hs s xs m = Ok (s', xs', m') \<Longrightarrow>
     rr_claimable_all issu hs (rr_flush issu xs s) \<and>
     rr_view (rr_flush issu xs' s') = rr_view (fold (rr_recorded issu) hs (rr_flush issu xs s)) \<and>
     rr_lock s' = rr_lock s \<and> rr_batch_limit s' = rr_batch_limit s \<and> rr_admin s' = rr_admin s \<and>
     rr_pending_admin s' = rr_pending_admin s \<and> rr_revoked_list s' = rr_revoked_list s \<and> (\<not> m' \<longrightarrow> \<not> m \<and> xs' = xs)"
proof (induction hs arbitrary: s xs m)
  case (Cons h hs)
  let ?s1 = "s\<lparr>rr_registered_issuer := (rr_registered_issuer s)(h \<mapsto> issu)\<rparr>"
  let ?s2 = "rr_publish (Revoked issu h) (rr_mark issu h ?s1)"
  let ?xs = "if h \<in> set xs then xs else xs @ [h]"
  let ?m = "if h \<in> set xs then m else True"
  from Cons.prems have cl: "rr_claimable issu s h"
    and rest: "rr_batch_loop issu hs ?s2 ?xs ?m = Ok (s', xs', m')"
    by (auto simp: rr_claim_Ok Let_def split: if_splits)
  note ih = Cons.IH [OF rest]
  have v: "rr_view (rr_recorded issu h (rr_flush issu xs s)) = rr_view (rr_flush issu ?xs ?s2)"
    by (rule rr_view_flush_step)
  have "rr_claimable issu (rr_flush issu xs s) h"
    using cl by (simp add: rr_claimable_def rr_flush_def)
  moreover have "rr_claimable_all issu hs (rr_recorded issu h (rr_flush issu xs s))"
    using ih rr_claimable_all_cong [OF v] by blast
  moreover have "rr_view (rr_flush issu xs' s')
      = rr_view (fold (rr_recorded issu) (h # hs) (rr_flush issu xs s))"
    using ih rr_fold_recorded_cong [OF v] by simp
  moreover have "rr_lock ?s2 = rr_lock s \<and> rr_batch_limit ?s2 = rr_batch_limit s
      \<and> rr_admin ?s2 = rr_admin s \<and> rr_pending_admin ?s2 = rr_pending_admin s \<and> rr_revoked_list ?s2 = rr_revoked_list s"
    by (simp add: rr_publish_def rr_mark_def)
  ultimately show ?case
    using ih by (auto split: if_splits)
qed auto

lemma rr_batch_loop_total:
  "rr_claimable_all issu hs (rr_flush issu xs s) \<Longrightarrow>
     \<exists>s' xs' m'. rr_batch_loop issu hs s xs m = Ok (s', xs', m')"
proof (induction hs arbitrary: s xs m)
  case (Cons h hs)
  let ?s1 = "s\<lparr>rr_registered_issuer := (rr_registered_issuer s)(h \<mapsto> issu)\<rparr>"
  let ?s2 = "rr_publish (Revoked issu h) (rr_mark issu h ?s1)"
  let ?xs = "if h \<in> set xs then xs else xs @ [h]"
  have v: "rr_view (rr_recorded issu h (rr_flush issu xs s)) = rr_view (rr_flush issu ?xs ?s2)"
    by (rule rr_view_flush_step)
  have "rr_claimable_all issu hs (rr_flush issu ?xs ?s2)"
    using Cons.prems rr_claimable_all_cong [OF v] by simp
  then obtain s' xs' m' where
      "rr_batch_loop issu hs ?s2 ?xs (if h \<in> set xs then m else True) = Ok (s', xs', m')"
    using Cons.IH by blast
  moreover have "rr_claim issu h s = Ok ?s1"
    using Cons.prems by (simp add: rr_claim_Ok rr_claimable_def rr_flush_def)
  ultimately show ?case by (auto simp: Let_def)
qed simp

lemma rr_flush_same_view:
  "rr_view (rr_flush issu (unwrap_or (rr_revoked_list s issu) []) s) = rr_view s"
  by (auto simp: rr_view_def rr_flush_def rr_list_revoked_for_issuer_def fun_eq_iff)

lemma rr_batch_revoke_Ok:
  assumes "rr_batch_revoke e issu hs s = Ok s'"
  shows "\<not> rr_is_paused s \<and> authorized e issu \<and> length hs \<le> unat (rr_get_batch_limit s)
     \<and> rr_claimable_all issu hs s
     \<and> rr_view s' = rr_view (fold (rr_recorded issu) hs s)
     \<and> rr_lock s' = rr_lock s \<and> rr_batch_limit s' = rr_batch_limit s \<and> rr_admin s' = rr_admin s
     \<and> rr_pending_admin s' = rr_pending_admin s"
proof -
  let ?xs = "unwrap_or (rr_revoked_list s issu) []"
  have g: "\<not> rr_is_paused s" "authorized e issu" "length hs \<le> unat (rr_get_batch_limit s)"
    using assms by (auto simp: rr_batch_revoke_def rr_ensure_not_paused_def rr_is_paused_def
        rr_get_batch_limit_def split: if_splits)
  then obtain t xs m where loop: "rr_batch_loop issu hs s ?xs False = Ok (t, xs, m)"
    and s': "s' = rr_publish (BatchRev issu (length hs)) (if m then rr_flush issu xs t else t)"
    using assms by (auto simp: rr_batch_revoke_def rr_flush_def split: if_splits)
  note l = rr_batch_loop_Ok [OF loop]
  have fl: "rr_view (if m then rr_flush issu xs t else t) = rr_view (rr_flush issu xs t)"
    using l rr_flush_same_view [of issu t] by auto
  have "rr_view s' = rr_view (fold (rr_recorded issu) hs s)"
    using l fl rr_fold_recorded_cong [OF rr_flush_same_view, of issu hs issu s] s' by simp
  moreover have "rr_claimable_all issu hs s"
    using l rr_claimable_all_cong [OF rr_flush_same_view, of issu hs issu s] by simp
  moreover have "rr_lock s' = rr_lock s \<and> rr_batch_limit s' = rr_batch_limit s
      \<and> rr_admin s' = rr_admin s \<and> rr_pending_admin s' = rr_pending_admin s"
    using l s' by (simp add: rr_publish_def rr_flush_def)
  ultimately show ?thesis using g by blast
qed

lemma rr_batch_revoke_total:
  assumes "\<not> rr_is_paused s" and "authorized e issu" and "length hs \<le> unat (rr_get_batch_limit s)"
    and "rr_claimable_all issu hs s"
  shows "is_ok (rr_batch_revoke e issu hs s)"
proof -
  let ?xs = "unwrap_or (rr_revoked_list s issu) []"
  have "rr_claimable_all issu hs (rr_flush issu ?xs s)"
    using assms(4) rr_claimable_all_cong [OF rr_flush_same_view, of issu hs issu s] by simp
  then obtain s' xs' m' where "rr_batch_loop issu hs s ?xs False = Ok (s', xs', m')"
    using rr_batch_loop_total by blast
  with assms show ?thesis
    by (auto simp: rr_batch_revoke_def rr_ensure_not_paused_def rr_is_paused_def
        rr_get_batch_limit_def)
qed

section \<open>The registry invariant\<close>

text \<open>
  Status, registered issuer and recorded issuer agree, every issuer's list holds
  exactly the hashes it revoked, once each; the lock is free between transactions
  and an initialised registry has a batch limit between one and the hard cap.
\<close>

definition rr_records_ok :: "rr_state \<Rightarrow> bool" where
  "rr_records_ok s \<longleftrightarrow>
     rr_issuer_of s = rr_registered_issuer s
     \<and> (\<forall>h. rr_status s h = (if rr_registered_issuer s h = None then None else Some True))
     \<and> (\<forall>i. distinct (rr_list_revoked_for_issuer s i))
     \<and> (\<forall>i h. h \<in> set (rr_list_revoked_for_issuer s i) \<longleftrightarrow> rr_registered_issuer s h = Some i)"

definition rr_limit_ok :: "rr_state \<Rightarrow> bool" where
  "rr_limit_ok s \<longleftrightarrow>
     (rr_admin s \<noteq> None \<longrightarrow>
        (\<exists>l. rr_batch_limit s = Some l \<and> 1 \<le> unat l \<and> unat l \<le> 100))
     \<and> (rr_admin s = None \<longrightarrow> rr_pending_admin s = None)"

definition rr_inv :: "rr_state \<Rightarrow> bool" where
  "rr_inv s \<longleftrightarrow> rr_lock s = None \<and> rr_records_ok s \<and> rr_limit_ok s"

lemma rr_records_ok_cong: "rr_view s = rr_view t \<Longrightarrow> rr_records_ok s = rr_records_ok t"
  by (simp add: rr_view_def rr_records_ok_def)

lemma rr_recorded_records_ok:
  assumes "rr_records_ok s" and "rr_claimable issu s h"
  shows "rr_records_ok (rr_recorded issu h s)"
proof -
  have mem: "h' \<in> set (rr_list_revoked_for_issuer s i) \<longleftrightarrow> rr_registered_issuer s h' = Some i" for h' i
    using assms(1) by (simp add: rr_records_ok_def)
  have "distinct (rr_list_revoked_for_issuer (rr_recorded issu h s) i)" for i
    using assms(1) by (auto simp: rr_recorded_fields rr_records_ok_def Let_def)
  moreover have "h' \<in> set (rr_list_revoked_for_issuer (rr_recorded issu h s) i)
      \<longleftrightarrow> rr_registered_issuer (rr_recorded issu h s) h' = Some i" for h' i
    using assms(2) by (auto simp: rr_recorded_fields Let_def mem rr_claimable_def)
  moreover have "rr_issuer_of (rr_recorded issu h s) = rr_registered_issuer (rr_recorded issu h s)
     \<and> (\<forall>h'. rr_status (rr_recorded issu h s) h'
            = (if rr_registered_issuer (rr_recorded issu h s) h' = None then None else Some True))"
    using assms(1) by (auto simp: rr_recorded_fields rr_records_ok_def)
  ultimately show ?thesis by (simp add: rr_records_ok_def)
qed

lemma rr_fold_records_ok:
  "rr_records_ok s \<Longrightarrow> rr_claimable_all issu hs s \<Longrightarrow> rr_records_ok (fold (rr_recorded issu) hs s)"
  by (induction hs arbitrary: s) (simp_all add: rr_recorded_records_ok)

lemma rr_new_inv: "rr_inv rr_new"
  by (simp add: rr_inv_def rr_records_ok_def rr_limit_ok_def rr_new_def
      rr_list_revoked_for_issuer_def)

lemmas rr_admin_defs =
  rr_initialize_def rr_pause_def rr_unpause_def rr_set_batch_limit_def rr_set_identity_oracle_def
  rr_propose_new_admin_def rr_accept_admin_def rr_maintain_storage_def rr_upgrade_def
  rr_require_admin_def rr_ensure_not_paused_def rr_publish_def

text \<open>An administrative call leaves the revocation records and the lock alone.\<close>

fun rr_is_revocation :: "rr_call \<Rightarrow> bool" where
  "rr_is_revocation (RrRevokeCall _ _ _) = True"
| "rr_is_revocation (RrBatchRevokeCall _ _) = True"
| "rr_is_revocation _ = False"

lemma rr_admin_call_frame:
  assumes "rr_exec e mark c (s, w) = Ok (s', w')" and "\<not> rr_is_revocation c"
  shows "rr_view s' = rr_view s \<and> rr_lock s' = rr_lock s \<and> w' = w"
  using assms
  by (cases c) (auto simp: rr_local_def rr_admin_defs rr_view_def rr_list_revoked_for_issuer_def
      fun_eq_iff split: option.splits if_splits)

lemma rr_limit_word: "lim \<noteq> 0 \<Longrightarrow> \<not> MAX_BATCH_SIZE < lim \<Longrightarrow> 1 \<le> unat lim \<and> unat lim \<le> 100"
  by (auto simp: MAX_BATCH_SIZE_def word_less_nat_alt unat_eq_0 Suc_le_eq word_gt_0 unat_gt_0)

lemma rr_admin_call_limit:
  assumes "rr_exec e mark c (s, w) = Ok (s', w')" and "\<not> rr_is_revocation c" and "rr_limit_ok s"
  shows "rr_limit_ok s'"
  using assms
  by (cases c) (auto simp: rr_local_def rr_admin_defs rr_limit_ok_def MAX_BATCH_SIZE_def
      dest: rr_limit_word [unfolded MAX_BATCH_SIZE_def] split: option.splits if_splits)

lemma rr_exec_inv:
  assumes "rr_exec e mark c (s, w) = Ok (s', w')" and "rr_inv s"
  shows "rr_inv s'"
proof (cases "rr_is_revocation c")
  case False
  then show ?thesis
    using assms rr_admin_call_frame [OF assms(1)] rr_admin_call_limit [OF assms(1)]
      rr_records_ok_cong [of s' s] by (auto simp: rr_inv_def)
next
  case True
  then show ?thesis
  proof (cases c)
    case (RrRevokeCall i subj h)
    then have "rr_claimable i s h" "s' = rr_publish (Revoked i h) (rr_recorded i h s)"
      using assms(1) by (simp_all add: rr_revoke_Ok)
    then show ?thesis
      using assms(2) rr_recorded_records_ok rr_records_ok_cong [OF rr_view_publish]
      by (auto simp: rr_inv_def rr_limit_ok_def rr_publish_def rr_recorded_fields)
  next
    case (RrBatchRevokeCall i hs)
    then have "rr_batch_revoke e i hs s = Ok s'"
      using assms(1) by (auto simp: rr_local_def)
    then show ?thesis
      using rr_batch_revoke_Ok [of e i hs s s'] assms(2) rr_fold_records_ok [of s i hs]
        rr_records_ok_cong [of s' "fold (rr_recorded i) hs s"]
      by (auto simp: rr_inv_def rr_limit_ok_def)
  qed simp_all
qed

lemma rr_reachable_inv_pair: "rr_reachable sw \<Longrightarrow> rr_inv (fst sw)"
proof (induction rule: rr_reachable.induct)
  case (rr_start w)
  show ?case by (simp add: rr_new_inv)
next
  case (rr_step sw e mark c sw')
  then show ?case
    using rr_exec_inv [of e mark c "fst sw" "snd sw" "fst sw'" "snd sw'"] by simp
qed

text \<open>A revocation, once recorded, keeps its status and its issuer.\<close>

lemma rr_recorded_keeps:
  "rr_registered_issuer s h = Some i \<Longrightarrow> rr_claimable issu s h' \<Longrightarrow>
     rr_registered_issuer (rr_recorded issu h' s) h = Some i"
  by (auto simp: rr_recorded_fields rr_claimable_def)

lemma rr_fold_keeps:
  "rr_registered_issuer s h = Some i \<Longrightarrow> rr_claimable_all issu hs s \<Longrightarrow>
     rr_registered_issuer (fold (rr_recorded issu) hs s) h = Some i"
  by (induction hs arbitrary: s) (simp_all add: rr_recorded_keeps)

lemma rr_exec_keeps_issuer:
  assumes "rr_exec e mark c (s, w) = Ok (s', w')" and "rr_registered_issuer s h = Some i"
  shows "rr_registered_issuer s' h = Some i"
proof (cases "rr_is_revocation c")
  case False
  then show ?thesis
    using rr_admin_call_frame [OF assms(1)] assms(2) by (auto simp: rr_view_def)
next
  case True
  then show ?thesis
  proof (cases c)
    case (RrRevokeCall i' subj h')
    then show ?thesis
      using assms rr_recorded_keeps [of s h i i' h'] by (simp add: rr_revoke_Ok rr_publish_def)
  next
    case (RrBatchRevokeCall i' hs)
    then have "rr_batch_revoke e i' hs s = Ok s'"
      using assms(1) by (auto simp: rr_local_def)
    then show ?thesis
      using rr_batch_revoke_Ok [of e i' hs s s'] rr_fold_keeps [OF assms(2), of i' hs]
      by (auto simp: rr_view_def)
  qed simp_all
qed

section \<open>The shared contracts, interpreted\<close>

interpretation rr_handover: admin_handover rr_admin rr_pending_admin rr_propose_new_admin rr_accept_admin
  by unfold_locales (auto simp: rr_admin_defs split: option.splits if_splits)

interpretation rr_init: one_shot_init rr_admin rr_initialize
  by unfold_locales (auto simp: rr_admin_defs split: if_splits)

text \<open>The calls that check the pause flag before anything else.\<close>

fun rr_pause_guarded :: "rr_call \<Rightarrow> bool" where
  "rr_pause_guarded (RrInitializeCall _) = False"
| "rr_pause_guarded RrPauseCall = False"
| "rr_pause_guarded RrUnpauseCall = False"
| "rr_pause_guarded (RrProposeAdminCall _) = False"
| "rr_pause_guarded _ = True"

lemma rr_paused_blocks:
  "rr_is_paused s \<Longrightarrow> rr_pause_guarded c \<Longrightarrow> rr_exec e mark c (s, w) = Err RrContractPaused"
  by (cases c) (auto simp: rr_local_def rr_admin_defs rr_is_paused_def rr_revoke_def
      rr_batch_revoke_def)

interpretation rr_switch: pause_switch rr_is_paused rr_pause rr_unpause rr_pause_guarded
  "\<lambda>e c s. outcome_bind (rr_exec e mark c (s, w)) (\<lambda>(s', _). Ok s')" for mark w
  by unfold_locales
     (auto simp: rr_admin_defs rr_is_paused_def rr_paused_blocks [unfolded rr_is_paused_def]
      split: option.splits if_splits)

text \<open>The registry deployed at \<open>rid\<close> answers the identity-oracle's queries.\<close>

definition rr_query :: "address \<Rightarrow> rr_state \<Rightarrow> address \<Rightarrow> vc_hash \<Rightarrow> bool option" where
  "rr_query rid s a h = (if a = rid then Some (rr_is_revoked s h) else None)"

interpretation rr_source: revocation_source "rr_query rid s" "\<lambda>a. a = rid" for rid s
  by unfold_locales (simp add: rr_query_def)

section \<open>Properties\<close>

lemma rr_inv_fields:
  assumes "rr_inv s"
  shows "rr_is_revoked s h \<longleftrightarrow> rr_registered_issuer s h \<noteq> None"
    and "rr_get_revocation_record s h = rr_registered_issuer s h"
    and "h \<in> set (rr_list_revoked_for_issuer s i) \<longleftrightarrow> rr_registered_issuer s h = Some i"
  using assms by (auto simp: rr_inv_def rr_records_ok_def rr_is_revoked_def
      rr_get_revocation_record_def)

text \<open>C7: In every reachable state of the registry the revocation status, the recorded issuer and
  the per-issuer lists agree (each list holds exactly the hashes its issuer revoked, once each),
  the reentrancy lock is free between transactions and the batch limit of an initialised
  registry lies between 1 and 100.\<close>

theorem rr_state_invariant:
  assumes "rr_reachable (s, w)"
  shows "rr_lock s = None
    \<and> (\<forall>h. rr_is_revoked s h \<longleftrightarrow> rr_get_revocation_record s h \<noteq> None)
    \<and> (\<forall>i. distinct (rr_list_revoked_for_issuer s i))
    \<and> (\<forall>i h. h \<in> set (rr_list_revoked_for_issuer s i) \<longleftrightarrow> rr_get_revocation_record s h = Some i)
    \<and> (rr_admin s \<noteq> None \<longrightarrow> 1 \<le> unat (rr_get_batch_limit s) \<and> unat (rr_get_batch_limit s) \<le> 100)"
proof -
  have inv: "rr_inv s"
    using rr_reachable_inv_pair [OF assms] by simp
  then have "rr_admin s \<noteq> None \<longrightarrow>
      1 \<le> unat (rr_get_batch_limit s) \<and> unat (rr_get_batch_limit s) \<le> 100"
    by (auto simp: rr_inv_def rr_limit_ok_def rr_get_batch_limit_def)
  moreover have "distinct (rr_list_revoked_for_issuer s i)" for i
    using inv by (simp add: rr_inv_def rr_records_ok_def)
  moreover have "rr_lock s = None" using inv by (simp add: rr_inv_def)
  ultimately show ?thesis
    using rr_inv_fields [OF inv] by simp
qed

text \<open>A concrete environment and a concrete run, shared by the witnesses.\<close>

definition rr_demo_env :: env where
  "rr_demo_env = \<lparr>ledger_sequence = 1000, ledger_timestamp = 5000, signers = {''admin'', ''issuer''},
     invoker = None, current_contract = ''registry'', call_stack = []\<rparr>"

definition rr_demo_mark :: "unit mark_call" where
  "rr_demo_mark e oid i subj h w = Some w"

definition rr_demo_state :: rr_state where
  "rr_demo_state = rr_new\<lparr>rr_admin := Some ''admin'', rr_batch_limit := Some 100,
     rr_registered_issuer := [[7] \<mapsto> ''issuer''], rr_status := [[7] \<mapsto> True],
     rr_issuer_of := [[7] \<mapsto> ''issuer''], rr_revoked_list := [''issuer'' \<mapsto> [[7]]],
     rr_events := [RrInitialized ''admin'', Revoked ''issuer'' [7]]\<rparr>"

lemmas rr_demo_defs = rr_demo_env_def rr_demo_mark_def rr_demo_state_def rr_new_def

lemma rr_demo_reachable: "rr_reachable (rr_demo_state, ())"
proof -
  let ?s = "rr_new\<lparr>rr_admin := Some ''admin'', rr_batch_limit := Some 100,
              rr_events := [RrInitialized ''admin'']\<rparr>"
  have "rr_exec rr_demo_env rr_demo_mark (RrInitializeCall ''admin'') (rr_new, ()) = Ok (?s, ())"
    by (simp add: rr_local_def rr_initialize_def rr_demo_defs authorized_def rr_publish_def
        MAX_BATCH_SIZE_def)
  then have "rr_reachable (?s, ())" by (rule rr_step [OF rr_start])
  moreover have "rr_exec rr_demo_env rr_demo_mark (RrRevokeCall ''issuer'' ''bob'' [7]) (?s, ())
      = Ok (rr_demo_state, ())"
    by (simp add: rr_revoke_Ok rr_demo_defs authorized_def rr_is_paused_def rr_claimable_def
        rr_recorded_def rr_append_revoked_def rr_mark_def rr_publish_def)
  ultimately show ?thesis by (rule rr_step)
qed

theorem rr_state_invariant_witness:
  "rr_is_revoked rr_demo_state [7] \<longleftrightarrow> rr_get_revocation_record rr_demo_state [7] \<noteq> None"
  using rr_state_invariant [OF rr_demo_reachable] by blast

text \<open>C18: A revocation is permanent: no successful call of the registry's interface, in any
  environment, clears the status of a revoked hash or changes the issuer recorded for it.\<close>

theorem rr_revocation_permanent:
  assumes "rr_reachable (s, w)" and "rr_is_revoked s h" and "rr_exec e mark c (s, w) = Ok (s', w')"
  shows "rr_is_revoked s' h \<and> rr_get_revocation_record s' h = rr_get_revocation_record s h"
proof -
  have inv: "rr_inv s" using rr_reachable_inv_pair [OF assms(1)] by simp
  have inv': "rr_inv s'" using rr_exec_inv [OF assms(3) inv] .
  obtain i where i: "rr_registered_issuer s h = Some i"
    using assms(2) rr_inv_fields(1) [OF inv] by auto
  then have "rr_registered_issuer s' h = Some i" by (rule rr_exec_keeps_issuer [OF assms(3)])
  then show ?thesis
    using i rr_inv_fields(1,2) [OF inv] rr_inv_fields(1,2) [OF inv'] by simp
qed

theorem rr_revocation_permanent_witness:
  "rr_is_revoked (rr_publish RrPaused (rr_demo_state\<lparr>rr_paused := Some True\<rparr>)) [7]"
proof -
  have "rr_exec rr_demo_env rr_demo_mark RrPauseCall (rr_demo_state, ())
      = Ok (rr_publish RrPaused (rr_demo_state\<lparr>rr_paused := Some True\<rparr>), ())"
    by (simp add: rr_local_def rr_pause_def rr_require_admin_def rr_demo_defs authorized_def)
  moreover have "rr_is_revoked rr_demo_state [7]"
    by (simp add: rr_is_revoked_def rr_demo_defs)
  ultimately show ?thesis
    using rr_revocation_permanent [OF rr_demo_reachable] by blast
qed

text \<open>Revoking the hashes one call at a time.\<close>

fun rr_revoke_each ::
  "env \<Rightarrow> 'w mark_call \<Rightarrow> address \<Rightarrow> address \<Rightarrow> vc_hash list \<Rightarrow> rr_state \<times> 'w
     \<Rightarrow> (rr_error, rr_state \<times> 'w) outcome" where
  "rr_revoke_each e mark issu subj [] sw = Ok sw"
| "rr_revoke_each e mark issu subj (h # hs) sw =
     outcome_bind (rr_revoke e mark issu subj h sw) (rr_revoke_each e mark issu subj hs)"

lemma rr_view_publish_recorded:
  "rr_view (rr_publish ev (rr_recorded i h s)) = rr_view (rr_recorded i h s)"
  by (rule rr_view_publish)

text \<open>What single revocations of the hashes do besides: one mark in the linked identity-oracle for each.\<close>

fun rr_mark_each ::
  "env \<Rightarrow> 'w mark_call \<Rightarrow> address option \<Rightarrow> address \<Rightarrow> address \<Rightarrow> vc_hash list \<Rightarrow> 'w \<Rightarrow> 'w option" where
  "rr_mark_each e mark None issu subj hs w = Some w"
| "rr_mark_each e mark (Some oid) issu subj [] w = Some w"
| "rr_mark_each e mark (Some oid) issu subj (h # hs) w =
     Option.bind (mark (call_env e oid) oid issu subj h w) (rr_mark_each e mark (Some oid) issu subj hs)"

lemma rr_revoke_each_Ok:
  "\<not> rr_is_paused s \<Longrightarrow> authorized e issu \<Longrightarrow> rr_lock s = None \<Longrightarrow>
     ((\<exists>t. rr_revoke_each e mark issu subj hs (s, w) = Ok (t, w')) \<longleftrightarrow>
        rr_claimable_all issu hs s \<and> rr_mark_each e mark (rr_identity_oracle_id s) issu subj hs w = Some w')
     \<and> (\<forall>t. rr_revoke_each e mark issu subj hs (s, w) = Ok (t, w') \<longrightarrow>
           rr_view t = rr_view (fold (rr_recorded issu) hs s))"
proof (induction hs arbitrary: s w)
  case Nil
  then show ?case by (cases "rr_identity_oracle_id s") auto
next
  case (Cons h hs)
  let ?s1 = "rr_publish (Revoked issu h) (rr_recorded issu h s)"
  have s1: "rr_identity_oracle_id ?s1 = rr_identity_oracle_id s" "\<not> rr_is_paused ?s1" "rr_lock ?s1 = None"
    using Cons.prems by (simp_all add: rr_publish_def rr_recorded_fields rr_is_paused_def)
  have one: "rr_revoke e mark issu subj h (s, w) = Ok (t, v) \<longleftrightarrow>
      rr_claimable issu s h \<and> t = ?s1 \<and> rr_mark_each e mark (rr_identity_oracle_id s) issu subj [h] w = Some v"
    for t v
    using Cons.prems by (cases "rr_identity_oracle_id s") (auto simp: rr_revoke_Ok Option.bind_eq_Some_conv)
  have step: "rr_mark_each e mark (rr_identity_oracle_id s) issu subj (h # hs) w = Some w' \<longleftrightarrow>
      (\<exists>v. rr_mark_each e mark (rr_identity_oracle_id s) issu subj [h] w = Some v \<and>
           rr_mark_each e mark (rr_identity_oracle_id s) issu subj hs v = Some w')"
    by (cases "rr_identity_oracle_id s") (auto simp: Option.bind_eq_Some_conv)
  have each: "rr_revoke_each e mark issu subj (h # hs) (s, w) = Ok (t, w') \<longleftrightarrow>
      (\<exists>v. rr_claimable issu s h \<and> rr_mark_each e mark (rr_identity_oracle_id s) issu subj [h] w = Some v \<and>
           rr_revoke_each e mark issu subj hs (?s1, v) = Ok (t, w'))" for t
    using one by auto
  show ?case
    using Cons.IH [OF s1(2) Cons.prems(2) s1(3)] unfolding each step s1(1)
      rr_claimable_all_cong [OF rr_view_publish_recorded, of issu hs "Revoked issu h" issu h s]
      rr_fold_recorded_cong [OF rr_view_publish_recorded, of issu hs "Revoked issu h" issu h s]
      rr_claimable_all.simps fold_simps
    by blast
qed

text \<open>C29: A batch within the limit against revoking its hashes one by one, for one subject, on a registry
  whose lock is free, as it is between transactions. In the registry they are the same: when both
  succeed they leave the same issuers, statuses and per-issuer lists. Beyond it they are not: the single
  revocations mark each credential in a linked identity-oracle, in order, and a batch calls
  nothing. So the single ones succeed exactly when the batch does and all the marks do; with no identity-oracle
  linked exactly when the batch does, and then they too change nothing but the registry.\<close>

theorem rr_batch_is_sequence:
  assumes "\<not> rr_is_paused s" and "authorized e issu" and "rr_lock s = None"
    and "length hs \<le> unat (rr_get_batch_limit s)"
  shows "((\<exists>t. rr_revoke_each e mark issu subj hs (s, w) = Ok (t, w')) \<longleftrightarrow>
        is_ok (rr_batch_revoke e issu hs s) \<and>
        rr_mark_each e mark (rr_identity_oracle_id s) issu subj hs w = Some w')
    \<and> (\<forall>s' t. rr_batch_revoke e issu hs s = Ok s' \<and> rr_revoke_each e mark issu subj hs (s, w) = Ok (t, w')
           \<longrightarrow> rr_view s' = rr_view t)
    \<and> (rr_identity_oracle_id s = None \<longrightarrow>
         (is_ok (rr_batch_revoke e issu hs s) \<longleftrightarrow> is_ok (rr_revoke_each e mark issu subj hs (s, w))))"
proof -
  note each = rr_revoke_each_Ok [OF assms(1-3), of mark subj hs w]
  have batch: "is_ok (rr_batch_revoke e issu hs s) \<longleftrightarrow> rr_claimable_all issu hs s"
    using rr_batch_revoke_total [OF assms(1,2,4)] rr_batch_revoke_Ok [of e issu hs s] unfolding is_ok_iff by blast
  have view: "rr_view s' = rr_view t" if b: "rr_batch_revoke e issu hs s = Ok s'"
    and t: "rr_revoke_each e mark issu subj hs (s, w) = Ok (t, w')" for s' t
    using rr_batch_revoke_Ok [OF b] each [of w'] t by metis
  have alone: "is_ok (rr_revoke_each e mark issu subj hs (s, w)) \<longleftrightarrow> rr_claimable_all issu hs s"
    if "rr_identity_oracle_id s = None"
    using each that unfolding is_ok_iff by (metis option.inject rr_mark_each.simps(1) surj_pair)
  show ?thesis unfolding batch using each [of w'] view alone by blast
qed

theorem rr_batch_is_sequence_witness:
  "is_ok (rr_batch_revoke rr_demo_env ''issuer'' [[7], [8]] rr_demo_state)
   \<longleftrightarrow> is_ok (rr_revoke_each rr_demo_env rr_demo_mark ''issuer'' ''bob'' [[7], [8]] (rr_demo_state, ()))"
  by (rule rr_batch_is_sequence [THEN conjunct2, THEN conjunct2, rule_format])
     (simp_all add: rr_demo_defs authorized_def rr_is_paused_def rr_get_batch_limit_def)

lemma rr_claimable_all_member:
  "rr_claimable_all issu hs s \<Longrightarrow> h \<in> set hs \<Longrightarrow> rr_claimable issu s h"
proof (induction hs arbitrary: s)
  case (Cons a hs)
  then show ?case
    by (cases "h = a") (fastforce simp: rr_claimable_def rr_recorded_fields)+
qed simp

text \<open>A hash belongs to the first issuer that revoked it: while it is registered to another
  issuer, \<open>revoke\<close> returns \<open>IssuerMismatch\<close>, and a batch that contains it fails as a whole.\<close>

theorem rr_foreign_hash_rejected:
  assumes "rr_registered_issuer s h = Some owner" and "owner \<noteq> issu"
    and "\<not> rr_is_paused s" and "authorized e issu"
  shows "rr_revoke e mark issu subj h (s, w) = Err IssuerMismatch
    \<and> (h \<in> set hs \<longrightarrow> \<not> is_ok (rr_batch_revoke e issu hs s))"
proof
  have n: "\<not> rr_claimable issu s h"
    using assms(1,2) by (simp add: rr_claimable_def)
  then have "rr_claim issu h s = Err IssuerMismatch" by (simp add: rr_claim_Err)
  then show "rr_revoke e mark issu subj h (s, w) = Err IssuerMismatch"
    using assms(3,4) by (simp add: rr_revoke_def rr_ensure_not_paused_def rr_is_paused_def)
  show "h \<in> set hs \<longrightarrow> \<not> is_ok (rr_batch_revoke e issu hs s)"
    unfolding is_ok_iff using n rr_claimable_all_member rr_batch_revoke_Ok by blast
qed

theorem rr_foreign_hash_rejected_witness:
  "rr_revoke rr_demo_env rr_demo_mark ''admin'' ''bob'' [7] (rr_demo_state, ()) = Err IssuerMismatch
   \<and> \<not> is_ok (rr_batch_revoke rr_demo_env ''admin'' [[8], [7]] rr_demo_state)"
  using rr_foreign_hash_rejected [of rr_demo_state "[7]" "''issuer''" "''admin''" rr_demo_env
      rr_demo_mark "''bob''" "()" "[[8], [7]]"]
  by (simp add: rr_demo_defs authorized_def rr_is_paused_def)

lemma map_nth_upt: "b \<le> length xs \<Longrightarrow> map (\<lambda>i. xs ! i) [a..<b] = drop a (take b xs)"
  by (rule nth_equalityI) auto

text \<open>C30: The pages of \<open>list_revoked\<close>, on every branch: empty past the end or for a zero limit, a
  panic when \<open>cursor + limit\<close> overflows 32 bits although the cursor is inside the list, and
  otherwise exactly the next \<open>limit\<close> hashes of the issuer's list.\<close>

theorem rr_list_revoked_pages:
  "rr_list_revoked s issu cursor lim =
     (if length (rr_list_revoked_for_issuer s issu) \<le> unat cursor \<or> lim = 0 then Some []
      else if 2 ^ 32 \<le> unat cursor + unat lim then None
      else Some (take (unat lim) (drop (unat cursor) (rr_list_revoked_for_issuer s issu))))"
proof -
  let ?xs = "unwrap_or (rr_revoked_list s issu) []"
  have add: "unat (cursor + lim) = unat cursor + unat lim" if "unat cursor + unat lim < 2 ^ 32"
    using that by (simp add: unat_word_ariths)
  have "map (\<lambda>i. ?xs ! i) [unat cursor..<min k (length ?xs)] = drop (unat cursor) (take k ?xs)" for k
    by (simp add: map_nth_upt take_map min_def)
  then show ?thesis
    by (auto simp: rr_list_revoked_def rr_list_revoked_for_issuer_def Let_def checked_add_def add
        drop_take)
qed

end
