(* ===== verification/Identity_Oracle.thy ===== *)
theory Identity_Oracle
  imports Interfaces Shared_Types Revocation_Registry
begin

text \<open>
  \<open>contracts/identity-oracle/src/lib.rs\<close>. The state has one field per \<open>DataKey\<close> variant.
  The calls to the linked revocation-registry are parameters: \<open>rq\<close> answers
  \<open>is_revoked\<close> (\<open>None\<close> when the call fails) and \<open>link\<close> is \<open>set_identity_oracle\<close> on the
  registry, on the state \<open>'w\<close> of the other contracts. A query that makes such a call
  returns an option, \<open>None\<close> being the trap.
\<close>

section \<open>State\<close>

datatype io_error =
    IoAlreadyInitialized | IoNotAuthorized | IssuerNotRegistered | InvalidCID | IoNoPendingAdmin
  | DuplicateVC | VCNotFound | IoContractPaused | InvalidRevocationRegistry | VCLimitReached
  | InvalidIssuerTier

datatype io_event =
    IoInitialized address | IoPaused | IoUnpaused | IssReg address | IssDeReg address
  | DIDAnch address string | DIDDeact address | VCAnch address address vc_hash
  | IdDeact address u32 | IdReact address | IssTier address u32

record io_protocol_stats =
  total_dids_anchored :: u64
  total_vcs_anchored :: u64
  total_vcs_revoked :: u64

record io_state =
  io_admin :: "address option"
  io_paused :: "bool option"
  io_pending_admin :: "address option"
  io_storage_version :: "u32 option"
  io_issuers_index :: "address list option"
  io_trusted_issuer :: "address \<rightharpoonup> bool"
  io_did_document :: "address \<rightharpoonup> string"
  io_vc_anchors :: "address \<rightharpoonup> identity_vc_record list"
  io_active_vc_count :: "address \<rightharpoonup> u32"
  io_registry_id :: "address option"
  io_issuer_tier :: "address \<rightharpoonup> u32"
  io_vc_credential_type :: "address \<times> vc_hash \<rightharpoonup> symbol"
  io_stats :: "io_protocol_stats option"
  io_deactivated :: "address \<rightharpoonup> bool"
  io_last_state_change :: "address \<rightharpoonup> u32"
  io_wasm :: "bytes option"
  io_events :: "io_event list"

definition io_new :: io_state where
  "io_new = \<lparr>io_admin = None, io_paused = None, io_pending_admin = None, io_storage_version = None,
     io_issuers_index = None, io_trusted_issuer = Map.empty, io_did_document = Map.empty,
     io_vc_anchors = Map.empty, io_active_vc_count = Map.empty, io_registry_id = None,
     io_issuer_tier = Map.empty, io_vc_credential_type = Map.empty, io_stats = None,
     io_deactivated = Map.empty, io_last_state_change = Map.empty, io_wasm = None, io_events = []\<rparr>"

definition MAX_VCS_PER_SUBJECT :: nat where "MAX_VCS_PER_SUBJECT = 100"
definition DEFAULT_ISSUER_TIER_BPS :: u32 where "DEFAULT_ISSUER_TIER_BPS = 100"
definition MAX_ISSUER_TIER_BPS :: u32 where "MAX_ISSUER_TIER_BPS = 300"
definition MAX_CID_LENGTH :: nat where "MAX_CID_LENGTH = 128"

type_synonym registry_query = "address \<Rightarrow> vc_hash \<Rightarrow> bool option"
type_synonym 'w link_call = "env \<Rightarrow> address \<Rightarrow> address \<Rightarrow> 'w \<Rightarrow> 'w option"

definition io_publish :: "io_event \<Rightarrow> io_state \<Rightarrow> io_state" where
  "io_publish ev s = s\<lparr>io_events := io_events s @ [ev]\<rparr>"

section \<open>Guards and helpers\<close>

definition io_require_admin :: "env \<Rightarrow> io_state \<Rightarrow> (io_error, address) outcome" where
  "io_require_admin e s =
     (case io_admin s of None \<Rightarrow> Trap | Some a \<Rightarrow> if authorized e a then Ok a else Trap)"

definition io_ensure_not_paused :: "io_state \<Rightarrow> (io_error, unit) outcome" where
  "io_ensure_not_paused s = (if unwrap_or (io_paused s) False then Err IoContractPaused else Ok ())"

definition validate_revocation_registry_ref :: "registry_query \<Rightarrow> address \<Rightarrow> bool" where
  "validate_revocation_registry_ref rq registry = (rq registry (replicate 32 0) \<noteq> None)"

definition generic_credential_type :: credential_type where
  "generic_credential_type = ''generic''"

definition get_stored_credential_type :: "io_state \<Rightarrow> address \<Rightarrow> vc_hash \<Rightarrow> credential_type" where
  "get_stored_credential_type s subject h =
     unwrap_or (io_vc_credential_type s (subject, h)) generic_credential_type"

definition store_credential_type ::
  "address \<Rightarrow> vc_hash \<Rightarrow> credential_type \<Rightarrow> io_state \<Rightarrow> io_state" where
  "store_credential_type subject h ty s =
     s\<lparr>io_vc_credential_type := (io_vc_credential_type s)((subject, h) \<mapsto> ty)\<rparr>"

text \<open>
  \<open>cid_starts_with\<close> copies both strings into 128-byte buffers; a longer string makes the
  slice go out of range, which panics (\<open>None\<close>).
\<close>

definition cid_starts_with :: "string \<Rightarrow> string \<Rightarrow> bool option" where
  "cid_starts_with s prefix =
     (if length s < length prefix then Some False
      else if MAX_CID_LENGTH < length s \<or> MAX_CID_LENGTH < length prefix then None
      else Some (take (length prefix) s = prefix))"

definition io_default_stats :: io_protocol_stats where
  "io_default_stats = \<lparr>total_dids_anchored = 0, total_vcs_anchored = 0, total_vcs_revoked = 0\<rparr>"

definition io_load_protocol_stats :: "io_state \<Rightarrow> io_protocol_stats" where
  "io_load_protocol_stats s = unwrap_or (io_stats s) io_default_stats"

definition io_save_protocol_stats :: "io_protocol_stats \<Rightarrow> io_state \<Rightarrow> io_state" where
  "io_save_protocol_stats st s = s\<lparr>io_stats := Some st\<rparr>"

definition increment_dids_anchored :: "io_state \<Rightarrow> io_state option" where
  "increment_dids_anchored s =
     (let st = io_load_protocol_stats s
      in map_option (\<lambda>n. io_save_protocol_stats (st\<lparr>total_dids_anchored := n\<rparr>) s)
           (checked_add (total_dids_anchored st) 1))"

definition increment_vcs_anchored :: "io_state \<Rightarrow> io_state option" where
  "increment_vcs_anchored s =
     (let st = io_load_protocol_stats s
      in map_option (\<lambda>n. io_save_protocol_stats (st\<lparr>total_vcs_anchored := n\<rparr>) s)
           (checked_add (total_vcs_anchored st) 1))"

definition increment_vcs_revoked :: "u64 \<Rightarrow> io_state \<Rightarrow> io_state option" where
  "increment_vcs_revoked count s =
     (let st = io_load_protocol_stats s
      in map_option (\<lambda>n. io_save_protocol_stats (st\<lparr>total_vcs_revoked := n\<rparr>) s)
           (checked_add (total_vcs_revoked st) count))"

definition is_record_revoked :: "registry_query \<Rightarrow> io_state \<Rightarrow> identity_vc_record \<Rightarrow> bool option" where
  "is_record_revoked rq s r =
     (if revoked r then Some True
      else case io_registry_id s of
             None \<Rightarrow> Some False
           | Some registry \<Rightarrow> rq registry (vc_hash_of r))"

definition io_anchors :: "io_state \<Rightarrow> address \<Rightarrow> identity_vc_record list" where
  "io_anchors s subject = unwrap_or (io_vc_anchors s subject) []"

fun count_active :: "registry_query \<Rightarrow> io_state \<Rightarrow> identity_vc_record list \<Rightarrow> u32 \<Rightarrow> u32 option" where
  "count_active rq s [] count = Some count"
| "count_active rq s (r # rs) count =
     (case is_record_revoked rq s r of
        None \<Rightarrow> None
      | Some True \<Rightarrow> count_active rq s rs count
      | Some False \<Rightarrow>
          (case checked_add count 1 of
             None \<Rightarrow> None
           | Some count' \<Rightarrow> count_active rq s rs count'))"

definition compute_active_vc_count :: "registry_query \<Rightarrow> io_state \<Rightarrow> address \<Rightarrow> u32 option" where
  "compute_active_vc_count rq s subject = count_active rq s (io_anchors s subject) 0"

definition seed_active_vc_count :: "registry_query \<Rightarrow> address \<Rightarrow> io_state \<Rightarrow> (u32 \<times> io_state) option" where
  "seed_active_vc_count rq subject s =
     map_option (\<lambda>count. (count, s\<lparr>io_active_vc_count := (io_active_vc_count s)(subject \<mapsto> count)\<rparr>))
       (compute_active_vc_count rq s subject)"

definition load_active_vc_count :: "io_state \<Rightarrow> address \<Rightarrow> u32 option" where
  "load_active_vc_count s subject = io_active_vc_count s subject"

definition record_last_state_change :: "env \<Rightarrow> address \<Rightarrow> io_state \<Rightarrow> io_state" where
  "record_last_state_change e subject s =
     s\<lparr>io_last_state_change := (io_last_state_change s)(subject \<mapsto> ledger_sequence e)\<rparr>"

fun deactivate_loop ::
  "identity_vc_record list \<Rightarrow> identity_vc_record list \<Rightarrow> u32 \<Rightarrow> (identity_vc_record list \<times> u32) option"
  where
  "deactivate_loop [] updated count = Some (updated, count)"
| "deactivate_loop (r # rs) updated count =
     (if \<not> revoked r
      then (case checked_add count 1 of
              None \<Rightarrow> None
            | Some count' \<Rightarrow> deactivate_loop rs (updated @ [r\<lparr>revoked := True\<rparr>]) count')
      else deactivate_loop rs (updated @ [r\<lparr>revoked := True\<rparr>]) count)"

definition deactivate_core :: "env \<Rightarrow> address \<Rightarrow> io_state \<Rightarrow> (u32 \<times> io_state) option" where
  "deactivate_core e subject s =
     (let s1 = s\<lparr>io_deactivated := (io_deactivated s)(subject \<mapsto> True)\<rparr>;
          anchors = io_anchors s1 subject
      in case deactivate_loop anchors [] 0 of
           None \<Rightarrow> None
         | Some (updated, revoked_count) \<Rightarrow>
             let s2 = (if anchors \<noteq> []
                       then s1\<lparr>io_vc_anchors := (io_vc_anchors s1)(subject \<mapsto> updated)\<rparr> else s1)
             in case (if 0 < revoked_count then increment_vcs_revoked (ucast revoked_count) s2
                      else Some s2) of
                  None \<Rightarrow> None
                | Some s3 \<Rightarrow>
                    Some (revoked_count,
                          record_last_state_change e subject
                            (s3\<lparr>io_active_vc_count := (io_active_vc_count s3)(subject \<mapsto> 0)\<rparr>)))"

section \<open>Administration\<close>

definition io_initialize :: "env \<Rightarrow> address \<Rightarrow> io_state \<Rightarrow> (io_error, io_state) outcome" where
  "io_initialize e adm s =
     (if io_admin s \<noteq> None then Err IoAlreadyInitialized
      else if \<not> authorized e adm then Trap
      else Ok (io_publish (IoInitialized adm)
                 (s\<lparr>io_admin := Some adm, io_storage_version := Some 2\<rparr>)))"

definition io_get_admin :: "io_state \<Rightarrow> address option" where
  "io_get_admin s = io_admin s"

definition io_pause :: "env \<Rightarrow> io_state \<Rightarrow> (io_error, io_state) outcome" where
  "io_pause e s =
     outcome_bind (io_require_admin e s) (\<lambda>_. Ok (io_publish IoPaused (s\<lparr>io_paused := Some True\<rparr>)))"

definition io_unpause :: "env \<Rightarrow> io_state \<Rightarrow> (io_error, io_state) outcome" where
  "io_unpause e s =
     outcome_bind (io_require_admin e s) (\<lambda>_. Ok (io_publish IoUnpaused (s\<lparr>io_paused := Some False\<rparr>)))"

definition io_is_paused :: "io_state \<Rightarrow> bool" where
  "io_is_paused s = unwrap_or (io_paused s) False"

definition io_migrate :: "env \<Rightarrow> io_state \<Rightarrow> (io_error, io_state) outcome" where
  "io_migrate e s =
     outcome_bind (io_require_admin e s) (\<lambda>_.
       if 2 \<le> unwrap_or (io_storage_version s) 1 then Ok s
       else Ok (s\<lparr>io_storage_version := Some 2\<rparr>))"

definition io_set_revocation_registry ::
  "env \<Rightarrow> registry_query \<Rightarrow> 'w link_call \<Rightarrow> address \<Rightarrow> io_state \<times> 'w
     \<Rightarrow> (io_error, io_state \<times> 'w) outcome" where
  "io_set_revocation_registry e rq link registry sw =
     (case sw of (s, w) \<Rightarrow>
        outcome_bind (io_ensure_not_paused s) (\<lambda>_.
        outcome_bind (io_require_admin e s) (\<lambda>_.
          if \<not> validate_revocation_registry_ref rq registry then Err InvalidRevocationRegistry
          else case link (call_env e registry) registry (current_contract e) w of
                 Some w' \<Rightarrow> Ok (s\<lparr>io_registry_id := Some registry\<rparr>, w')
               | None \<Rightarrow> Err InvalidRevocationRegistry)))"

definition io_get_revocation_registry :: "io_state \<Rightarrow> address option" where
  "io_get_revocation_registry s = io_registry_id s"

definition io_propose_new_admin :: "env \<Rightarrow> address \<Rightarrow> io_state \<Rightarrow> (io_error, io_state) outcome" where
  "io_propose_new_admin e n s =
     outcome_bind (io_ensure_not_paused s) (\<lambda>_.
     outcome_bind (io_require_admin e s) (\<lambda>_. Ok (s\<lparr>io_pending_admin := Some n\<rparr>)))"

definition io_accept_admin :: "env \<Rightarrow> address \<Rightarrow> io_state \<Rightarrow> (io_error, io_state) outcome" where
  "io_accept_admin e n s =
     outcome_bind (io_ensure_not_paused s) (\<lambda>_.
       case io_pending_admin s of
         Some p \<Rightarrow>
           if p \<noteq> n then Err IoNotAuthorized
           else if \<not> authorized e n then Trap
           else Ok (s\<lparr>io_admin := Some n, io_pending_admin := None\<rparr>)
       | None \<Rightarrow> Err IoNoPendingAdmin)"

definition io_upgrade :: "env \<Rightarrow> bytes \<Rightarrow> io_state \<Rightarrow> (io_error, io_state) outcome" where
  "io_upgrade e h s =
     outcome_bind (io_ensure_not_paused s) (\<lambda>_.
     outcome_bind (io_require_admin e s) (\<lambda>_. Ok (s\<lparr>io_wasm := Some h\<rparr>)))"

definition io_maintain_storage :: "env \<Rightarrow> io_state \<Rightarrow> (io_error, io_state) outcome" where
  "io_maintain_storage e s =
     outcome_bind (io_ensure_not_paused s) (\<lambda>_.
     outcome_bind (io_require_admin e s) (\<lambda>_. Ok s))"

section \<open>Trusted issuers\<close>

definition io_trusted :: "io_state \<Rightarrow> address \<Rightarrow> bool" where
  "io_trusted s a = unwrap_or (io_trusted_issuer s a) False"

definition io_index :: "io_state \<Rightarrow> address list" where
  "io_index s = unwrap_or (io_issuers_index s) []"

definition io_register_issuer :: "env \<Rightarrow> address \<Rightarrow> io_state \<Rightarrow> (io_error, io_state) outcome" where
  "io_register_issuer e issu s =
     outcome_bind (io_require_admin e s) (\<lambda>_.
       let s1 = (if \<not> io_trusted s issu
                 then s\<lparr>io_issuers_index := Some (io_index s @ [issu])\<rparr> else s);
           s2 = s1\<lparr>io_trusted_issuer := (io_trusted_issuer s1)(issu \<mapsto> True)\<rparr>
       in Ok (io_publish (IssReg issu) s2))"

text \<open>
  Deregistration sets the tombstone first and then rebuilds the index from the
  entries whose flag is still set.
\<close>

fun compact_loop :: "io_state \<Rightarrow> address list \<Rightarrow> address list \<Rightarrow> address list" where
  "compact_loop s [] compacted = compacted"
| "compact_loop s (a # as) compacted =
     (if io_trusted s a then compact_loop s as (compacted @ [a]) else compact_loop s as compacted)"

definition io_deregister_issuer :: "env \<Rightarrow> address \<Rightarrow> io_state \<Rightarrow> (io_error, io_state) outcome" where
  "io_deregister_issuer e issu s =
     outcome_bind (io_require_admin e s) (\<lambda>_.
       let s1 = s\<lparr>io_trusted_issuer := (io_trusted_issuer s)(issu \<mapsto> False)\<rparr>;
           s2 = s1\<lparr>io_issuers_index := Some (compact_loop s1 (io_index s1) [])\<rparr>
       in Ok (io_publish (IssDeReg issu) s2))"

definition io_list_issuers :: "io_state \<Rightarrow> address list" where
  "io_list_issuers s = compact_loop s (io_index s) []"

definition io_set_issuer_tier ::
  "env \<Rightarrow> address \<Rightarrow> address \<Rightarrow> u32 \<Rightarrow> io_state \<Rightarrow> (io_error, io_state) outcome" where
  "io_set_issuer_tier e adm issu weight_bps s =
     outcome_bind (io_ensure_not_paused s) (\<lambda>_.
     outcome_bind (io_require_admin e s) (\<lambda>stored.
       if adm \<noteq> stored then Err IoNotAuthorized
       else if weight_bps = 0 \<or> MAX_ISSUER_TIER_BPS < weight_bps then Err InvalidIssuerTier
       else Ok (io_publish (IssTier issu weight_bps)
                  (s\<lparr>io_issuer_tier := (io_issuer_tier s)(issu \<mapsto> weight_bps)\<rparr>))))"

definition io_get_issuer_tier :: "io_state \<Rightarrow> address \<Rightarrow> u32" where
  "io_get_issuer_tier s issu = unwrap_or (io_issuer_tier s issu) DEFAULT_ISSUER_TIER_BPS"

section \<open>DID documents and deactivation\<close>

definition io_has_anchored_did :: "io_state \<Rightarrow> address \<Rightarrow> bool" where
  "io_has_anchored_did s subject = (io_did_document s subject \<noteq> None)"

definition io_get_did_document :: "io_state \<Rightarrow> address \<Rightarrow> string option" where
  "io_get_did_document s subject = io_did_document s subject"

text \<open>The three accepted prefixes, tried in order as \<open>||\<close> does.\<close>

definition cid_prefix_valid :: "string \<Rightarrow> bool option" where
  "cid_prefix_valid cid =
     (case cid_starts_with cid ''ipfs://'' of
        None \<Rightarrow> None
      | Some True \<Rightarrow> Some True
      | Some False \<Rightarrow>
          (case cid_starts_with cid ''bafy'' of
             None \<Rightarrow> None
           | Some True \<Rightarrow> Some True
           | Some False \<Rightarrow> cid_starts_with cid ''Qm''))"

definition io_anchor_did :: "env \<Rightarrow> address \<Rightarrow> string \<Rightarrow> io_state \<Rightarrow> (io_error, io_state) outcome" where
  "io_anchor_did e subject cid s =
     outcome_bind (io_ensure_not_paused s) (\<lambda>_.
       if \<not> authorized e subject then Trap
       else if \<not> (7 \<le> length cid \<and> length cid \<le> MAX_CID_LENGTH) then Err InvalidCID
       else case cid_prefix_valid cid of
              None \<Rightarrow> Trap
            | Some False \<Rightarrow> Err InvalidCID
            | Some True \<Rightarrow>
                (let s1 = s\<lparr>io_did_document := (io_did_document s)(subject \<mapsto> cid)\<rparr>;
                     s2 = record_last_state_change e subject s1
                 in outcome_bind (expect (increment_dids_anchored s2)) (\<lambda>s3.
                      Ok (io_publish (DIDAnch subject cid) s3))))"

definition io_deactivate_did :: "env \<Rightarrow> address \<Rightarrow> io_state \<Rightarrow> (io_error, io_state) outcome" where
  "io_deactivate_did e subject s =
     (if \<not> authorized e subject then Trap
      else outcome_bind (expect (deactivate_core e subject s)) (\<lambda>(_, s1).
             Ok (io_publish (DIDDeact subject)
                   (s1\<lparr>io_did_document := (io_did_document s1)(subject := None)\<rparr>))))"

definition io_is_deactivated :: "io_state \<Rightarrow> address \<Rightarrow> bool" where
  "io_is_deactivated s subject = unwrap_or (io_deactivated s subject) False"

definition io_deactivate_identity ::
  "env \<Rightarrow> address \<Rightarrow> io_state \<Rightarrow> (io_error, u32 \<times> io_state) outcome" where
  "io_deactivate_identity e subject s =
     (if \<not> authorized e subject then Trap
      else outcome_bind (expect (deactivate_core e subject s)) (\<lambda>(revoked_count, s1).
             Ok (revoked_count, io_publish (IdDeact subject revoked_count) s1)))"

definition io_reactivate_identity :: "env \<Rightarrow> address \<Rightarrow> io_state \<Rightarrow> (io_error, io_state) outcome" where
  "io_reactivate_identity e subject s =
     (if \<not> authorized e subject then Trap
      else Ok (io_publish (IdReact subject)
                 (record_last_state_change e subject
                    (s\<lparr>io_deactivated := (io_deactivated s)(subject := None)\<rparr>))))"

section \<open>Anchoring and revoking credentials\<close>

text \<open>The records a revocation check lets through (the filter of the cap, \<open>get_vc_details\<close>).\<close>

fun active_records ::
  "registry_query \<Rightarrow> io_state \<Rightarrow> identity_vc_record list \<Rightarrow> identity_vc_record list option" where
  "active_records rq s [] = Some []"
| "active_records rq s (r # rs) =
     (case is_record_revoked rq s r of
        None \<Rightarrow> None
      | Some b \<Rightarrow>
          (case active_records rq s rs of
             None \<Rightarrow> None
           | Some as \<Rightarrow> Some (if b then as else r # as)))"

definition has_anchor :: "address \<Rightarrow> vc_hash \<Rightarrow> identity_vc_record list \<Rightarrow> bool" where
  "has_anchor issu h rs \<longleftrightarrow> (\<exists>r \<in> set rs. vc_hash_of r = h \<and> issuer r = issu)"

definition bump_active_count ::
  "registry_query \<Rightarrow> address \<Rightarrow> bool \<Rightarrow> io_state \<Rightarrow> io_state option" where
  "bump_active_count rq subject is_active s =
     (case load_active_vc_count s subject of
        Some count \<Rightarrow>
          (case (if is_active then checked_add count 1 else Some count) of
             None \<Rightarrow> None
           | Some count' \<Rightarrow>
               Some (s\<lparr>io_active_vc_count := (io_active_vc_count s)(subject \<mapsto> count')\<rparr>))
      | None \<Rightarrow> map_option snd (seed_active_vc_count rq subject s))"

definition io_anchor_vc_typed ::
  "env \<Rightarrow> registry_query \<Rightarrow> address \<Rightarrow> address \<Rightarrow> vc_hash \<Rightarrow> credential_type \<Rightarrow> io_state
     \<Rightarrow> (io_error, io_state) outcome" where
  "io_anchor_vc_typed e rq issu subject h ty s =
     outcome_bind (io_ensure_not_paused s) (\<lambda>_.
       if \<not> authorized e issu then Trap
       else if \<not> io_trusted s issu then Err IssuerNotRegistered
       else if has_anchor issu h (io_anchors s subject) then Ok s
       else outcome_bind (expect (active_records rq s (io_anchors s subject))) (\<lambda>active.
         if MAX_VCS_PER_SUBJECT \<le> length active then Err VCLimitReached
         else
           let r = \<lparr>vc_hash_of = h, issuer = issu, anchored_at = ledger_timestamp e, revoked = False\<rparr>
           in outcome_bind (expect (is_record_revoked rq s r)) (\<lambda>rev.
                let s1 = store_credential_type subject h ty s;
                    s2 = s1\<lparr>io_vc_anchors := (io_vc_anchors s1)(subject \<mapsto> io_anchors s1 subject @ [r])\<rparr>;
                    s3 = record_last_state_change e subject s2
                in outcome_bind (expect (bump_active_count rq subject (\<not> rev) s3)) (\<lambda>s4.
                   outcome_bind (expect (increment_vcs_anchored s4)) (\<lambda>s5.
                     Ok (io_publish (VCAnch issu subject h) s5))))))"

definition io_anchor_vc ::
  "env \<Rightarrow> registry_query \<Rightarrow> address \<Rightarrow> address \<Rightarrow> vc_hash \<Rightarrow> io_state \<Rightarrow> (io_error, io_state) outcome"
  where
  "io_anchor_vc e rq issu subject h s =
     io_anchor_vc_typed e rq issu subject h generic_credential_type s"

fun mark_loop ::
  "address \<Rightarrow> vc_hash \<Rightarrow> identity_vc_record list \<Rightarrow> identity_vc_record list \<Rightarrow> bool \<Rightarrow> bool
     \<Rightarrow> identity_vc_record list \<times> bool \<times> bool" where
  "mark_loop issu h [] updated found transitioned = (updated, found, transitioned)"
| "mark_loop issu h (r # rs) updated found transitioned =
     (if vc_hash_of r = h \<and> issuer r = issu
      then mark_loop issu h rs (updated @ [r\<lparr>revoked := True\<rparr>]) True
             (if \<not> revoked r then True else transitioned)
      else mark_loop issu h rs (updated @ [r]) found transitioned)"

definition drop_active_count :: "registry_query \<Rightarrow> address \<Rightarrow> io_state \<Rightarrow> io_state option" where
  "drop_active_count rq subject s =
     (case load_active_vc_count s subject of
        Some count \<Rightarrow>
          map_option (\<lambda>c. s\<lparr>io_active_vc_count := (io_active_vc_count s)(subject \<mapsto> c)\<rparr>)
            (checked_sub count 1)
      | None \<Rightarrow> map_option snd (seed_active_vc_count rq subject s))"

definition io_mark_vc_revoked ::
  "env \<Rightarrow> registry_query \<Rightarrow> address \<Rightarrow> address \<Rightarrow> vc_hash \<Rightarrow> io_state \<Rightarrow> (io_error, io_state) outcome"
  where
  "io_mark_vc_revoked e rq issu subject h s =
     outcome_bind (io_ensure_not_paused s) (\<lambda>_.
       if \<not> authorized e issu then Trap
       else case mark_loop issu h (io_anchors s subject) [] False False of
              (updated, found, transitioned) \<Rightarrow>
                if \<not> found then Err VCNotFound
                else
                  let s1 = s\<lparr>io_vc_anchors := (io_vc_anchors s)(subject \<mapsto> updated)\<rparr>
                  in if transitioned
                     then outcome_bind
                            (expect (increment_vcs_revoked 1 (record_last_state_change e subject s1)))
                            (\<lambda>s2. expect (drop_active_count rq subject s2))
                     else if load_active_vc_count s1 subject = None
                     then expect (map_option snd (seed_active_vc_count rq subject s1))
                     else Ok s1)"

section \<open>Queries\<close>

fun exists_active :: "registry_query \<Rightarrow> io_state \<Rightarrow> identity_vc_record list \<Rightarrow> bool option" where
  "exists_active rq s [] = Some False"
| "exists_active rq s (r # rs) =
     (case is_record_revoked rq s r of
        None \<Rightarrow> None
      | Some True \<Rightarrow> exists_active rq s rs
      | Some False \<Rightarrow> Some True)"

definition io_is_verified :: "registry_query \<Rightarrow> io_state \<Rightarrow> address \<Rightarrow> bool option" where
  "io_is_verified rq s subject =
     (if unwrap_or (io_deactivated s subject) False then Some False
      else exists_active rq s (io_anchors s subject))"

definition io_get_total_vc_count :: "io_state \<Rightarrow> address \<Rightarrow> nat" where
  "io_get_total_vc_count s subject = length (io_anchors s subject)"

definition io_get_vc_count :: "io_state \<Rightarrow> address \<Rightarrow> nat" where
  "io_get_vc_count s subject = io_get_total_vc_count s subject"

text \<open>\<open>get_active_vc_count\<close> seeds the cache when it is missing, so it returns a state.\<close>

definition io_get_active_vc_count ::
  "registry_query \<Rightarrow> address \<Rightarrow> io_state \<Rightarrow> (u32 \<times> io_state) option" where
  "io_get_active_vc_count rq subject s =
     (case io_active_vc_count s subject of
        Some count \<Rightarrow> Some (count, s)
      | None \<Rightarrow> seed_active_vc_count rq subject s)"

definition io_get_vc_details ::
  "registry_query \<Rightarrow> io_state \<Rightarrow> address \<Rightarrow> identity_vc_record list option" where
  "io_get_vc_details rq s subject = active_records rq s (io_anchors s subject)"

fun revoked_hashes ::
  "registry_query \<Rightarrow> io_state \<Rightarrow> identity_vc_record list \<Rightarrow> vc_hash list option" where
  "revoked_hashes rq s [] = Some []"
| "revoked_hashes rq s (r # rs) =
     (case is_record_revoked rq s r of
        None \<Rightarrow> None
      | Some b \<Rightarrow>
          (case revoked_hashes rq s rs of
             None \<Rightarrow> None
           | Some hs \<Rightarrow> Some (if b then vc_hash_of r # hs else hs)))"

definition io_list_revoked_for_subject ::
  "registry_query \<Rightarrow> io_state \<Rightarrow> address \<Rightarrow> vc_hash list option" where
  "io_list_revoked_for_subject rq s subject = revoked_hashes rq s (io_anchors s subject)"

definition io_get_vc_credential_type :: "io_state \<Rightarrow> address \<Rightarrow> vc_hash \<Rightarrow> credential_type" where
  "io_get_vc_credential_type s subject h = get_stored_credential_type s subject h"

fun verify_loop :: "registry_query \<Rightarrow> io_state \<Rightarrow> vc_hash \<Rightarrow> identity_vc_record list \<Rightarrow> bool option" where
  "verify_loop rq s h [] = Some False"
| "verify_loop rq s h (r # rs) =
     (if vc_hash_of r = h
      then (case is_record_revoked rq s r of
              None \<Rightarrow> None
            | Some True \<Rightarrow> verify_loop rq s h rs
            | Some False \<Rightarrow> Some True)
      else verify_loop rq s h rs)"

definition io_verify_vc :: "registry_query \<Rightarrow> io_state \<Rightarrow> address \<Rightarrow> vc_hash \<Rightarrow> bool option" where
  "io_verify_vc rq s subject h = verify_loop rq s h (io_anchors s subject)"

definition io_get_protocol_stats :: "io_state \<Rightarrow> io_protocol_stats" where
  "io_get_protocol_stats s = io_load_protocol_stats s"

definition io_get_last_state_change_ledger :: "io_state \<Rightarrow> address \<Rightarrow> u32 option" where
  "io_get_last_state_change_ledger s subject = io_last_state_change s subject"

section \<open>Calls and reachable states\<close>

datatype io_call =
    IoInitializeCall address | IoPauseCall | IoUnpauseCall | IoMigrateCall
  | IoSetRegistryCall address | IoRegisterIssuerCall address | IoDeregisterIssuerCall address
  | IoAnchorDidCall address string | IoDeactivateDidCall address
  | IoAnchorVcCall address address vc_hash | IoAnchorVcTypedCall address address vc_hash symbol
  | IoMarkVcRevokedCall address address vc_hash | IoDeactivateIdentityCall address
  | IoReactivateIdentityCall address | IoGetActiveVcCountCall address
  | IoSetIssuerTierCall address address u32 | IoProposeAdminCall address
  | IoAcceptAdminCall address | IoUpgradeCall bytes | IoMaintainCall

definition io_local :: "(io_state \<Rightarrow> (io_error, io_state) outcome) \<Rightarrow> io_state \<times> 'w
    \<Rightarrow> (io_error, io_state \<times> 'w) outcome" where
  "io_local f sw = (case sw of (s, w) \<Rightarrow> outcome_bind (f s) (\<lambda>s'. Ok (s', w)))"

fun io_exec ::
  "env \<Rightarrow> registry_query \<Rightarrow> 'w link_call \<Rightarrow> io_call \<Rightarrow> io_state \<times> 'w
     \<Rightarrow> (io_error, io_state \<times> 'w) outcome" where
  "io_exec e rq link (IoInitializeCall a) sw = io_local (io_initialize e a) sw"
| "io_exec e rq link IoPauseCall sw = io_local (io_pause e) sw"
| "io_exec e rq link IoUnpauseCall sw = io_local (io_unpause e) sw"
| "io_exec e rq link IoMigrateCall sw = io_local (io_migrate e) sw"
| "io_exec e rq link (IoSetRegistryCall a) sw = io_set_revocation_registry e rq link a sw"
| "io_exec e rq link (IoRegisterIssuerCall a) sw = io_local (io_register_issuer e a) sw"
| "io_exec e rq link (IoDeregisterIssuerCall a) sw = io_local (io_deregister_issuer e a) sw"
| "io_exec e rq link (IoAnchorDidCall a c) sw = io_local (io_anchor_did e a c) sw"
| "io_exec e rq link (IoDeactivateDidCall a) sw = io_local (io_deactivate_did e a) sw"
| "io_exec e rq link (IoAnchorVcCall i a h) sw = io_local (io_anchor_vc e rq i a h) sw"
| "io_exec e rq link (IoAnchorVcTypedCall i a h t) sw = io_local (io_anchor_vc_typed e rq i a h t) sw"
| "io_exec e rq link (IoMarkVcRevokedCall i a h) sw = io_local (io_mark_vc_revoked e rq i a h) sw"
| "io_exec e rq link (IoDeactivateIdentityCall a) sw =
     io_local (\<lambda>s. outcome_bind (io_deactivate_identity e a s) (\<lambda>(_, s'). Ok s')) sw"
| "io_exec e rq link (IoReactivateIdentityCall a) sw = io_local (io_reactivate_identity e a) sw"
| "io_exec e rq link (IoGetActiveVcCountCall a) sw =
     io_local (\<lambda>s. expect (map_option snd (io_get_active_vc_count rq a s))) sw"
| "io_exec e rq link (IoSetIssuerTierCall m i t) sw = io_local (io_set_issuer_tier e m i t) sw"
| "io_exec e rq link (IoProposeAdminCall a) sw = io_local (io_propose_new_admin e a) sw"
| "io_exec e rq link (IoAcceptAdminCall a) sw = io_local (io_accept_admin e a) sw"
| "io_exec e rq link (IoUpgradeCall h) sw = io_local (io_upgrade e h) sw"
| "io_exec e rq link IoMaintainCall sw = io_local (io_maintain_storage e) sw"

inductive io_reachable :: "io_state \<times> 'w \<Rightarrow> bool" where
  io_start: "io_reachable (io_new, w)"
| io_step: "io_reachable sw \<Longrightarrow> io_exec e rq link c sw = Ok sw' \<Longrightarrow> io_reachable sw'"

section \<open>Normal forms of the loops\<close>

lemma compact_loop_eq: "compact_loop s as acc = acc @ filter (io_trusted s) as"
  by (induction as arbitrary: acc) auto

lemma io_list_issuers_eq: "io_list_issuers s = filter (io_trusted s) (io_index s)"
  by (simp add: io_list_issuers_def compact_loop_eq)

definition mark_record :: "address \<Rightarrow> vc_hash \<Rightarrow> identity_vc_record \<Rightarrow> identity_vc_record" where
  "mark_record issu h r =
     (if vc_hash_of r = h \<and> issuer r = issu then r\<lparr>revoked := True\<rparr> else r)"

definition has_live_anchor :: "address \<Rightarrow> vc_hash \<Rightarrow> identity_vc_record list \<Rightarrow> bool" where
  "has_live_anchor issu h rs \<longleftrightarrow>
     (\<exists>r \<in> set rs. vc_hash_of r = h \<and> issuer r = issu \<and> \<not> revoked r)"

lemma mark_loop_eq:
  "mark_loop issu h rs upd found tr =
     (upd @ map (mark_record issu h) rs, found \<or> has_anchor issu h rs, tr \<or> has_live_anchor issu h rs)"
  by (induction rs arbitrary: upd found tr)
     (auto simp: mark_record_def has_anchor_def has_live_anchor_def)

abbreviation live :: "identity_vc_record list \<Rightarrow> identity_vc_record list" where
  "live rs \<equiv> filter (\<lambda>r. \<not> revoked r) rs"

lemma deactivate_loop_eq:
  "deactivate_loop rs upd c = Some (upd', c') \<Longrightarrow>
     upd' = upd @ map (\<lambda>r. r\<lparr>revoked := True\<rparr>) rs \<and> unat c' = unat c + length (live rs)"
proof (induction rs arbitrary: upd c)
  case (Cons r rs)
  then show ?case
    by (cases "revoked r")
       (auto split: option.splits dest!: Cons.IH unat_checked_add)
qed simp

text \<open>The revocation check as a predicate, where the linked registry answers.\<close>

definition record_revoked :: "registry_query \<Rightarrow> io_state \<Rightarrow> identity_vc_record \<Rightarrow> bool" where
  "record_revoked rq s r \<longleftrightarrow>
     revoked r \<or> (\<exists>a. io_registry_id s = Some a \<and> rq a (vc_hash_of r) = Some True)"

lemma is_record_revoked_Some:
  "is_record_revoked rq s r = Some b \<Longrightarrow> b = record_revoked rq s r"
  by (auto simp: is_record_revoked_def record_revoked_def split: if_splits option.splits)

lemma active_records_Some:
  "active_records rq s rs = Some as \<Longrightarrow> as = filter (\<lambda>r. \<not> record_revoked rq s r) rs"
  by (induction rs arbitrary: as) (auto split: option.splits if_splits dest!: is_record_revoked_Some)

lemma count_active_Some:
  "count_active rq s rs c = Some c' \<Longrightarrow>
     unat c' = unat c + length (filter (\<lambda>r. \<not> record_revoked rq s r) rs)"
proof (induction rs arbitrary: c)
  case (Cons r rs)
  then show ?case
    by (cases "is_record_revoked rq s r")
       (auto split: bool.splits option.splits dest!: Cons.IH unat_checked_add is_record_revoked_Some)
qed simp

lemma exists_active_Some:
  "exists_active rq s rs = Some b \<Longrightarrow> b \<longleftrightarrow> (\<exists>r \<in> set rs. \<not> record_revoked rq s r)"
  by (induction rs) (auto split: option.splits bool.splits dest!: is_record_revoked_Some)

lemma verify_loop_Some:
  "verify_loop rq s h rs = Some b \<Longrightarrow>
     b \<longleftrightarrow> (\<exists>r \<in> set rs. vc_hash_of r = h \<and> \<not> record_revoked rq s r)"
  by (induction rs) (auto split: option.splits bool.splits if_splits dest!: is_record_revoked_Some)

lemma revoked_hashes_Some:
  "revoked_hashes rq s rs = Some hs \<Longrightarrow> hs = map vc_hash_of (filter (record_revoked rq s) rs)"
  by (induction rs arbitrary: hs) (auto split: option.splits if_splits dest!: is_record_revoked_Some)

subsection \<open>Where the linked registry answers\<close>

context revocation_source
begin

lemma check_total:
  assumes "\<And>a. io_registry_id s = Some a \<Longrightarrow> linked a"
  shows "is_record_revoked rq s r = Some (record_revoked rq s r)"
proof (cases "is_record_revoked rq s r")
  case None
  then show ?thesis
    using assms by (auto simp: is_record_revoked_def no_trap split: if_splits option.splits)
next
  case (Some b)
  then show ?thesis using is_record_revoked_Some [OF Some] by simp
qed

lemma details_total:
  assumes "\<And>a. io_registry_id s = Some a \<Longrightarrow> linked a"
  shows "io_get_vc_details rq s subj =
    Some (filter (\<lambda>r. \<not> record_revoked rq s r) (io_anchors s subj))"
proof -
  have "active_records rq s rs = Some (filter (\<lambda>r. \<not> record_revoked rq s r) rs)" for rs
    by (induction rs) (simp_all add: check_total [OF assms])
  then show ?thesis by (simp add: io_get_vc_details_def)
qed

lemma verify_total:
  assumes "\<And>a. io_registry_id s = Some a \<Longrightarrow> linked a"
  shows "io_verify_vc rq s subj h =
    Some (\<exists>r \<in> set (io_anchors s subj). vc_hash_of r = h \<and> \<not> record_revoked rq s r)"
proof -
  have "verify_loop rq s h rs = Some (\<exists>r \<in> set rs. vc_hash_of r = h \<and> \<not> record_revoked rq s r)" for rs
    by (induction rs) (auto simp: check_total [OF assms] split: bool.splits)
  then show ?thesis by (simp add: io_verify_vc_def)
qed

lemma verified_total:
  assumes "\<And>a. io_registry_id s = Some a \<Longrightarrow> linked a"
  shows "io_is_verified rq s subj =
    Some (\<not> io_is_deactivated s subj \<and> (\<exists>r \<in> set (io_anchors s subj). \<not> record_revoked rq s r))"
proof -
  have "exists_active rq s rs = Some (\<exists>r \<in> set rs. \<not> record_revoked rq s r)" for rs
    by (induction rs) (auto simp: check_total [OF assms] split: bool.splits)
  then show ?thesis by (simp add: io_is_verified_def io_is_deactivated_def)
qed

lemma revoked_list_total:
  assumes "\<And>a. io_registry_id s = Some a \<Longrightarrow> linked a"
  shows "io_list_revoked_for_subject rq s subj =
    Some (map vc_hash_of (filter (record_revoked rq s) (io_anchors s subj)))"
proof -
  have "revoked_hashes rq s rs = Some (map vc_hash_of (filter (record_revoked rq s) rs))" for rs
    by (induction rs) (simp_all add: check_total [OF assms])
  then show ?thesis by (simp add: io_list_revoked_for_subject_def)
qed

end

section \<open>What the operations write\<close>

lemma record_revoked_cong:
  "io_registry_id s = io_registry_id t \<Longrightarrow> record_revoked rq s = record_revoked rq t"
  by (simp add: record_revoked_def fun_eq_iff)

lemma increment_simps:
  "increment_dids_anchored s = Some t \<longleftrightarrow>
     (\<exists>n. checked_add (total_dids_anchored (io_load_protocol_stats s)) 1 = Some n \<and>
          t = s\<lparr>io_stats := Some ((io_load_protocol_stats s)\<lparr>total_dids_anchored := n\<rparr>)\<rparr>)"
  "increment_vcs_anchored s = Some t \<longleftrightarrow>
     (\<exists>n. checked_add (total_vcs_anchored (io_load_protocol_stats s)) 1 = Some n \<and>
          t = s\<lparr>io_stats := Some ((io_load_protocol_stats s)\<lparr>total_vcs_anchored := n\<rparr>)\<rparr>)"
  "increment_vcs_revoked k s = Some t \<longleftrightarrow>
     (\<exists>n. checked_add (total_vcs_revoked (io_load_protocol_stats s)) k = Some n \<and>
          t = s\<lparr>io_stats := Some ((io_load_protocol_stats s)\<lparr>total_vcs_revoked := n\<rparr>)\<rparr>)"
  by (auto simp: increment_dids_anchored_def increment_vcs_anchored_def increment_vcs_revoked_def
      Let_def io_save_protocol_stats_def)

lemma seed_Some:
  assumes "seed_active_vc_count rq subj s = Some (c, t)"
  shows "unat c = length (filter (\<lambda>r. \<not> record_revoked rq s r) (io_anchors s subj))
    \<and> t = s\<lparr>io_active_vc_count := (io_active_vc_count s)(subj \<mapsto> c)\<rparr>"
  using assms
  by (auto simp: seed_active_vc_count_def compute_active_vc_count_def dest: count_active_Some)

text \<open>The number the cached counter is set to, and the only field the helpers write.\<close>

lemma bump_Some:
  assumes "bump_active_count rq subj b s = Some t"
  shows "\<exists>c. t = s\<lparr>io_active_vc_count := (io_active_vc_count s)(subj \<mapsto> c)\<rparr> \<and>
    unat c = (case io_active_vc_count s subj of
                Some old \<Rightarrow> unat old + (if b then 1 else 0)
              | None \<Rightarrow> length (filter (\<lambda>r. \<not> record_revoked rq s r) (io_anchors s subj)))"
proof (cases "io_active_vc_count s subj")
  case None
  then obtain c where "seed_active_vc_count rq subj s = Some (c, t)"
    using assms by (auto simp: bump_active_count_def load_active_vc_count_def)
  then show ?thesis using seed_Some None by fastforce
next
  case (Some old)
  then show ?thesis
    using assms unat_checked_add [of old 1]
    by (auto simp: bump_active_count_def load_active_vc_count_def split: if_splits option.splits)
qed

lemma drop_Some:
  assumes "drop_active_count rq subj s = Some t"
  shows "\<exists>c. t = s\<lparr>io_active_vc_count := (io_active_vc_count s)(subj \<mapsto> c)\<rparr> \<and>
    (case io_active_vc_count s subj of
       Some old \<Rightarrow> unat old = unat c + 1
     | None \<Rightarrow> unat c = length (filter (\<lambda>r. \<not> record_revoked rq s r) (io_anchors s subj)))"
proof (cases "io_active_vc_count s subj")
  case None
  then obtain c where "seed_active_vc_count rq subj s = Some (c, t)"
    using assms by (auto simp: drop_active_count_def load_active_vc_count_def)
  then show ?thesis using seed_Some None by fastforce
next
  case (Some old)
  then obtain c where "checked_sub old 1 = Some c"
      "t = s\<lparr>io_active_vc_count := (io_active_vc_count s)(subj \<mapsto> c)\<rparr>"
    using assms by (auto simp: drop_active_count_def load_active_vc_count_def)
  moreover have "unat old = unat c + 1"
    using unat_checked_sub [OF \<open>checked_sub old 1 = Some c\<close>] by simp
  ultimately show ?thesis using Some by auto
qed

text \<open>
  The part of the state the credential life cycle is about; everything else about a
  credential call is in \<open>io_rest\<close>.
\<close>

definition io_rest ::
  "io_state \<Rightarrow> address option \<times> bool option \<times> address option \<times> address option
     \<times> (address \<rightharpoonup> bool) \<times> address list option" where
  "io_rest s = (io_admin s, io_paused s, io_pending_admin s, io_registry_id s,
                io_trusted_issuer s, io_issuers_index s)"

lemma io_rest_fields:
  assumes "io_rest s = io_rest t"
  shows "io_admin s = io_admin t" "io_registry_id s = io_registry_id t"
    "io_trusted_issuer s = io_trusted_issuer t" "io_issuers_index s = io_issuers_index t"
    "io_paused s = io_paused t" "io_pending_admin s = io_pending_admin t"
  using assms by (simp_all add: io_rest_def)

definition new_record :: "env \<Rightarrow> address \<Rightarrow> vc_hash \<Rightarrow> identity_vc_record" where
  "new_record e issu h =
     \<lparr>vc_hash_of = h, issuer = issu, anchored_at = ledger_timestamp e, revoked = False\<rparr>"

text \<open>
  Anchoring either finds the (issuer, hash) pair and changes nothing, or appends one
  record, bumps the counters and stamps the subject's last change.
\<close>

lemma io_anchor_vc_typed_Ok:
  assumes "io_anchor_vc_typed e rq issu subj h ty s = Ok s'"
  shows "\<not> io_is_paused s \<and> authorized e issu \<and> io_trusted s issu \<and>
    (if has_anchor issu h (io_anchors s subj) then s' = s
     else length (filter (\<lambda>r. \<not> record_revoked rq s r) (io_anchors s subj)) < 100 \<and>
       io_vc_anchors s' = (io_vc_anchors s)(subj \<mapsto> io_anchors s subj @ [new_record e issu h]) \<and>
       io_vc_credential_type s' = (io_vc_credential_type s)((subj, h) \<mapsto> ty) \<and>
       io_last_state_change s' = (io_last_state_change s)(subj \<mapsto> ledger_sequence e) \<and>
       io_deactivated s' = io_deactivated s \<and> io_did_document s' = io_did_document s \<and>
       io_rest s' = io_rest s \<and>
       (\<exists>c. io_active_vc_count s' = (io_active_vc_count s)(subj \<mapsto> c) \<and>
         unat c = (case io_active_vc_count s subj of
            Some old \<Rightarrow> unat old + (if record_revoked rq s (new_record e issu h) then 0 else 1)
          | None \<Rightarrow> length (filter (\<lambda>r. \<not> record_revoked rq s r)
                             (io_anchors s subj @ [new_record e issu h])))) \<and>
       (\<exists>n. checked_add (total_vcs_anchored (io_load_protocol_stats s)) 1 = Some n \<and>
            io_load_protocol_stats s' = (io_load_protocol_stats s)\<lparr>total_vcs_anchored := n\<rparr>))"
proof -
  have g: "\<not> io_is_paused s" "authorized e issu" "io_trusted s issu"
    using assms by (auto simp: io_anchor_vc_typed_def io_ensure_not_paused_def io_is_paused_def
        split: if_splits)
  show ?thesis
  proof (cases "has_anchor issu h (io_anchors s subj)")
    case True
    with g assms show ?thesis
      by (simp add: io_anchor_vc_typed_def io_ensure_not_paused_def io_is_paused_def)
  next
    case False
    let ?r = "new_record e issu h"
    let ?s1 = "store_credential_type subj h ty s"
    let ?s2 = "?s1\<lparr>io_vc_anchors := (io_vc_anchors ?s1)(subj \<mapsto> io_anchors ?s1 subj @ [?r])\<rparr>"
    let ?s3 = "record_last_state_change e subj ?s2"
    obtain active rev s4 s5 where act: "active_records rq s (io_anchors s subj) = Some active"
      and len: "length active < 100" and rv: "is_record_revoked rq s ?r = Some rev"
      and s4: "bump_active_count rq subj (\<not> rev) ?s3 = Some s4"
      and s5: "increment_vcs_anchored s4 = Some s5"
      and s': "s' = io_publish (VCAnch issu subj h) s5"
      using assms g False
      by (auto simp: io_anchor_vc_typed_def io_ensure_not_paused_def io_is_paused_def Let_def
          new_record_def MAX_VCS_PER_SUBJECT_def not_le split: if_splits)
    have reg: "io_registry_id ?s3 = io_registry_id s"
      by (simp add: record_last_state_change_def store_credential_type_def)
    have cnt: "io_active_vc_count ?s3 = io_active_vc_count s"
      by (simp add: record_last_state_change_def store_credential_type_def)
    have anc: "io_anchors ?s3 subj = io_anchors s subj @ [?r]"
      by (simp add: record_last_state_change_def store_credential_type_def io_anchors_def)
    obtain c where c: "s4 = ?s3\<lparr>io_active_vc_count := (io_active_vc_count ?s3)(subj \<mapsto> c)\<rparr>"
      "unat c = (case io_active_vc_count ?s3 subj of
                Some old \<Rightarrow> unat old + (if \<not> rev then 1 else 0)
              | None \<Rightarrow> length (filter (\<lambda>r. \<not> record_revoked rq ?s3 r) (io_anchors ?s3 subj)))"
      using bump_Some [OF s4] by blast
    have c': "unat c = (case io_active_vc_count s subj of
            Some old \<Rightarrow> unat old + (if record_revoked rq s ?r then 0 else 1)
          | None \<Rightarrow> length (filter (\<lambda>r. \<not> record_revoked rq s r) (io_anchors s subj @ [?r])))"
      using c(2) is_record_revoked_Some [OF rv]
      unfolding cnt anc record_revoked_cong [OF reg] by (auto split: option.splits)
    show ?thesis
      using g False len active_records_Some [OF act] s5 c(1) c' unfolding s'
      by (auto simp: increment_simps io_publish_def io_rest_def io_load_protocol_stats_def
          record_last_state_change_def store_credential_type_def io_anchors_def)
  qed
qed

lemma io_mark_vc_revoked_Ok:
  assumes "io_mark_vc_revoked e rq issu subj h s = Ok s'"
  defines "rs' \<equiv> map (mark_record issu h) (io_anchors s subj)"
  shows "\<not> io_is_paused s \<and> authorized e issu \<and> has_anchor issu h (io_anchors s subj) \<and>
    io_vc_anchors s' = (io_vc_anchors s)(subj \<mapsto> rs') \<and> io_rest s' = io_rest s \<and>
    io_deactivated s' = io_deactivated s \<and> io_did_document s' = io_did_document s \<and>
    io_vc_credential_type s' = io_vc_credential_type s \<and>
    (if has_live_anchor issu h (io_anchors s subj)
     then io_last_state_change s' = (io_last_state_change s)(subj \<mapsto> ledger_sequence e) \<and>
       (\<exists>n. checked_add (total_vcs_revoked (io_load_protocol_stats s)) 1 = Some n \<and>
            io_load_protocol_stats s' = (io_load_protocol_stats s)\<lparr>total_vcs_revoked := n\<rparr>) \<and>
       (\<exists>c. io_active_vc_count s' = (io_active_vc_count s)(subj \<mapsto> c) \<and>
         (case io_active_vc_count s subj of
            Some old \<Rightarrow> unat old = unat c + 1
          | None \<Rightarrow> unat c = length (filter (\<lambda>r. \<not> record_revoked rq s r) rs')))
     else io_last_state_change s' = io_last_state_change s \<and>
       io_load_protocol_stats s' = io_load_protocol_stats s \<and>
       (case io_active_vc_count s subj of
          Some old \<Rightarrow> io_active_vc_count s' = io_active_vc_count s
        | None \<Rightarrow> \<exists>c. io_active_vc_count s' = (io_active_vc_count s)(subj \<mapsto> c) \<and>
            unat c = length (filter (\<lambda>r. \<not> record_revoked rq s r) rs')))"
proof -
  let ?s1 = "s\<lparr>io_vc_anchors := (io_vc_anchors s)(subj \<mapsto> rs')\<rparr>"
  have g: "\<not> io_is_paused s" "authorized e issu" "has_anchor issu h (io_anchors s subj)"
    using assms by (auto simp: io_mark_vc_revoked_def io_ensure_not_paused_def io_is_paused_def
        mark_loop_eq split: if_splits)
  show ?thesis
  proof (cases "has_live_anchor issu h (io_anchors s subj)")
    case True
    let ?s2 = "record_last_state_change e subj ?s1"
    obtain s3 where s3: "increment_vcs_revoked 1 ?s2 = Some s3"
      and dr: "drop_active_count rq subj s3 = Some s'"
      using assms g True
      by (auto simp: io_mark_vc_revoked_def io_ensure_not_paused_def io_is_paused_def mark_loop_eq
          Let_def)
    have f: "io_registry_id s3 = io_registry_id s" "io_anchors s3 subj = rs'"
        "io_active_vc_count s3 = io_active_vc_count s"
      using s3 by (auto simp: increment_simps record_last_state_change_def io_anchors_def)
    note d = drop_Some [OF dr, unfolded f(2,3) record_revoked_cong [OF f(1)]]
    show ?thesis
      using g True d s3
      by (auto simp: increment_simps record_last_state_change_def io_rest_def
          io_load_protocol_stats_def)
  next
    case False
    have f: "io_registry_id ?s1 = io_registry_id s" "io_anchors ?s1 subj = rs'"
      by (simp_all add: io_anchors_def)
    show ?thesis
    proof (cases "io_active_vc_count s subj")
      case None
      then obtain c where "seed_active_vc_count rq subj ?s1 = Some (c, s')"
        using assms g False
        by (auto simp: io_mark_vc_revoked_def io_ensure_not_paused_def io_is_paused_def mark_loop_eq
            Let_def load_active_vc_count_def)
      note d = seed_Some [OF this, unfolded f(2) record_revoked_cong [OF f(1)]]
      then show ?thesis
        using g False None by (auto simp: io_rest_def io_load_protocol_stats_def)
    next
      case (Some old)
      then show ?thesis
        using assms g False
        by (auto simp: io_mark_vc_revoked_def io_ensure_not_paused_def io_is_paused_def mark_loop_eq
            Let_def load_active_vc_count_def io_rest_def io_load_protocol_stats_def)
    qed
  qed
qed

lemma deactivate_core_Some:
  assumes "deactivate_core e subj s = Some (n, s')"
  defines "rs' \<equiv> map (\<lambda>r. r\<lparr>revoked := True\<rparr>) (io_anchors s subj)"
  shows "unat n = length (live (io_anchors s subj)) \<and> io_anchors s' subj = rs' \<and>
    (\<forall>b. b \<noteq> subj \<longrightarrow> io_vc_anchors s' b = io_vc_anchors s b) \<and>
    finite (dom (io_vc_anchors s')) = finite (dom (io_vc_anchors s)) \<and>
    io_deactivated s' = (io_deactivated s)(subj \<mapsto> True) \<and>
    io_active_vc_count s' = (io_active_vc_count s)(subj \<mapsto> 0) \<and>
    io_last_state_change s' = (io_last_state_change s)(subj \<mapsto> ledger_sequence e) \<and>
    io_rest s' = io_rest s \<and>
    total_vcs_anchored (io_load_protocol_stats s') = total_vcs_anchored (io_load_protocol_stats s) \<and>
    unat (total_vcs_revoked (io_load_protocol_stats s')) =
      unat (total_vcs_revoked (io_load_protocol_stats s)) + unat n"
proof -
  let ?s1 = "s\<lparr>io_deactivated := (io_deactivated s)(subj \<mapsto> True)\<rparr>"
  have an: "io_anchors ?s1 subj = io_anchors s subj" by (simp add: io_anchors_def)
  obtain updated s2 s3 where l: "deactivate_loop (io_anchors s subj) [] 0 = Some (updated, n)"
    and s2: "s2 = (if io_anchors s subj \<noteq> []
                   then ?s1\<lparr>io_vc_anchors := (io_vc_anchors ?s1)(subj \<mapsto> updated)\<rparr> else ?s1)"
    and s3: "(if 0 < n then increment_vcs_revoked (ucast n) s2 else Some s2) = Some s3"
    and s': "s' = record_last_state_change e subj
               (s3\<lparr>io_active_vc_count := (io_active_vc_count s3)(subj \<mapsto> 0)\<rparr>)"
    using assms(1) by (auto simp: deactivate_core_def Let_def an split: option.splits prod.splits)
  have u: "updated = rs'" "unat n = length (live (io_anchors s subj))"
    using deactivate_loop_eq [OF l] by (simp_all add: rs'_def)
  have a2: "io_anchors s2 subj = rs'" "\<forall>b. b \<noteq> subj \<longrightarrow> io_vc_anchors s2 b = io_vc_anchors s b"
      "finite (dom (io_vc_anchors s2)) = finite (dom (io_vc_anchors s))"
    using u(1) by (auto simp: s2 an rs'_def io_anchors_def)
  have st2: "io_load_protocol_stats s2 = io_load_protocol_stats s"
    by (simp add: s2 io_load_protocol_stats_def)
  have w: "unat (ucast n :: u64) = unat n" by (simp add: unat_arith_simps)
  have s3': "\<exists>st. s3 = s2\<lparr>io_stats := st\<rparr> \<and>
      total_vcs_anchored (io_load_protocol_stats s3) = total_vcs_anchored (io_load_protocol_stats s) \<and>
      unat (total_vcs_revoked (io_load_protocol_stats s3)) =
        unat (total_vcs_revoked (io_load_protocol_stats s)) + unat n"
  proof (cases "0 < n")
    case True
    then obtain m where m: "checked_add (total_vcs_revoked (io_load_protocol_stats s)) (ucast n) = Some m"
        "s3 = s2\<lparr>io_stats := Some ((io_load_protocol_stats s)\<lparr>total_vcs_revoked := m\<rparr>)\<rparr>"
      using s3 by (auto simp: increment_simps st2)
    then show ?thesis
      using unat_checked_add [OF m(1)] w by (auto simp: io_load_protocol_stats_def)
  next
    case False
    then have "n = 0" "s3 = s2" using s3 by (auto simp: word_gt_0)
    then show ?thesis using st2 by (intro exI [of _ "io_stats s2"]) simp
  qed
  then obtain st where st: "s3 = s2\<lparr>io_stats := st\<rparr>" by blast
  show ?thesis
    using a2 u s3'
    by (auto simp: s' st record_last_state_change_def io_anchors_def io_load_protocol_stats_def s2
        io_rest_def)
qed

section \<open>Invariants\<close>

definition io_issuers_ok :: "io_state \<Rightarrow> bool" where
  "io_issuers_ok s \<longleftrightarrow> distinct (io_index s) \<and> set (io_index s) = {a. io_trusted s a}"

definition anchor_keys :: "identity_vc_record list \<Rightarrow> (vc_hash \<times> address) list" where
  "anchor_keys rs = map (\<lambda>r. (vc_hash_of r, issuer r)) rs"

definition revoked_in :: "identity_vc_record list \<Rightarrow> nat" where
  "revoked_in rs = length (filter revoked rs)"

text \<open>
  The book-keeping of the credentials: no (issuer, hash) pair twice, the global counters
  equal to what the anchors hold and, while no registry is linked, every cached active
  count exact and every subject within the cap.
\<close>

definition io_creds_ok :: "io_state \<Rightarrow> bool" where
  "io_creds_ok s \<longleftrightarrow>
     finite (dom (io_vc_anchors s)) \<and>
     (\<forall>a. distinct (anchor_keys (io_anchors s a))) \<and>
     unat (total_vcs_anchored (io_load_protocol_stats s)) = map_total length (io_vc_anchors s) \<and>
     unat (total_vcs_revoked (io_load_protocol_stats s)) = map_total revoked_in (io_vc_anchors s) \<and>
     (io_registry_id s = None \<longrightarrow>
        (\<forall>a. length (live (io_anchors s a)) \<le> 100 \<and>
             (\<forall>c. io_active_vc_count s a = Some c \<longrightarrow> unat c = length (live (io_anchors s a)))))"

definition io_inv :: "io_state \<Rightarrow> bool" where
  "io_inv s \<longleftrightarrow> io_issuers_ok s \<and> io_creds_ok s"

lemma anchor_keys_mark [simp]: "anchor_keys (map (mark_record i h) rs) = anchor_keys rs"
  by (induction rs) (auto simp: anchor_keys_def mark_record_def)

lemma anchor_keys_revoke [simp]: "anchor_keys (map (\<lambda>r. r\<lparr>revoked := True\<rparr>) rs) = anchor_keys rs"
  by (induction rs) (auto simp: anchor_keys_def)

lemma anchor_keys_snoc:
  "distinct (anchor_keys (rs @ [new_record e i h])) \<longleftrightarrow>
     distinct (anchor_keys rs) \<and> \<not> has_anchor i h rs"
  by (auto simp: anchor_keys_def has_anchor_def new_record_def)

lemma live_revoke [simp]: "live (map (\<lambda>r. r\<lparr>revoked := True\<rparr>) rs) = []"
  by (induction rs) auto

lemma revoked_in_live: "revoked_in rs + length (live rs) = length rs"
  using sum_length_filter_compl [of revoked rs] by (simp add: revoked_in_def)

lemma live_mark_none:
  "\<not> has_live_anchor i h rs \<Longrightarrow> live (map (mark_record i h) rs) = live rs"
  by (induction rs) (auto simp: has_live_anchor_def mark_record_def)

lemma live_mark_one:
  assumes "distinct (anchor_keys rs)" and "has_live_anchor i h rs"
  shows "length (live rs) = length (live (map (mark_record i h) rs)) + 1"
  using assms
proof (induction rs)
  case (Cons r rs)
  show ?case
  proof (cases "vc_hash_of r = h \<and> issuer r = i")
    case True
    then have "\<not> has_live_anchor i h rs" and "\<not> revoked r"
      using Cons.prems by (auto simp: has_live_anchor_def anchor_keys_def image_iff)
    moreover have "mark_record i h r = r\<lparr>revoked := True\<rparr>" using True by (simp add: mark_record_def)
    ultimately show ?thesis using live_mark_none [of i h rs] by simp
  next
    case False
    then have "has_live_anchor i h rs"
      using Cons.prems(2) by (auto simp: has_live_anchor_def)
    moreover have "mark_record i h r = r" using False by (auto simp: mark_record_def)
    moreover have "distinct (anchor_keys rs)" using Cons.prems(1) by (simp add: anchor_keys_def)
    ultimately show ?thesis using Cons.IH by simp
  qed
qed (simp add: has_live_anchor_def)

lemma io_anchors_total:
  "entry_of length (io_vc_anchors s a) = length (io_anchors s a)"
  "entry_of revoked_in (io_vc_anchors s a) = revoked_in (io_anchors s a)"
  by (cases "io_vc_anchors s a"; simp add: io_anchors_def revoked_in_def)+

text \<open>How a write to one subject's anchors keeps the book-keeping.\<close>

lemma io_creds_update:
  assumes ok: "io_creds_ok s"
    and anc: "\<And>b. b \<noteq> a \<Longrightarrow> io_vc_anchors s' b = io_vc_anchors s b" "io_anchors s' a = rs'"
    and fin: "finite (dom (io_vc_anchors s')) = finite (dom (io_vc_anchors s))"
    and keys: "distinct (anchor_keys rs')"
    and tot: "unat (total_vcs_anchored (io_load_protocol_stats s')) + length (io_anchors s a)
        = unat (total_vcs_anchored (io_load_protocol_stats s)) + length rs'"
    and rev: "unat (total_vcs_revoked (io_load_protocol_stats s')) + revoked_in (io_anchors s a)
        = unat (total_vcs_revoked (io_load_protocol_stats s)) + revoked_in rs'"
    and reg: "io_registry_id s' = io_registry_id s"
    and cnt: "\<And>b. b \<noteq> a \<Longrightarrow> io_active_vc_count s' b = io_active_vc_count s b"
    and cur: "io_registry_id s = None \<Longrightarrow> length (live rs') \<le> 100 \<and>
        (\<forall>c. io_active_vc_count s' a = Some c \<longrightarrow> unat c = length (live rs'))"
  shows "io_creds_ok s'"
proof -
  have upd: "io_vc_anchors s' = (io_vc_anchors s)(a := io_vc_anchors s' a)"
    using anc(1) by auto
  have f: "finite (dom (io_vc_anchors s))" using ok by (simp add: io_creds_ok_def)
  note e = io_anchors_total [of s' a] io_anchors_total [of s a]
  have t1: "map_total length (io_vc_anchors s') + length (io_anchors s a) =
      map_total length (io_vc_anchors s) + length rs'"
    using map_total_update [OF f, of length a "io_vc_anchors s' a"] e anc(2) upd by simp
  have t2: "map_total revoked_in (io_vc_anchors s') + revoked_in (io_anchors s a) =
      map_total revoked_in (io_vc_anchors s) + revoked_in rs'"
    using map_total_update [OF f, of revoked_in a "io_vc_anchors s' a"] e anc(2) upd by simp
  have other: "b \<noteq> a \<Longrightarrow> io_anchors s' b = io_anchors s b" for b
    using anc(1) by (simp add: io_anchors_def)
  have "distinct (anchor_keys (io_anchors s' b))" for b
    using ok other keys anc(2) by (cases "b = a") (auto simp: io_creds_ok_def)
  moreover have "length (live (io_anchors s' b)) \<le> 100 \<and>
      (\<forall>c. io_active_vc_count s' b = Some c \<longrightarrow> unat c = length (live (io_anchors s' b)))"
    if "io_registry_id s = None" for b
    using ok other cnt cur [OF that] anc(2) that by (cases "b = a") (auto simp: io_creds_ok_def)
  ultimately show ?thesis
    using ok t1 t2 tot rev fin f reg by (simp add: io_creds_ok_def)
qed

lemma io_creds_registry:
  assumes "io_creds_ok s" and "io_registry_id s = None"
  shows "length (live (io_anchors s a)) \<le> 100"
    and "io_active_vc_count s a = Some c \<Longrightarrow> unat c = length (live (io_anchors s a))"
  using assms by (simp_all add: io_creds_ok_def)

lemma record_revoked_unlinked: "io_registry_id s = None \<Longrightarrow> record_revoked rq s r = revoked r"
  by (simp add: record_revoked_def)

lemma io_anchor_vc_typed_creds:
  assumes "io_anchor_vc_typed e rq issu subj h ty s = Ok s'" and ok: "io_creds_ok s"
  shows "io_creds_ok s'"
proof (cases "has_anchor issu h (io_anchors s subj)")
  case True
  then show ?thesis using io_anchor_vc_typed_Ok [OF assms(1)] ok by simp
next
  case False
  let ?rs = "io_anchors s subj @ [new_record e issu h]"
  obtain c n where f: "length (filter (\<lambda>r. \<not> record_revoked rq s r) (io_anchors s subj)) < 100"
      "io_vc_anchors s' = (io_vc_anchors s)(subj \<mapsto> ?rs)" "io_rest s' = io_rest s"
      "io_active_vc_count s' = (io_active_vc_count s)(subj \<mapsto> c)"
      "unat c = (case io_active_vc_count s subj of
            Some old \<Rightarrow> unat old + (if record_revoked rq s (new_record e issu h) then 0 else 1)
          | None \<Rightarrow> length (filter (\<lambda>r. \<not> record_revoked rq s r) ?rs))"
      "checked_add (total_vcs_anchored (io_load_protocol_stats s)) 1 = Some n"
      "io_load_protocol_stats s' = (io_load_protocol_stats s)\<lparr>total_vcs_anchored := n\<rparr>"
    using io_anchor_vc_typed_Ok [OF assms(1)] False by auto
  have reg: "io_registry_id s' = io_registry_id s" using io_rest_fields(2) [OF f(3)] .
  have new: "\<not> revoked (new_record e issu h)" by (simp add: new_record_def)
  show ?thesis
  proof (rule io_creds_update [OF ok, of subj s' ?rs])
    show "distinct (anchor_keys ?rs)"
      using ok False by (simp add: anchor_keys_snoc io_creds_ok_def)
    show "unat (total_vcs_anchored (io_load_protocol_stats s')) + length (io_anchors s subj)
        = unat (total_vcs_anchored (io_load_protocol_stats s)) + length ?rs"
      using unat_checked_add [OF f(6)] f(7) by simp
    show "unat (total_vcs_revoked (io_load_protocol_stats s')) + revoked_in (io_anchors s subj)
        = unat (total_vcs_revoked (io_load_protocol_stats s)) + revoked_in ?rs"
      using f(7) new by (simp add: revoked_in_def)
    show "length (live ?rs) \<le> 100 \<and>
        (\<forall>c. io_active_vc_count s' subj = Some c \<longrightarrow> unat c = length (live ?rs))"
      if "io_registry_id s = None"
      using f(1,4,5) new io_creds_registry(2) [OF ok that, of subj]
      by (auto simp: record_revoked_unlinked [OF that] split: option.splits)
  qed (use f(2,4) reg in \<open>auto simp: io_anchors_def\<close>)
qed

lemma io_mark_vc_revoked_creds:
  assumes "io_mark_vc_revoked e rq issu subj h s = Ok s'" and ok: "io_creds_ok s"
  shows "io_creds_ok s'"
proof -
  let ?rs = "io_anchors s subj"
  let ?rs' = "map (mark_record issu h) ?rs"
  note m = io_mark_vc_revoked_Ok [OF assms(1)]
  have reg: "io_registry_id s' = io_registry_id s"
    using m io_rest_fields(2) by blast
  have keys: "distinct (anchor_keys ?rs)" using ok by (simp add: io_creds_ok_def)
  have anch: "total_vcs_anchored (io_load_protocol_stats s') = total_vcs_anchored (io_load_protocol_stats s)"
    using m by (auto split: if_splits)
  have count: "(if has_live_anchor issu h ?rs then length (live ?rs) = length (live ?rs') + 1
       else length (live ?rs) = length (live ?rs'))"
    using live_mark_one [OF keys, of issu h] live_mark_none [of issu h ?rs] by auto
  have len: "revoked_in ?rs' + length (live ?rs') = revoked_in ?rs + length (live ?rs)"
    unfolding revoked_in_live by simp
  have cnt: "\<And>b. b \<noteq> subj \<Longrightarrow> io_active_vc_count s' b = io_active_vc_count s b"
    using m by (auto split: if_splits option.splits)
  show ?thesis
  proof (rule io_creds_update [OF ok, of subj s' ?rs'])
    show "unat (total_vcs_revoked (io_load_protocol_stats s')) + revoked_in ?rs
        = unat (total_vcs_revoked (io_load_protocol_stats s)) + revoked_in ?rs'"
    proof (cases "has_live_anchor issu h ?rs")
      case True
      then obtain n where "checked_add (total_vcs_revoked (io_load_protocol_stats s)) 1 = Some n"
          "io_load_protocol_stats s' = (io_load_protocol_stats s)\<lparr>total_vcs_revoked := n\<rparr>"
        using m by auto
      then show ?thesis using unat_checked_add [of _ 1 n] count len True by simp
    next
      case False
      then have "io_load_protocol_stats s' = io_load_protocol_stats s" using m by auto
      then show ?thesis using count len False by simp
    qed
    show "length (live ?rs') \<le> 100 \<and>
        (\<forall>c. io_active_vc_count s' subj = Some c \<longrightarrow> unat c = length (live ?rs'))"
      if n: "io_registry_id s = None"
    proof -
      have eq: "filter (\<lambda>r. \<not> record_revoked rq s r) xs = live xs" for xs
        by (simp add: record_revoked_unlinked [OF n])
      show ?thesis
      proof (cases "has_live_anchor issu h ?rs")
      case True
      then obtain c where "io_active_vc_count s' subj = Some c"
          "case io_active_vc_count s subj of
            Some old \<Rightarrow> unat old = unat c + 1 | None \<Rightarrow> unat c = length (live ?rs')"
        using m [unfolded eq] by fastforce
      then show ?thesis
        using count True io_creds_registry [OF ok n, of subj] by (auto split: option.splits)
    next
      case False
      then have "case io_active_vc_count s subj of
            Some old \<Rightarrow> io_active_vc_count s' subj = Some old
          | None \<Rightarrow> \<exists>c. io_active_vc_count s' subj = Some c \<and> unat c = length (live ?rs')"
        using m [unfolded eq] by (fastforce split: option.splits)
      then show ?thesis
        using count False io_creds_registry [OF ok n, of subj] by (auto split: option.splits)
      qed
    qed
  qed (use m keys reg anch cnt in \<open>auto simp: io_anchors_def\<close>)
qed

lemma deactivate_core_creds:
  assumes "deactivate_core e subj s = Some (n, s')" and ok: "io_creds_ok s"
  shows "io_creds_ok s'"
proof -
  note d = deactivate_core_Some [OF assms(1)]
  let ?rs' = "map (\<lambda>r. r\<lparr>revoked := True\<rparr>) (io_anchors s subj)"
  have reg: "io_registry_id s' = io_registry_id s"
    using d io_rest_fields(2) by blast
  have len: "revoked_in ?rs' = revoked_in (io_anchors s subj) + length (live (io_anchors s subj))"
    using revoked_in_live [of ?rs'] revoked_in_live [of "io_anchors s subj"] by simp
  show ?thesis
    by (rule io_creds_update [OF ok, of subj s' ?rs'])
       (use d reg len ok in \<open>simp_all add: io_creds_ok_def\<close>)
qed

lemma io_get_active_vc_count_creds:
  assumes "io_get_active_vc_count rq a s = Some (c, s')" and ok: "io_creds_ok s"
  shows "io_creds_ok s' \<and> io_rest s' = io_rest s"
proof (cases "io_active_vc_count s a")
  case None
  then have "seed_active_vc_count rq a s = Some (c, s')"
    using assms(1) by (simp add: io_get_active_vc_count_def)
  note d = seed_Some [OF this]
  have "io_creds_ok s'"
    by (rule io_creds_update [OF ok, of a s' "io_anchors s a"])
       (use d ok in \<open>auto simp: io_creds_ok_def io_anchors_def io_load_protocol_stats_def
          record_revoked_unlinked\<close>)
  then show ?thesis using d by (simp add: io_rest_def)
qed (use assms in \<open>simp add: io_get_active_vc_count_def\<close>)

text \<open>The calls that are not about a subject's credentials leave them as they are.\<close>

fun io_credential_call :: "io_call \<Rightarrow> bool" where
  "io_credential_call (IoDeactivateDidCall _) = True"
| "io_credential_call (IoAnchorVcCall _ _ _) = True"
| "io_credential_call (IoAnchorVcTypedCall _ _ _ _) = True"
| "io_credential_call (IoMarkVcRevokedCall _ _ _) = True"
| "io_credential_call (IoDeactivateIdentityCall _) = True"
| "io_credential_call (IoGetActiveVcCountCall _) = True"
| "io_credential_call _ = False"

fun io_issuer_call :: "io_call \<Rightarrow> bool" where
  "io_issuer_call (IoRegisterIssuerCall _) = True"
| "io_issuer_call (IoDeregisterIssuerCall _) = True"
| "io_issuer_call _ = False"

lemmas io_admin_defs =
  io_initialize_def io_pause_def io_unpause_def io_migrate_def io_set_revocation_registry_def
  io_propose_new_admin_def io_accept_admin_def io_upgrade_def io_maintain_storage_def
  io_register_issuer_def io_deregister_issuer_def io_set_issuer_tier_def io_reactivate_identity_def
  io_require_admin_def io_ensure_not_paused_def io_publish_def Let_def

lemma io_anchor_did_Ok:
  "io_anchor_did e a c s = Ok s' \<longleftrightarrow>
     \<not> io_is_paused s \<and> authorized e a \<and> 7 \<le> length c \<and> length c \<le> 128 \<and>
     cid_prefix_valid c = Some True \<and>
     (\<exists>n. checked_add (total_dids_anchored (io_load_protocol_stats s)) 1 = Some n \<and>
       s' = io_publish (DIDAnch a c)
         (s\<lparr>io_did_document := (io_did_document s)(a \<mapsto> c),
            io_last_state_change := (io_last_state_change s)(a \<mapsto> ledger_sequence e),
            io_stats := Some ((io_load_protocol_stats s)\<lparr>total_dids_anchored := n\<rparr>)\<rparr>))"
  by (auto simp: io_anchor_did_def io_ensure_not_paused_def io_is_paused_def Let_def
      increment_simps record_last_state_change_def io_load_protocol_stats_def MAX_CID_LENGTH_def
      split: option.splits bool.splits)

lemma io_local_Ok [simp]:
  "io_local f (s, w) = Ok (s', w') \<longleftrightarrow> f s = Ok s' \<and> w' = w"
  by (auto simp: io_local_def)

lemma io_other_call_frame:
  assumes "io_exec e rq link c (s, w) = Ok (s', w')" and "\<not> io_credential_call c"
  shows "io_vc_anchors s' = io_vc_anchors s \<and> io_active_vc_count s' = io_active_vc_count s \<and>
    total_vcs_anchored (io_load_protocol_stats s') = total_vcs_anchored (io_load_protocol_stats s) \<and>
    total_vcs_revoked (io_load_protocol_stats s') = total_vcs_revoked (io_load_protocol_stats s) \<and>
    (io_registry_id s' = None \<longrightarrow> io_registry_id s = None) \<and>
    (\<not> io_issuer_call c \<longrightarrow>
       io_trusted_issuer s' = io_trusted_issuer s \<and> io_issuers_index s' = io_issuers_index s)"
proof (cases c)
  case (IoAnchorDidCall a cid)
  then show ?thesis using assms by (auto simp: io_anchor_did_Ok io_publish_def io_load_protocol_stats_def)
qed (use assms in \<open>auto simp: io_admin_defs record_last_state_change_def io_load_protocol_stats_def
       split: option.splits if_splits\<close>)

lemma io_exec_creds:
  assumes "io_exec e rq link c (s, w) = Ok (s', w')" and "io_creds_ok s"
  shows "io_creds_ok s' \<and>
    (io_credential_call c \<longrightarrow> io_trusted_issuer s' = io_trusted_issuer s \<and>
        io_issuers_index s' = io_issuers_index s)"
proof (cases "io_credential_call c")
  case False
  then show ?thesis
    using io_other_call_frame [OF assms(1)] assms(2) by (simp add: io_creds_ok_def io_anchors_def)
next
  case True
  have anchor: "io_anchor_vc_typed e rq i a h ty s = Ok s' \<Longrightarrow>
      io_creds_ok s' \<and> io_rest s' = io_rest s" for i a h ty
    using io_anchor_vc_typed_creds [of e rq i a h ty s s'] io_anchor_vc_typed_Ok [of e rq i a h ty s s']
      assms(2) by (auto split: if_splits)
  have core: "deactivate_core e a s = Some (n, t) \<Longrightarrow> io_creds_ok t \<and> io_rest t = io_rest s" for a n t
    using deactivate_core_creds [of e a s n t] deactivate_core_Some [of e a s n t] assms(2) by blast
  have "io_creds_ok s' \<and> io_rest s' = io_rest s"
    using True
  proof (cases c)
    case (IoDeactivateDidCall a)
    then obtain n t where "deactivate_core e a s = Some (n, t)"
        "s' = io_publish (DIDDeact a) (t\<lparr>io_did_document := (io_did_document t)(a := None)\<rparr>)"
      using assms(1) by (auto simp: io_deactivate_did_def split: if_splits)
    then show ?thesis using core
      by (auto simp: io_publish_def io_creds_ok_def io_anchors_def io_load_protocol_stats_def io_rest_def)
  next
    case (IoDeactivateIdentityCall a)
    then obtain n t where "deactivate_core e a s = Some (n, t)" "s' = io_publish (IdDeact a n) t"
      using assms(1) by (auto simp: io_deactivate_identity_def split: if_splits)
    then show ?thesis using core
      by (auto simp: io_publish_def io_creds_ok_def io_anchors_def io_load_protocol_stats_def io_rest_def)
  next
    case (IoMarkVcRevokedCall i a h)
    then have m: "io_mark_vc_revoked e rq i a h s = Ok s'" using assms(1) by simp
    show ?thesis using io_mark_vc_revoked_creds [OF m assms(2)] io_mark_vc_revoked_Ok [OF m] by blast
  next
    case (IoGetActiveVcCountCall a)
    then obtain n where "io_get_active_vc_count rq a s = Some (n, s')" using assms(1) by auto
    then show ?thesis using io_get_active_vc_count_creds assms(2) by blast
  qed (use assms(1) in \<open>auto simp: io_anchor_vc_def intro: anchor [THEN conjunct1] anchor [THEN conjunct2]\<close>)
  then show ?thesis using io_rest_fields(3,4) by blast
qed

lemma io_register_issuer_ok:
  assumes "io_register_issuer e a s = Ok s'" and "io_issuers_ok s"
  shows "io_issuers_ok s' \<and> (\<forall>b. io_trusted s' b \<longleftrightarrow> b = a \<or> io_trusted s b)"
proof -
  have t: "io_trusted s' b \<longleftrightarrow> b = a \<or> io_trusted s b" for b
    using assms(1) by (auto simp: io_admin_defs io_trusted_def split: option.splits if_splits)
  have "io_index s' = (if io_trusted s a then io_index s else io_index s @ [a])"
    using assms(1) by (auto simp: io_admin_defs io_index_def split: option.splits if_splits)
  then show ?thesis using t assms(2) by (auto simp: io_issuers_ok_def)
qed

lemma io_deregister_issuer_ok:
  assumes "io_deregister_issuer e a s = Ok s'" and "io_issuers_ok s"
  shows "io_issuers_ok s' \<and> (\<forall>b. io_trusted s' b \<longleftrightarrow> b \<noteq> a \<and> io_trusted s b)"
proof -
  have t: "io_trusted s' b \<longleftrightarrow> b \<noteq> a \<and> io_trusted s b" for b
    using assms(1) by (auto simp: io_admin_defs io_trusted_def split: option.splits if_splits)
  have f: "io_trusted (s\<lparr>io_trusted_issuer := (io_trusted_issuer s)(a \<mapsto> False)\<rparr>) = io_trusted s'"
    using t by (auto simp: io_trusted_def fun_eq_iff)
  have "io_index s' = filter (io_trusted s') (io_index s)"
    using assms(1) unfolding f [symmetric]
    by (auto simp: io_admin_defs compact_loop_eq io_index_def split: option.splits if_splits)
  then show ?thesis using t assms(2) by (auto simp: io_issuers_ok_def)
qed

lemma io_exec_inv:
  assumes "io_exec e rq link c (s, w) = Ok (s', w')" and "io_inv s"
  shows "io_inv s'"
proof -
  have "io_issuers_ok s'"
  proof (cases "io_issuer_call c")
    case True
    then show ?thesis
      using assms io_register_issuer_ok [of e _ s s'] io_deregister_issuer_ok [of e _ s s']
      by (cases c) (auto simp: io_inv_def)
  next
    case False
    then have "io_trusted_issuer s' = io_trusted_issuer s \<and> io_issuers_index s' = io_issuers_index s"
      using io_other_call_frame [OF assms(1)] io_exec_creds [OF assms(1)] assms(2)
      by (auto simp: io_inv_def)
    then show ?thesis
      using assms(2) by (simp add: io_inv_def io_issuers_ok_def io_index_def io_trusted_def)
  qed
  then show ?thesis using io_exec_creds [OF assms(1)] assms(2) by (simp add: io_inv_def)
qed

lemma io_new_inv: "io_inv io_new"
  by (simp add: io_inv_def io_issuers_ok_def io_creds_ok_def io_new_def io_index_def io_trusted_def
      io_anchors_def anchor_keys_def io_load_protocol_stats_def io_default_stats_def)

lemma io_reachable_inv: "io_reachable sw \<Longrightarrow> io_inv (fst sw)"
proof (induction rule: io_reachable.induct)
  case (io_start w)
  show ?case by (simp add: io_new_inv)
next
  case (io_step sw e rq link c sw')
  then show ?case
    using io_exec_inv [of e rq link c "fst sw" "snd sw" "fst sw'" "snd sw'"] by simp
qed

section \<open>The shared contracts, interpreted\<close>

interpretation io_issuer_index: flag_index io_issuers_ok io_trusted io_list_issuers
  io_register_issuer io_deregister_issuer
proof unfold_locales
  fix s
  assume "io_issuers_ok s"
  then show "distinct (io_list_issuers s) \<and> set (io_list_issuers s) = {a. io_trusted s a}"
    by (auto simp: io_list_issuers_eq io_issuers_ok_def)
qed (use io_register_issuer_ok io_deregister_issuer_ok in blast)+

interpretation io_handover: admin_handover io_admin io_pending_admin io_propose_new_admin io_accept_admin
  by unfold_locales (auto simp: io_admin_defs split: option.splits if_splits)

interpretation io_init: one_shot_init io_admin io_initialize
  by unfold_locales (auto simp: io_admin_defs split: if_splits)

text \<open>The calls that check the pause flag before anything else.\<close>

fun io_pause_guarded :: "io_call \<Rightarrow> bool" where
  "io_pause_guarded (IoSetRegistryCall _) = True"
| "io_pause_guarded (IoAnchorDidCall _ _) = True"
| "io_pause_guarded (IoAnchorVcCall _ _ _) = True"
| "io_pause_guarded (IoAnchorVcTypedCall _ _ _ _) = True"
| "io_pause_guarded (IoMarkVcRevokedCall _ _ _) = True"
| "io_pause_guarded (IoSetIssuerTierCall _ _ _) = True"
| "io_pause_guarded (IoProposeAdminCall _) = True"
| "io_pause_guarded (IoAcceptAdminCall _) = True"
| "io_pause_guarded (IoUpgradeCall _) = True"
| "io_pause_guarded IoMaintainCall = True"
| "io_pause_guarded _ = False"

lemma io_paused_blocks:
  "io_is_paused s \<Longrightarrow> io_pause_guarded c \<Longrightarrow> io_exec e rq link c (s, w) = Err IoContractPaused"
  by (cases c) (auto simp: io_local_def io_admin_defs io_is_paused_def io_anchor_did_def
      io_anchor_vc_def io_anchor_vc_typed_def io_mark_vc_revoked_def)

interpretation io_switch: pause_switch io_is_paused io_pause io_unpause io_pause_guarded
  "\<lambda>e c s. outcome_bind (io_exec e rq link c (s, w)) (\<lambda>(s', _). Ok s')" for rq link w
  by unfold_locales
     (auto simp: io_admin_defs io_is_paused_def io_paused_blocks [unfolded io_is_paused_def]
      split: option.splits if_splits)

section \<open>Properties\<close>

text \<open>A concrete run, shared by the witnesses: one issuer, one anchored credential.\<close>

definition io_demo_env :: env where
  "io_demo_env = \<lparr>ledger_sequence = 1000, ledger_timestamp = 5000,
     signers = {''admin'', ''issuer'', ''bob''}, invoker = None, current_contract = ''identity'',
     call_stack = []\<rparr>"

definition io_demo_query :: registry_query where
  "io_demo_query a h = Some False"

definition io_demo_link :: "unit link_call" where
  "io_demo_link e a b w = Some w"

definition io_demo_record :: identity_vc_record where
  "io_demo_record = \<lparr>vc_hash_of = [7], issuer = ''issuer'', anchored_at = 5000, revoked = False\<rparr>"

definition io_demo_empty :: io_state where
  "io_demo_empty = io_new\<lparr>io_admin := Some ''admin'', io_storage_version := Some 2,
     io_issuers_index := Some [''issuer''], io_trusted_issuer := [''issuer'' \<mapsto> True],
     io_events := [IoInitialized ''admin'', IssReg ''issuer'']\<rparr>"

definition io_demo_state :: io_state where
  "io_demo_state = io_demo_empty\<lparr>io_vc_anchors := [''bob'' \<mapsto> [io_demo_record]],
     io_active_vc_count := [''bob'' \<mapsto> 1],
     io_vc_credential_type := [(''bob'', [7]) \<mapsto> generic_credential_type],
     io_stats := Some \<lparr>total_dids_anchored = 0, total_vcs_anchored = 1, total_vcs_revoked = 0\<rparr>,
     io_last_state_change := [''bob'' \<mapsto> 1000],
     io_events := [IoInitialized ''admin'', IssReg ''issuer'', VCAnch ''issuer'' ''bob'' [7]]\<rparr>"

lemmas io_demo_defs = io_demo_env_def io_demo_query_def io_demo_link_def io_demo_record_def
  io_demo_empty_def io_demo_state_def io_new_def

lemma io_demo_empty_reachable: "io_reachable (io_demo_empty, ())"
proof -
  let ?s = "io_new\<lparr>io_admin := Some ''admin'', io_storage_version := Some 2,
              io_events := [IoInitialized ''admin'']\<rparr>"
  have "io_exec io_demo_env io_demo_query io_demo_link (IoInitializeCall ''admin'') (io_new, ()) = Ok (?s, ())"
    by (simp add: io_admin_defs io_demo_defs authorized_def)
  then have "io_reachable (?s, ())" by (rule io_step [OF io_start])
  moreover have "io_exec io_demo_env io_demo_query io_demo_link (IoRegisterIssuerCall ''issuer'') (?s, ())
      = Ok (io_demo_empty, ())"
    by (simp add: io_admin_defs io_demo_defs authorized_def io_trusted_def io_index_def)
  ultimately show ?thesis by (rule io_step)
qed

lemma io_demo_anchor:
  "io_exec io_demo_env io_demo_query io_demo_link (IoAnchorVcCall ''issuer'' ''bob'' [7])
     (io_demo_empty, ()) = Ok (io_demo_state, ())"
  by (simp add: io_anchor_vc_def io_anchor_vc_typed_def io_ensure_not_paused_def io_demo_defs
      authorized_def io_trusted_def has_anchor_def io_anchors_def MAX_VCS_PER_SUBJECT_def
      is_record_revoked_def store_credential_type_def record_last_state_change_def
      bump_active_count_def load_active_vc_count_def seed_active_vc_count_def
      compute_active_vc_count_def checked_add_def increment_vcs_anchored_def io_publish_def
      io_save_protocol_stats_def io_load_protocol_stats_def io_default_stats_def Let_def)

lemma io_demo_reachable: "io_reachable (io_demo_state, ())"
  by (rule io_step [OF io_demo_empty_reachable io_demo_anchor])

text \<open>C6: In every reachable state of the identity-oracle the issuer listing is exactly the trusted
  issuers, without repetition; no subject holds the same (hash, issuer) pair twice; the
  protocol counters equal the number of anchored and of revoked records over all subjects; and
  while no revocation registry is linked, every subject has at most 100 live credentials and
  every cached active count is exact.\<close>

theorem io_state_invariant:
  assumes "io_reachable (s, w)"
  shows "distinct (io_list_issuers s) \<and> set (io_list_issuers s) = {a. io_trusted s a}
    \<and> (\<forall>a. distinct (anchor_keys (io_anchors s a)))
    \<and> unat (total_vcs_anchored (io_get_protocol_stats s)) = map_total length (io_vc_anchors s)
    \<and> unat (total_vcs_revoked (io_get_protocol_stats s)) = map_total revoked_in (io_vc_anchors s)
    \<and> (io_registry_id s = None \<longrightarrow> (\<forall>a. length (live (io_anchors s a)) \<le> 100 \<and>
          (\<forall>c. io_active_vc_count s a = Some c \<longrightarrow> unat c = length (live (io_anchors s a)))))"
proof -
  have "io_inv s" using io_reachable_inv [OF assms] by simp
  then show ?thesis
    using io_issuer_index.listing_exact [of s]
    by (simp add: io_inv_def io_creds_ok_def io_get_protocol_stats_def)
qed

theorem io_state_invariant_witness:
  "unat (total_vcs_anchored (io_get_protocol_stats io_demo_state)) =
     map_total length (io_vc_anchors io_demo_state)"
  using io_state_invariant [OF io_demo_reachable] by blast

subsection \<open>Credentials are permanent\<close>

text \<open>One list of anchors extends another: same records in front, revocations one way.\<close>

definition anchors_extend :: "identity_vc_record list \<Rightarrow> identity_vc_record list \<Rightarrow> bool" where
  "anchors_extend rs rs' \<longleftrightarrow>
     (\<exists>mid new. rs' = mid @ new \<and>
        list_all2 (\<lambda>r r'. r' = r \<or> r' = r\<lparr>revoked := True\<rparr>) rs mid)"

lemma anchors_extend_refl [simp]: "anchors_extend rs rs"
  unfolding anchors_extend_def by (intro exI [of _ rs] exI [of _ "[]"]) (simp add: list_all2_refl)

lemma anchors_extend_map:
  "(\<And>r. r \<in> set rs \<Longrightarrow> f r = r \<or> f r = r\<lparr>revoked := True\<rparr>) \<Longrightarrow> anchors_extend rs (map f rs)"
  unfolding anchors_extend_def
  by (intro exI [of _ "map f rs"] exI [of _ "[]"]) (auto simp: list_all2_conv_all_nth)

lemma anchors_extend_append [simp]: "anchors_extend rs (rs @ new)"
  unfolding anchors_extend_def by (intro exI [of _ rs] exI [of _ new]) (simp add: list_all2_refl)

lemma anchors_extend_revoke [simp]: "anchors_extend rs (map (\<lambda>r. r\<lparr>revoked := True\<rparr>) rs)"
  by (rule anchors_extend_map) simp

lemma anchors_extend_mark [simp]: "anchors_extend rs (map (mark_record i h) rs)"
  by (rule anchors_extend_map) (simp add: mark_record_def)

text \<open>C19: The credential history of a subject is permanent: whatever call succeeds, every anchored
  record stays at its place with its hash, issuer and anchoring time, new records are only
  appended, and a record marked revoked stays revoked.\<close>

theorem io_anchors_permanent:
  assumes "io_exec e rq link c (s, w) = Ok (s', w')"
  shows "anchors_extend (io_anchors s a) (io_anchors s' a)"
proof (cases "io_credential_call c")
  case False
  then show ?thesis using io_other_call_frame [OF assms] by (simp add: io_anchors_def)
next
  case True
  have anchor: "io_anchor_vc_typed e rq i b h ty s = Ok s' \<Longrightarrow>
      anchors_extend (io_anchors s a) (io_anchors s' a)" for i b h ty
    using io_anchor_vc_typed_Ok [of e rq i b h ty s s']
    by (cases "a = b") (auto simp: io_anchors_def split: if_splits)
  have core: "deactivate_core e b s = Some (n, t) \<Longrightarrow>
      anchors_extend (io_anchors s a) (io_anchors t a)" for b n t
    using deactivate_core_Some [of e b s n t]
    by (cases "a = b") (auto simp: io_anchors_def)
  show ?thesis
    using True
  proof (cases c)
    case (IoDeactivateDidCall b)
    then show ?thesis using assms core
      by (fastforce simp: io_deactivate_did_def io_publish_def io_anchors_def split: if_splits)
  next
    case (IoDeactivateIdentityCall b)
    then show ?thesis using assms core
      by (fastforce simp: io_deactivate_identity_def io_publish_def io_anchors_def split: if_splits)
  next
    case (IoMarkVcRevokedCall i b h)
    then have "io_mark_vc_revoked e rq i b h s = Ok s'" using assms by simp
    from io_mark_vc_revoked_Ok [OF this] show ?thesis
      by (cases "a = b") (auto simp: io_anchors_def)
  next
    case (IoGetActiveVcCountCall b)
    then show ?thesis using assms seed_Some [of rq b s]
      by (auto simp: io_get_active_vc_count_def io_anchors_def split: option.splits)
  qed (use anchor assms in \<open>auto simp: io_anchor_vc_def\<close>)
qed

theorem io_anchors_permanent_witness:
  "anchors_extend (io_anchors io_demo_empty ''bob'') (io_anchors io_demo_state ''bob'')"
  by (rule io_anchors_permanent [OF io_demo_anchor])

subsection \<open>DID documents\<close>

lemma cid_starts_with_short:
  assumes "length c \<le> 128" and "length p \<le> 128"
  shows "cid_starts_with c p = Some (take (length p) c = p)"
proof (cases "length c < length p")
  case True
  then have "length (take (length p) c) \<noteq> length p" by simp
  then have "take (length p) c \<noteq> p" by (rule contrapos_nn) (rule arg_cong)
  then show ?thesis using True by (simp add: cid_starts_with_def)
qed (use assms in \<open>simp add: cid_starts_with_def MAX_CID_LENGTH_def\<close>)

text \<open>What the contract accepts as a content identifier.\<close>

definition cid_acceptable :: "string \<Rightarrow> bool" where
  "cid_acceptable c \<longleftrightarrow> 7 \<le> length c \<and> length c \<le> 128 \<and>
     (take 7 c = ''ipfs://'' \<or> take 4 c = ''bafy'' \<or> take 2 c = ''Qm'')"

lemma cid_prefix_valid_short:
  assumes "length c \<le> 128"
  shows "cid_prefix_valid c =
    Some (take 7 c = ''ipfs://'' \<or> take 4 c = ''bafy'' \<or> take 2 c = ''Qm'')"
  by (auto simp: cid_prefix_valid_def cid_starts_with_short [OF assms] eval_nat_numeral
      split: bool.splits)

text \<open>C26: \<open>anchor_did\<close> on every branch: a paused contract refuses, a missing signature traps, a CID
  outside the accepted shape is \<open>InvalidCID\<close> (the fixed 128-byte buffers never overflow), an
  accepted CID is stored for the subject, stamps the change ledger and adds one to the counter,
  and the only other way to fail is the counter's own overflow. The shape is a length from 7 to 128 and one of
  three prefixes, nothing more: \<open>docs/did-spec.md\<close> asks besides that a \<open>Qm\<close> identifier have exactly 46 characters
  and that one of the other two prefixes follow \<open>ipfs://\<close>, which the code does not check.\<close>

theorem io_anchor_did_exact:
  "io_anchor_did e a c s =
     (if io_is_paused s then Err IoContractPaused
      else if \<not> authorized e a then Trap
      else if \<not> cid_acceptable c then Err InvalidCID
      else case checked_add (total_dids_anchored (io_get_protocol_stats s)) 1 of
             None \<Rightarrow> Trap
           | Some n \<Rightarrow> Ok (io_publish (DIDAnch a c)
               (s\<lparr>io_did_document := (io_did_document s)(a \<mapsto> c),
                  io_last_state_change := (io_last_state_change s)(a \<mapsto> ledger_sequence e),
                  io_stats := Some ((io_get_protocol_stats s)\<lparr>total_dids_anchored := n\<rparr>)\<rparr>)))"
proof (cases "length c \<le> 128")
  case True
  have ld: "io_load_protocol_stats (s\<lparr>io_did_document := d, io_last_state_change := l\<rparr>)
      = io_load_protocol_stats s" for d l
    by (simp add: io_load_protocol_stats_def)
  show ?thesis
    unfolding io_anchor_did_def cid_prefix_valid_short [OF True]
    by (auto simp: io_ensure_not_paused_def io_is_paused_def cid_acceptable_def MAX_CID_LENGTH_def True
        increment_dids_anchored_def Let_def ld io_get_protocol_stats_def io_save_protocol_stats_def
        record_last_state_change_def split: option.splits bool.splits)
next
  case False
  then show ?thesis
    by (simp add: io_anchor_did_def io_ensure_not_paused_def io_is_paused_def cid_acceptable_def
        MAX_CID_LENGTH_def)
qed

subsection \<open>Deactivation\<close>

text \<open>C27: Deactivating an identity revokes all of its credentials: the returned number is how many
  were live, afterwards every anchored record is revoked, \<open>is_verified\<close> and \<open>verify_vc\<close> answer
  false whatever the registry says, the cached count is zero, and reactivation lifts the flag
  without bringing a single credential back.\<close>

theorem io_deactivation_revokes_all:
  assumes "io_deactivate_identity e a s = Ok (n, s1)" and "io_reactivate_identity e' a s1 = Ok s2"
  shows "unat n = length (live (io_anchors s a))
    \<and> io_is_deactivated s1 a \<and> \<not> io_is_deactivated s2 a
    \<and> (\<forall>t. t = s1 \<or> t = s2 \<longrightarrow>
          live (io_anchors t a) = [] \<and> length (io_anchors t a) = length (io_anchors s a) \<and>
          io_is_verified rq t a = Some False \<and> io_verify_vc rq t a h = Some False \<and>
          io_get_vc_details rq t a = Some [] \<and> io_active_vc_count t a = Some 0)"
proof -
  obtain t0 where d: "deactivate_core e a s = Some (n, t0)" and s1: "s1 = io_publish (IdDeact a n) t0"
    using assms(1) by (auto simp: io_deactivate_identity_def split: if_splits)
  have s2: "s2 = io_publish (IdReact a) (record_last_state_change e' a
               (s1\<lparr>io_deactivated := (io_deactivated s1)(a := None)\<rparr>))"
    using assms(2) by (auto simp: io_reactivate_identity_def split: if_splits)
  note core = deactivate_core_Some [OF d]
  let ?rs = "map (\<lambda>r. r\<lparr>revoked := True\<rparr>) (io_anchors s a)"
  have anch: "t = s1 \<or> t = s2 \<Longrightarrow> io_anchors t a = ?rs \<and> io_active_vc_count t a = Some 0" for t
    using core by (auto simp: s1 s2 io_publish_def record_last_state_change_def io_anchors_def)
  have dead: "exists_active rq t (map (\<lambda>r. r\<lparr>revoked := True\<rparr>) rs) = Some False"
     "verify_loop rq t h (map (\<lambda>r. r\<lparr>revoked := True\<rparr>) rs) = Some False"
     "active_records rq t (map (\<lambda>r. r\<lparr>revoked := True\<rparr>) rs) = Some []" for t rs
    by (induction rs) (simp_all add: is_record_revoked_def)
  have "io_is_deactivated s1 a \<and> \<not> io_is_deactivated s2 a"
    using core by (simp add: s1 s2 io_publish_def record_last_state_change_def io_is_deactivated_def)
  moreover have "live (io_anchors t a) = [] \<and> length (io_anchors t a) = length (io_anchors s a) \<and>
          io_is_verified rq t a = Some False \<and> io_verify_vc rq t a h = Some False \<and>
          io_get_vc_details rq t a = Some [] \<and> io_active_vc_count t a = Some 0" if "t = s1 \<or> t = s2" for t
    using anch [OF that] dead [of t "io_anchors s a"] live_revoke [of "io_anchors s a"]
    by (simp add: io_is_verified_def io_verify_vc_def io_get_vc_details_def)
  ultimately show ?thesis using core by blast
qed

definition io_demo_deactivated :: io_state where
  "io_demo_deactivated = snd (the (deactivate_core io_demo_env ''bob'' io_demo_state))"

lemma io_demo_deactivate:
  "io_deactivate_identity io_demo_env ''bob'' io_demo_state =
     Ok (1, io_publish (IdDeact ''bob'' 1) io_demo_deactivated)"
  by (simp add: io_demo_deactivated_def io_deactivate_identity_def deactivate_core_def io_demo_defs
      authorized_def io_anchors_def checked_add_def increment_vcs_revoked_def Let_def
      io_load_protocol_stats_def io_save_protocol_stats_def)

theorem io_deactivation_revokes_all_witness:
  "\<exists>s2. io_reactivate_identity io_demo_env ''bob'' (io_publish (IdDeact ''bob'' 1) io_demo_deactivated) = Ok s2
     \<and> \<not> io_is_deactivated s2 ''bob'' \<and> io_verify_vc io_demo_query s2 ''bob'' [7] = Some False"
proof -
  obtain s2 where s2: "io_reactivate_identity io_demo_env ''bob''
      (io_publish (IdDeact ''bob'' 1) io_demo_deactivated) = Ok s2"
    by (simp add: io_reactivate_identity_def io_demo_env_def authorized_def)
  then show ?thesis
    using io_deactivation_revokes_all [OF io_demo_deactivate s2, of io_demo_query "[7]"] by blast
qed

subsection \<open>The cached count and the registry\<close>

text \<open>Revoking a live record comes down to the update of the cached count.\<close>

lemma mark_live_run:
  assumes "\<not> io_is_paused s" and "authorized e issu" and "has_live_anchor issu h (io_anchors s a)"
    and "unat (total_vcs_revoked (io_get_protocol_stats s)) < 2 ^ 64 - 1"
  obtains s3 where "\<And>rq. io_mark_vc_revoked e rq issu a h s = expect (drop_active_count rq a s3)"
    and "io_active_vc_count s3 = io_active_vc_count s" and "io_registry_id s3 = io_registry_id s"
    and "io_anchors s3 a = map (mark_record issu h) (io_anchors s a)"
proof -
  let ?s1 = "s\<lparr>io_vc_anchors := (io_vc_anchors s)(a \<mapsto> map (mark_record issu h) (io_anchors s a))\<rparr>"
  let ?s2 = "record_last_state_change e a ?s1"
  have found: "has_anchor issu h (io_anchors s a)"
    using assms(3) by (auto simp: has_live_anchor_def has_anchor_def)
  have st: "io_load_protocol_stats ?s2 = io_get_protocol_stats s"
    by (simp add: io_load_protocol_stats_def io_get_protocol_stats_def record_last_state_change_def)
  obtain s3 where s3: "increment_vcs_revoked 1 ?s2 = Some s3"
    using assms(4) by (auto simp: increment_vcs_revoked_def Let_def st checked_add_def)
  have "io_mark_vc_revoked e rq issu a h s = expect (drop_active_count rq a s3)" for rq
    using assms(1-3) found s3
    by (simp add: io_mark_vc_revoked_def io_ensure_not_paused_def io_is_paused_def mark_loop_eq Let_def)
  moreover have "io_active_vc_count s3 = io_active_vc_count s" "io_registry_id s3 = io_registry_id s"
      "io_anchors s3 a = map (mark_record issu h) (io_anchors s a)"
    using s3 by (auto simp: increment_simps record_last_state_change_def io_anchors_def)
  ultimately show thesis by (rule that)
qed

lemma count_active_unlinked:
  assumes "io_registry_id s = None"
  shows "length (live rs) + unat c < 2 ^ 32 \<Longrightarrow> count_active rq s rs c \<noteq> None"
proof (induction rs arbitrary: c)
  case (Cons r rs)
  have "checked_add c 1 = Some (c + 1)" "unat (c + 1) = unat c + 1" if "\<not> revoked r"
    using Cons.prems that by (auto simp: checked_add_def unat_word_ariths)
  then show ?case
    using Cons.IH [of c] Cons.IH [of "c + 1"] Cons.prems assms
    by (auto simp: is_record_revoked_def split: option.splits bool.splits)
qed simp

text \<open>C28: The cached active count can trap a legitimate revocation: when a linked registry already
  reports a hash as revoked before its credential is anchored, anchoring caches a count without
  it, and the issuer's own \<open>mark_vc_revoked\<close> of that record then subtracts one from a count that
  may be zero and panics. While no registry is linked this cannot happen: revoking an anchored
  record of a reachable state never traps, short of the revocation counter overflowing.\<close>

theorem io_mark_revoked_underflow:
  assumes "\<not> io_is_paused s" and "authorized e issu" and "has_live_anchor issu h (io_anchors s a)"
    and "unat (total_vcs_revoked (io_get_protocol_stats s)) < 2 ^ 64 - 1"
  shows "(io_active_vc_count s a = Some 0 \<longrightarrow> io_mark_vc_revoked e rq issu a h s = Trap)
    \<and> (io_reachable (s, w) \<and> io_registry_id s = None \<longrightarrow> is_ok (io_mark_vc_revoked e rq issu a h s))"
proof -
  obtain s3 where run: "\<And>rq. io_mark_vc_revoked e rq issu a h s = expect (drop_active_count rq a s3)"
    and f: "io_active_vc_count s3 = io_active_vc_count s" "io_registry_id s3 = io_registry_id s"
      "io_anchors s3 a = map (mark_record issu h) (io_anchors s a)"
    using mark_live_run [OF assms] by blast
  have "io_mark_vc_revoked e rq issu a h s = Trap" if "io_active_vc_count s a = Some 0"
    unfolding run using that f(1) by (simp add: drop_active_count_def load_active_vc_count_def checked_sub_def)
  moreover have "is_ok (io_mark_vc_revoked e rq issu a h s)"
    if r: "io_reachable (s, w)" and n: "io_registry_id s = None"
  proof -
    have ok: "io_creds_ok s" using io_reachable_inv [OF r] by (simp add: io_inv_def)
    have pos: "0 < length (live (io_anchors s a))"
      using assms(3) by (auto simp: has_live_anchor_def filter_empty_conv)
    have cap: "length (live (map (mark_record issu h) (io_anchors s a))) \<le> 100"
      using io_creds_registry(1) [OF ok n, of a] ok live_mark_one [of "io_anchors s a" issu h] assms(3)
      by (auto simp: io_creds_ok_def)
    have "drop_active_count rq a s3 \<noteq> None"
    proof (cases "io_active_vc_count s a")
      case None
      then show ?thesis
        using count_active_unlinked [of s3 "io_anchors s3 a" 0 rq] cap f n
        by (simp add: drop_active_count_def load_active_vc_count_def seed_active_vc_count_def
            compute_active_vc_count_def)
    next
      case (Some c)
      have "1 \<le> unat c" using io_creds_registry(2) [OF ok n Some] pos by linarith
      then have "1 \<le> c" by (simp add: word_le_nat_alt)
      then show ?thesis using Some f(1)
        by (simp add: drop_active_count_def load_active_vc_count_def checked_sub_def)
    qed
    then show ?thesis unfolding run is_ok_iff by auto
  qed
  ultimately show ?thesis by blast
qed

theorem io_mark_revoked_underflow_witness:
  "is_ok (io_mark_vc_revoked io_demo_env io_demo_query ''issuer'' ''bob'' [7] io_demo_state)"
proof -
  have "\<not> io_is_paused io_demo_state" "authorized io_demo_env ''issuer''"
    "has_live_anchor ''issuer'' [7] (io_anchors io_demo_state ''bob'')"
    "unat (total_vcs_revoked (io_get_protocol_stats io_demo_state)) < 2 ^ 64 - 1"
    by (simp_all add: io_demo_defs io_is_paused_def authorized_def has_live_anchor_def io_anchors_def
        io_get_protocol_stats_def io_load_protocol_stats_def)
  from io_mark_revoked_underflow [OF this, of io_demo_query "()"] io_demo_reachable show ?thesis
    by (simp add: io_demo_defs)
qed

subsection \<open>The issuer register\<close>

text \<open>The issuer register is exact through a full cycle: after an issuer is registered,
  deregistered and registered again, in any states the calls accept, the listing names the
  issuer exactly once and is otherwise the listing from before; the same listing without it is
  what the deregistration leaves.\<close>

theorem io_issuer_cycle:
  assumes "io_reachable (s, w)" and "io_register_issuer e a s = Ok s1"
    and "io_deregister_issuer e' a s1 = Ok s2" and "io_register_issuer e'' a s2 = Ok s3"
  shows "distinct (io_list_issuers s3) \<and> set (io_list_issuers s3) = insert a (set (io_list_issuers s))
    \<and> set (io_list_issuers s2) = set (io_list_issuers s) - {a}"
proof -
  have inv: "io_issuers_ok s" using io_reachable_inv [OF assms(1)] by (simp add: io_inv_def)
  then have inv1: "io_issuers_ok s1" using io_issuer_index.reg_ok assms(2) by blast
  show ?thesis
    using io_issuer_index.cycle_listed_once [OF inv assms(2-4)]
      io_issuer_index.reg_listed [OF inv assms(2)] io_issuer_index.dereg_unlisted [OF inv1 assms(3)]
    by auto
qed

theorem io_issuer_cycle_witness:
  "\<exists>s1 s2 s3. io_register_issuer io_demo_env ''acme'' io_demo_state = Ok s1 \<and>
     io_deregister_issuer io_demo_env ''acme'' s1 = Ok s2 \<and>
     io_register_issuer io_demo_env ''acme'' s2 = Ok s3 \<and>
     set (io_list_issuers s3) = insert ''acme'' (set (io_list_issuers io_demo_state))"
proof -
  have r: "\<exists>s1. io_register_issuer io_demo_env a s = Ok s1 \<and> io_admin s1 = Some ''admin''"
    and d: "\<exists>s1. io_deregister_issuer io_demo_env a s = Ok s1 \<and> io_admin s1 = Some ''admin''"
    if "io_admin s = Some ''admin''" for s a
    using that by (auto simp: io_admin_defs io_demo_env_def authorized_def)
  have "io_admin io_demo_state = Some ''admin''" by (simp add: io_demo_defs)
  then obtain s1 where s1: "io_register_issuer io_demo_env ''acme'' io_demo_state = Ok s1"
      "io_admin s1 = Some ''admin''" using r by blast
  obtain s2 where s2: "io_deregister_issuer io_demo_env ''acme'' s1 = Ok s2"
      "io_admin s2 = Some ''admin''" using d [OF s1(2)] by blast
  obtain s3 where s3: "io_register_issuer io_demo_env ''acme'' s2 = Ok s3" using r [OF s2(2)] by blast
  show ?thesis
    using s1(1) s2(1) s3 io_issuer_cycle [OF io_demo_reachable s1(1) s2(1) s3] by blast
qed

end
