(* ===== verification/Credit_Oracle.thy ===== *)
theory Credit_Oracle
  imports Interfaces Scoring
begin

text \<open>
  \<open>contracts/credit-oracle/src/lib.rs\<close>. The state has one field per \<open>DataKey\<close> variant; a
  stored repayment record carries its layout (\<open>StoredV1\<close>, \<open>StoredV2\<close>), and reading it
  with the other layout traps, as decoding does. The calls to the linked identity-oracle are
  parameters: \<open>identity_view\<close> for the read-only ones and, in \<open>set_identity_oracle\<close>, the
  probing call of \<open>get_active_vc_count\<close>, which may write the other contract's state \<open>'w\<close>.
\<close>

section \<open>State\<close>

datatype co_event =
    CoInitialized address | CooldownUpdated u32 | FdrReg address | FdrDeReg address
  | LndReg address | LndDeReg address | CoPaused | CoUnpaused | VcCntDep address u32
  | VcWtSet symbol u32 | RecDecay bool u32 u32 | VcAnchCr address "symbol option"
  | ScoreSet address u32 | WtProp u32 u32 u32 u32 | WtApply u32 u32 u32
  | IdentityOracleUpdated address | CoAdmProp address | CoAdmAccept address
  | DsptFild address symbol | DsptRslv address symbol | DsptRjct address symbol

record co_protocol_stats =
  total_subjects_scored :: u64
  total_repayments_recorded :: u64

record recency_decay_config =
  rd_enabled :: bool
  rd_decay_bps_per_day :: u32
  rd_min_recency_bps :: u32

record score_record =
  score :: u32
  last_updated :: u64
  vc_count :: u32
  repayment_rate :: u32
  tx_volume_30d :: i128
  previous_score :: "u32 option"
  computed_at_ledger :: u32
  stale :: bool

record tx_stats =
  volume_30d :: i128
  tx_count_30d :: u32
  avg_counterparties :: u32

record repayment_record =
  on_time_count :: u32
  total_count :: u32
  total_repaid :: i128

record repayment_record_v1 =
  on_time_count_v1 :: u32
  total_count_v1 :: u32

datatype stored_repayment = StoredV1 repayment_record_v1 | StoredV2 repayment_record

record vc_entry =
  vc_id :: bytes
  vc_type :: "symbol option"

datatype dispute_status = Pending | Resolved | Rejected

record dispute_record =
  dr_subject :: address
  dr_input_key :: symbol
  dr_reason :: string
  dr_filed_at_ledger :: u32
  dr_status :: dispute_status

record co_state =
  co_admin :: "address option"
  co_pending_admin :: "address option"
  co_storage_version :: "u32 option"
  co_config :: "scoring_weights option"
  co_vc_weight :: "symbol \<rightharpoonup> u32"
  co_trusted_feeder :: "address \<rightharpoonup> bool"
  co_trusted_lender :: "address \<rightharpoonup> bool"
  co_tx_stats :: "address \<rightharpoonup> tx_stats"
  co_repayment :: "address \<rightharpoonup> stored_repayment"
  co_score :: "address \<rightharpoonup> score_record"
  co_vc_count :: "address \<rightharpoonup> u32"
  co_vc_list :: "address \<rightharpoonup> vc_entry list"
  co_pending_weights :: "scoring_weights option"
  co_pending_effective :: "u32 option"
  co_identity_oracle_id :: "address option"
  co_compute_cooldown :: "u32 option"
  co_stats :: "co_protocol_stats option"
  co_feeders_index :: "address list option"
  co_lenders_index :: "address list option"
  co_dispute :: "address \<times> symbol \<rightharpoonup> dispute_record"
  co_dispute_index :: "address \<rightharpoonup> symbol list"
  co_paused :: "bool option"
  co_recency_enabled :: "bool option"
  co_decay_bps :: "u32 option"
  co_min_recency :: "u32 option"
  co_governance_id :: "address option"
  co_wasm :: "bytes option"
  co_events :: "co_event list"

definition co_new :: co_state where
  "co_new = \<lparr>co_admin = None, co_pending_admin = None, co_storage_version = None, co_config = None,
     co_vc_weight = Map.empty, co_trusted_feeder = Map.empty, co_trusted_lender = Map.empty,
     co_tx_stats = Map.empty, co_repayment = Map.empty, co_score = Map.empty,
     co_vc_count = Map.empty, co_vc_list = Map.empty, co_pending_weights = None,
     co_pending_effective = None, co_identity_oracle_id = None, co_compute_cooldown = None,
     co_stats = None, co_feeders_index = None, co_lenders_index = None, co_dispute = Map.empty,
     co_dispute_index = Map.empty, co_paused = None, co_recency_enabled = None,
     co_decay_bps = None, co_min_recency = None, co_governance_id = None, co_wasm = None,
     co_events = []\<rparr>"

definition STALE_LEDGER_AGE :: u32 where "STALE_LEDGER_AGE = 86400"
definition TIMELOCK_LEDGERS :: u32 where "TIMELOCK_LEDGERS = 17280"
definition DEFAULT_COMPUTE_COOLDOWN_LEDGERS :: u32 where "DEFAULT_COMPUTE_COOLDOWN_LEDGERS = 1"
definition MAX_COMPUTE_COOLDOWN_LEDGERS :: u32 where "MAX_COMPUTE_COOLDOWN_LEDGERS = 86400"

definition co_publish :: "co_event \<Rightarrow> co_state \<Rightarrow> co_state" where
  "co_publish ev s = s\<lparr>co_events := co_events s @ [ev]\<rparr>"

section \<open>Guards and helpers\<close>

text \<open>The check of the entry points that take the admin as an argument.\<close>

definition co_require_named_admin :: "env \<Rightarrow> address \<Rightarrow> co_state \<Rightarrow> (credit_error, unit) outcome" where
  "co_require_named_admin e adm s =
     (case co_admin s of
        None \<Rightarrow> Trap
      | Some stored \<Rightarrow>
          if adm \<noteq> stored then Err CoNotAuthorized
          else if authorized e adm then Ok () else Trap)"

definition co_require_stored_admin :: "env \<Rightarrow> co_state \<Rightarrow> (credit_error, unit) outcome" where
  "co_require_stored_admin e s =
     (case co_admin s of None \<Rightarrow> Trap | Some a \<Rightarrow> if authorized e a then Ok () else Trap)"

definition co_ensure_not_paused :: "co_state \<Rightarrow> (credit_error, unit) outcome" where
  "co_ensure_not_paused s = (if unwrap_or (co_paused s) False then Err CoContractPaused else Ok ())"

definition co_default_stats :: co_protocol_stats where
  "co_default_stats = \<lparr>total_subjects_scored = 0, total_repayments_recorded = 0\<rparr>"

definition co_load_protocol_stats :: "co_state \<Rightarrow> co_protocol_stats" where
  "co_load_protocol_stats s = unwrap_or (co_stats s) co_default_stats"

definition co_save_protocol_stats :: "co_protocol_stats \<Rightarrow> co_state \<Rightarrow> co_state" where
  "co_save_protocol_stats st s = s\<lparr>co_stats := Some st\<rparr>"

definition increment_subjects_scored :: "co_state \<Rightarrow> co_state option" where
  "increment_subjects_scored s =
     (let st = co_load_protocol_stats s
      in map_option (\<lambda>n. co_save_protocol_stats (st\<lparr>total_subjects_scored := n\<rparr>) s)
           (checked_add (total_subjects_scored st) 1))"

definition increment_repayments_recorded :: "co_state \<Rightarrow> co_state option" where
  "increment_repayments_recorded s =
     (let st = co_load_protocol_stats s
      in map_option (\<lambda>n. co_save_protocol_stats (st\<lparr>total_repayments_recorded := n\<rparr>) s)
           (checked_add (total_repayments_recorded st) 1))"

definition load_recency_config :: "co_state \<Rightarrow> recency_decay_config" where
  "load_recency_config s =
     \<lparr>rd_enabled = unwrap_or (co_recency_enabled s) False,
      rd_decay_bps_per_day = unwrap_or (co_decay_bps s) DEFAULT_DECAY_BPS_PER_DAY,
      rd_min_recency_bps = unwrap_or (co_min_recency s) DEFAULT_MIN_RECENCY_BPS\<rparr>"

text \<open>The strkey of a contract has 56 characters and starts with \<open>C\<close>.\<close>

definition is_contract_address :: "address \<Rightarrow> bool" where
  "is_contract_address a = (if length a \<noteq> 56 then False else a ! 0 = CHR ''C'')"

section \<open>Initialisation and configuration\<close>

definition default_weights :: scoring_weights where
  "default_weights = \<lparr>vc_weight = 40, tx_weight = 30, repayment_weight = 30\<rparr>"

definition co_initialize :: "env \<Rightarrow> address \<Rightarrow> co_state \<Rightarrow> (credit_error, co_state) outcome" where
  "co_initialize e adm s =
     (if co_admin s \<noteq> None then Err CoAlreadyInitialized
      else if \<not> authorized e adm then Trap
      else Ok (co_publish (CoInitialized adm)
                 (s\<lparr>co_admin := Some adm, co_config := Some default_weights,
                    co_compute_cooldown := Some DEFAULT_COMPUTE_COOLDOWN_LEDGERS,
                    co_storage_version := Some 2\<rparr>)))"

definition co_get_compute_cooldown_ledgers :: "co_state \<Rightarrow> u32" where
  "co_get_compute_cooldown_ledgers s =
     unwrap_or (co_compute_cooldown s) DEFAULT_COMPUTE_COOLDOWN_LEDGERS"

definition co_set_compute_cooldown_ledgers ::
  "env \<Rightarrow> address \<Rightarrow> u32 \<Rightarrow> co_state \<Rightarrow> (credit_error, co_state) outcome" where
  "co_set_compute_cooldown_ledgers e adm ledgers s =
     (case co_admin s of
        None \<Rightarrow> Trap
      | Some stored \<Rightarrow>
          if adm \<noteq> stored then Err CoNotAuthorized
          else if ledgers = 0 \<or> MAX_COMPUTE_COOLDOWN_LEDGERS < ledgers then Err InvalidComputeCooldown
          else if \<not> authorized e adm then Trap
          else Ok (co_publish (CooldownUpdated ledgers) (s\<lparr>co_compute_cooldown := Some ledgers\<rparr>)))"

definition co_set_vc_type_weight ::
  "env \<Rightarrow> address \<Rightarrow> symbol \<Rightarrow> u32 \<Rightarrow> co_state \<Rightarrow> (credit_error, co_state) outcome" where
  "co_set_vc_type_weight e adm ty weight s =
     outcome_bind (co_require_named_admin e adm s) (\<lambda>_.
       Ok (co_publish (VcWtSet ty weight) (s\<lparr>co_vc_weight := (co_vc_weight s)(ty \<mapsto> weight)\<rparr>)))"

definition co_get_vc_type_weight :: "co_state \<Rightarrow> symbol \<Rightarrow> u32" where
  "co_get_vc_type_weight s ty = unwrap_or (co_vc_weight s ty) 100"

definition co_set_recency_decay ::
  "env \<Rightarrow> address \<Rightarrow> bool \<Rightarrow> u32 \<Rightarrow> u32 \<Rightarrow> co_state \<Rightarrow> (credit_error, co_state) outcome" where
  "co_set_recency_decay e adm enabled decay_bps_per_day min_recency_bps s =
     outcome_bind (co_require_named_admin e adm s) (\<lambda>_.
       if BPS_DENOMINATOR < min_recency_bps then Err InvalidRecencyConfig
       else Ok (co_publish (RecDecay enabled decay_bps_per_day min_recency_bps)
                  (s\<lparr>co_recency_enabled := Some enabled, co_decay_bps := Some decay_bps_per_day,
                     co_min_recency := Some min_recency_bps\<rparr>)))"

definition co_get_recency_decay :: "co_state \<Rightarrow> recency_decay_config" where
  "co_get_recency_decay s = load_recency_config s"

definition co_pause :: "env \<Rightarrow> address \<Rightarrow> co_state \<Rightarrow> (credit_error, co_state) outcome" where
  "co_pause e adm s =
     outcome_bind (ok_or (co_admin s) CoNotAuthorized) (\<lambda>stored.
       if adm \<noteq> stored then Err CoNotAuthorized
       else if \<not> authorized e adm then Trap
       else Ok (co_publish CoPaused (s\<lparr>co_paused := Some True\<rparr>)))"

definition co_unpause :: "env \<Rightarrow> address \<Rightarrow> co_state \<Rightarrow> (credit_error, co_state) outcome" where
  "co_unpause e adm s =
     outcome_bind (ok_or (co_admin s) CoNotAuthorized) (\<lambda>stored.
       if adm \<noteq> stored then Err CoNotAuthorized
       else if \<not> authorized e adm then Trap
       else Ok (co_publish CoUnpaused (s\<lparr>co_paused := Some False\<rparr>)))"

definition co_is_paused :: "co_state \<Rightarrow> bool" where
  "co_is_paused s = unwrap_or (co_paused s) False"

definition co_upgrade :: "env \<Rightarrow> address \<Rightarrow> bytes \<Rightarrow> co_state \<Rightarrow> (credit_error, co_state) outcome" where
  "co_upgrade e adm h s =
     outcome_bind (co_require_named_admin e adm s) (\<lambda>_. Ok (s\<lparr>co_wasm := Some h\<rparr>))"

definition co_get_admin :: "co_state \<Rightarrow> address option" where
  "co_get_admin s = co_admin s"

definition co_get_identity_oracle :: "co_state \<Rightarrow> address option" where
  "co_get_identity_oracle s = co_identity_oracle_id s"

definition co_get_governance :: "co_state \<Rightarrow> address option" where
  "co_get_governance s = co_governance_id s"

definition co_get_protocol_stats :: "co_state \<Rightarrow> co_protocol_stats" where
  "co_get_protocol_stats s = co_load_protocol_stats s"

section \<open>Feeders and lenders\<close>

fun already_indexed :: "'a \<Rightarrow> 'a list \<Rightarrow> bool" where
  "already_indexed x [] = False"
| "already_indexed x (y # ys) = (if y = x then True else already_indexed x ys)"

fun active_members :: "(address \<rightharpoonup> bool) \<Rightarrow> address list \<Rightarrow> address list \<Rightarrow> address list" where
  "active_members flag [] active = active"
| "active_members flag (a # as) active =
     (if unwrap_or (flag a) False then active_members flag as (active @ [a])
      else active_members flag as active)"

definition feeders_index :: "co_state \<Rightarrow> address list" where
  "feeders_index s = unwrap_or (co_feeders_index s) []"

definition lenders_index :: "co_state \<Rightarrow> address list" where
  "lenders_index s = unwrap_or (co_lenders_index s) []"

definition is_trusted_feeder :: "co_state \<Rightarrow> address \<Rightarrow> bool" where
  "is_trusted_feeder s a = unwrap_or (co_trusted_feeder s a) False"

definition is_trusted_lender :: "co_state \<Rightarrow> address \<Rightarrow> bool" where
  "is_trusted_lender s a = unwrap_or (co_trusted_lender s a) False"

definition co_register_feeder ::
  "env \<Rightarrow> address \<Rightarrow> address \<Rightarrow> co_state \<Rightarrow> (credit_error, co_state) outcome" where
  "co_register_feeder e adm feeder s =
     outcome_bind (co_require_named_admin e adm s) (\<lambda>_.
       let s1 = (if \<not> already_indexed feeder (feeders_index s)
                 then s\<lparr>co_feeders_index := Some (feeders_index s @ [feeder])\<rparr> else s)
       in Ok (co_publish (FdrReg feeder)
                (s1\<lparr>co_trusted_feeder := (co_trusted_feeder s1)(feeder \<mapsto> True)\<rparr>)))"

definition co_deregister_feeder ::
  "env \<Rightarrow> address \<Rightarrow> address \<Rightarrow> co_state \<Rightarrow> (credit_error, co_state) outcome" where
  "co_deregister_feeder e adm feeder s =
     outcome_bind (co_require_named_admin e adm s) (\<lambda>_.
       Ok (co_publish (FdrDeReg feeder)
             (s\<lparr>co_trusted_feeder := (co_trusted_feeder s)(feeder \<mapsto> False)\<rparr>)))"

definition co_register_lender ::
  "env \<Rightarrow> address \<Rightarrow> address \<Rightarrow> co_state \<Rightarrow> (credit_error, co_state) outcome" where
  "co_register_lender e adm lender s =
     outcome_bind (co_require_named_admin e adm s) (\<lambda>_.
       let s1 = (if \<not> already_indexed lender (lenders_index s)
                 then s\<lparr>co_lenders_index := Some (lenders_index s @ [lender])\<rparr> else s)
       in Ok (co_publish (LndReg lender)
                (s1\<lparr>co_trusted_lender := (co_trusted_lender s1)(lender \<mapsto> True)\<rparr>)))"

definition co_deregister_lender ::
  "env \<Rightarrow> address \<Rightarrow> address \<Rightarrow> co_state \<Rightarrow> (credit_error, co_state) outcome" where
  "co_deregister_lender e adm lender s =
     outcome_bind (co_require_named_admin e adm s) (\<lambda>_.
       Ok (co_publish (LndDeReg lender)
             (s\<lparr>co_trusted_lender := (co_trusted_lender s)(lender \<mapsto> False)\<rparr>)))"

definition co_list_feeders :: "co_state \<Rightarrow> address list" where
  "co_list_feeders s = active_members (co_trusted_feeder s) (feeders_index s) []"

definition co_list_lenders :: "co_state \<Rightarrow> address list" where
  "co_list_lenders s = active_members (co_trusted_lender s) (lenders_index s) []"

section \<open>Score inputs\<close>

text \<open>The gate of the feeder-only entry points: pause flag, signature, registration.\<close>

definition co_require_feeder :: "env \<Rightarrow> address \<Rightarrow> co_state \<Rightarrow> (credit_error, unit) outcome" where
  "co_require_feeder e feeder s =
     outcome_bind (co_ensure_not_paused s) (\<lambda>_.
       if \<not> authorized e feeder then Trap
       else if \<not> is_trusted_feeder s feeder then Err FeederNotRegistered
       else Ok ())"

definition co_update_tx_stats ::
  "env \<Rightarrow> address \<Rightarrow> address \<Rightarrow> tx_stats \<Rightarrow> co_state \<Rightarrow> (credit_error, co_state) outcome" where
  "co_update_tx_stats e feeder subject stats s =
     outcome_bind (co_require_feeder e feeder s) (\<lambda>_.
       Ok (s\<lparr>co_tx_stats := (co_tx_stats s)(subject \<mapsto> stats)\<rparr>))"

definition co_set_vc_count ::
  "env \<Rightarrow> address \<Rightarrow> address \<Rightarrow> u32 \<Rightarrow> co_state \<Rightarrow> (credit_error, co_state) outcome" where
  "co_set_vc_count e feeder subject count s =
     outcome_bind (co_require_feeder e feeder s) (\<lambda>_.
       let s1 = (if co_identity_oracle_id s \<noteq> None then co_publish (VcCntDep subject count) s else s)
       in Ok (s1\<lparr>co_vc_count := (co_vc_count s1)(subject \<mapsto> count)\<rparr>))"

definition co_get_vc_list :: "co_state \<Rightarrow> address \<Rightarrow> vc_entry list" where
  "co_get_vc_list s user = unwrap_or (co_vc_list s user) []"

definition co_anchor_vc ::
  "env \<Rightarrow> address \<Rightarrow> address \<Rightarrow> bytes \<Rightarrow> symbol option \<Rightarrow> co_state \<Rightarrow> (credit_error, co_state) outcome"
  where
  "co_anchor_vc e feeder user h ty s =
     outcome_bind (co_require_feeder e feeder s) (\<lambda>_.
       if \<exists>entry \<in> set (co_get_vc_list s user). vc_id entry = h then Ok s
       else Ok (co_publish (VcAnchCr user ty)
              (s\<lparr>co_vc_list := (co_vc_list s)(user \<mapsto>
                  co_get_vc_list s user @ [\<lparr>vc_id = h, vc_type = ty\<rparr>])\<rparr>)))"

text \<open>
  Reading a repayment record in the layout the storage version asks for. The outer
  option is the decoding, which traps on the other layout.
\<close>

definition read_repayment_v1 :: "co_state \<Rightarrow> address \<Rightarrow> repayment_record_v1 option" where
  "read_repayment_v1 s subject =
     (case co_repayment s subject of
        None \<Rightarrow> Some \<lparr>on_time_count_v1 = 0, total_count_v1 = 0\<rparr>
      | Some (StoredV1 r) \<Rightarrow> Some r
      | Some (StoredV2 r) \<Rightarrow> None)"

definition read_repayment_v2 :: "co_state \<Rightarrow> address \<Rightarrow> repayment_record option" where
  "read_repayment_v2 s subject =
     (case co_repayment s subject of
        None \<Rightarrow> Some \<lparr>on_time_count = 0, total_count = 0, total_repaid = 0\<rparr>
      | Some (StoredV1 r) \<Rightarrow> None
      | Some (StoredV2 r) \<Rightarrow> Some r)"

definition bump_v1 :: "bool \<Rightarrow> repayment_record_v1 \<Rightarrow> repayment_record_v1" where
  "bump_v1 on_time r =
     \<lparr>on_time_count_v1 = (if on_time then saturating_add (on_time_count_v1 r) 1 else on_time_count_v1 r),
      total_count_v1 = saturating_add (total_count_v1 r) 1\<rparr>"

definition bump_v2 :: "i128 \<Rightarrow> bool \<Rightarrow> repayment_record \<Rightarrow> repayment_record" where
  "bump_v2 amount on_time r =
     \<lparr>on_time_count = (if on_time then saturating_add (on_time_count r) 1 else on_time_count r),
      total_count = saturating_add (total_count r) 1,
      total_repaid = i128_saturating_add (total_repaid r) amount\<rparr>"

definition co_record_repayment ::
  "env \<Rightarrow> address \<Rightarrow> address \<Rightarrow> i128 \<Rightarrow> bool \<Rightarrow> co_state \<Rightarrow> (credit_error, co_state) outcome" where
  "co_record_repayment e lender subject amount on_time s =
     (if sint amount \<le> 0 then Err InvalidAmount
      else outcome_bind (co_ensure_not_paused s) (\<lambda>_.
        if \<not> authorized e lender then Trap
        else if \<not> is_trusted_lender s lender then Err LenderNotRegistered
        else outcome_bind
               (expect (if unwrap_or (co_storage_version s) 1 < 2
                        then map_option (StoredV1 \<circ> bump_v1 on_time) (read_repayment_v1 s subject)
                        else map_option (StoredV2 \<circ> bump_v2 amount on_time) (read_repayment_v2 s subject)))
               (\<lambda>r. expect (increment_repayments_recorded
                      (s\<lparr>co_repayment := (co_repayment s)(subject \<mapsto> r)\<rparr>)))))"

text \<open>
  Migration reads each present record as V1 (trapping when it is already V2) and
  writes it back as V2; whatever the list, the version becomes 2.
\<close>

fun migrate_loop :: "address list \<Rightarrow> (address \<rightharpoonup> stored_repayment) \<Rightarrow> (address \<rightharpoonup> stored_repayment) option" where
  "migrate_loop [] m = Some m"
| "migrate_loop (a # as) m =
     (case m a of
        None \<Rightarrow> migrate_loop as m
      | Some (StoredV2 r) \<Rightarrow> None
      | Some (StoredV1 r) \<Rightarrow>
          migrate_loop as (m(a \<mapsto> StoredV2 \<lparr>on_time_count = on_time_count_v1 r,
                                      total_count = total_count_v1 r, total_repaid = 0\<rparr>)))"

definition co_migrate :: "env \<Rightarrow> address list \<Rightarrow> co_state \<Rightarrow> (credit_error, co_state) outcome" where
  "co_migrate e subjects s =
     outcome_bind (ok_or (co_admin s) CoNotInitialized) (\<lambda>adm.
       if \<not> authorized e adm then Trap
       else outcome_bind (expect (migrate_loop subjects (co_repayment s))) (\<lambda>m.
              Ok (s\<lparr>co_repayment := m, co_storage_version := Some 2\<rparr>)))"

section \<open>Computing and reading scores\<close>

definition check_compute_cooldown :: "env \<Rightarrow> address \<Rightarrow> co_state \<Rightarrow> (credit_error, unit) outcome" where
  "check_compute_cooldown e subject s =
     (let cooldown = unwrap_or (co_compute_cooldown s) 0
      in if 0 < cooldown
         then (case co_score s subject of
                 None \<Rightarrow> Ok ()
               | Some record \<Rightarrow>
                   if saturating_sub (ledger_sequence e) (computed_at_ledger record) < cooldown
                   then Err ComputeCooldownActive else Ok ())
         else Ok ())"

definition load_tx_stats :: "co_state \<Rightarrow> address \<Rightarrow> tx_stats" where
  "load_tx_stats s subject =
     unwrap_or (co_tx_stats s subject) \<lparr>volume_30d = 0, tx_count_30d = 0, avg_counterparties = 0\<rparr>"

definition load_repayment :: "co_state \<Rightarrow> address \<Rightarrow> repayment_record option" where
  "load_repayment s subject =
     (if unwrap_or (co_storage_version s) 1 < 2
      then map_option (\<lambda>v1. \<lparr>on_time_count = on_time_count_v1 v1, total_count = total_count_v1 v1,
                             total_repaid = 0\<rparr>) (read_repayment_v1 s subject)
      else read_repayment_v2 s subject)"

text \<open>The points of one credential of type weight \<open>weight\<close>, decayed by its age if configured.\<close>

definition type_points :: "u32 \<Rightarrow> u32" where
  "type_points weight = saturating_mul 20 weight div 100"

definition credential_points :: "recency_decay_config option \<Rightarrow> u64 \<Rightarrow> u32 \<Rightarrow> u64 \<Rightarrow> u32" where
  "credential_points recency now weight anchored =
     (case recency of
        None \<Rightarrow> type_points weight
      | Some cfg \<Rightarrow>
          apply_recency_bps (type_points weight)
            (recency_multiplier_bps anchored now (rd_decay_bps_per_day cfg) (rd_min_recency_bps cfg)))"

text \<open>The loop over the records of \<open>get_vc_details\<close>, accumulating points and count.\<close>

fun identity_points ::
  "identity_view \<Rightarrow> address \<Rightarrow> co_state \<Rightarrow> recency_decay_config option \<Rightarrow> u64 \<Rightarrow> address
     \<Rightarrow> identity_vc_record list \<Rightarrow> u32 \<Rightarrow> u32 \<Rightarrow> (u32 \<times> u32) option" where
  "identity_points iv oid s recency now subject [] points count = Some (points, count)"
| "identity_points iv oid s recency now subject (r # rs) points count =
     (case iv_verify_vc iv oid subject (vc_hash_of r) of
        None \<Rightarrow> None
      | Some False \<Rightarrow> identity_points iv oid s recency now subject rs points count
      | Some True \<Rightarrow>
          (case checked_add count 1 of
             None \<Rightarrow> None
           | Some count' \<Rightarrow>
               (case iv_get_vc_credential_type iv oid subject (vc_hash_of r) of
                  None \<Rightarrow> None
                | Some ty \<Rightarrow>
                    identity_points iv oid s recency now subject rs
                      (saturating_add points
                         (credential_points recency now (unwrap_or (co_vc_weight s ty) 100) (anchored_at r)))
                      count')))"

text \<open>The fallback on the entries anchored by feeders.\<close>

fun list_points :: "co_state \<Rightarrow> vc_entry list \<Rightarrow> u32 \<Rightarrow> u32" where
  "list_points s [] points = points"
| "list_points s (entry # entries) points =
     list_points s entries
       (saturating_add points
          (type_points (case vc_type entry of Some t \<Rightarrow> unwrap_or (co_vc_weight s t) 100 | None \<Rightarrow> 100)))"

definition local_points :: "co_state \<Rightarrow> address \<Rightarrow> u32 \<times> u32" where
  "local_points s subject =
     (let entries = co_get_vc_list s subject
      in if entries \<noteq> [] then (list_points s entries 0, of_nat (length entries))
         else let count = unwrap_or (co_vc_count s subject) 0
              in (min (saturating_mul count 20) 100, count))"

definition rate_bps :: "repayment_record \<Rightarrow> u32" where
  "rate_bps r =
     ucast (unwrap_or (checked_div ((ucast (on_time_count r) :: u64) * 10000) (ucast (total_count r))) 0)"

definition finish_score ::
  "env \<Rightarrow> address \<Rightarrow> repayment_record \<Rightarrow> u32 \<Rightarrow> u32 \<Rightarrow> co_state \<Rightarrow> (credit_error, u32 \<times> co_state) outcome"
  where
  "finish_score e subject repayment vc_points count s =
     outcome_bind (ok_or (co_config s) CoNotInitialized) (\<lambda>weights.
       let stats = load_tx_stats s subject;
           sc = compute_score_pure (min vc_points 100) (volume_30d stats) (avg_counterparties stats)
                  (on_time_count repayment) (total_count repayment) (total_repaid repayment)
                  (vc_weight weights) (tx_weight weights) (repayment_weight weights);
           rate = rate_bps repayment;
           prev = co_score s subject;
           needs_write = (case prev of
               None \<Rightarrow> True
             | Some p \<Rightarrow> \<not> (score p = sc \<and> vc_count p = count \<and> repayment_rate p = rate
                             \<and> tx_volume_30d p = volume_30d stats))
       in outcome_bind
            (if needs_write
             then outcome_bind (if prev = None then expect (increment_subjects_scored s) else Ok s) (\<lambda>s1.
                    Ok (s1\<lparr>co_score := (co_score s1)(subject \<mapsto>
                          \<lparr>score = sc, last_updated = ledger_timestamp e, vc_count = count,
                           repayment_rate = rate, tx_volume_30d = volume_30d stats,
                           previous_score = map_option score prev,
                           computed_at_ledger = ledger_sequence e, stale = False\<rparr>)\<rparr>))
             else Ok s)
            (\<lambda>s2. Ok (sc, co_publish (ScoreSet subject sc) s2)))"

definition co_compute_score ::
  "env \<Rightarrow> identity_view \<Rightarrow> address \<Rightarrow> co_state \<Rightarrow> (credit_error, u32 \<times> co_state) outcome" where
  "co_compute_score e iv subject s =
     outcome_bind (co_ensure_not_paused s) (\<lambda>_.
     outcome_bind (check_compute_cooldown e subject s) (\<lambda>_.
     outcome_bind (expect (load_repayment s subject)) (\<lambda>repayment.
       let cfg = load_recency_config s;
           recency = (if rd_enabled cfg then Some cfg else None);
           now = ledger_timestamp e
       in case co_identity_oracle_id s of
            Some oid \<Rightarrow>
              outcome_bind (expect (iv_is_deactivated iv oid subject)) (\<lambda>deactivated.
                if deactivated then Ok (MIN_SCORE, s)
                else
                  outcome_bind (expect (iv_get_vc_details iv oid subject)) (\<lambda>records.
                  outcome_bind (expect (identity_points iv oid s recency now subject records 0 0))
                    (\<lambda>(points, count). finish_score e subject repayment points count s)))
          | None \<Rightarrow>
              (case local_points s subject of
                 (points, count) \<Rightarrow> finish_score e subject repayment points count s))))"

text \<open>\<open>get_score\<close>: a failed call to the identity-oracle leaves the record as it is.\<close>

definition co_get_score :: "env \<Rightarrow> identity_view \<Rightarrow> co_state \<Rightarrow> address \<Rightarrow> score_record option" where
  "co_get_score e iv s subject =
     map_option (\<lambda>record.
       let old = STALE_LEDGER_AGE < saturating_sub (ledger_sequence e) (computed_at_ledger record);
           changed = (case co_identity_oracle_id s of
               None \<Rightarrow> False
             | Some oid \<Rightarrow>
                 (case iv_get_last_state_change_ledger iv oid subject of
                    Some (Some change_ledger) \<Rightarrow> computed_at_ledger record < change_ledger
                  | _ \<Rightarrow> False))
       in record\<lparr>stale := (if old then True else changed)\<rparr>)
     (co_score s subject)"

section \<open>Weights, links and the admin role\<close>

definition co_propose_weights ::
  "env \<Rightarrow> scoring_weights \<Rightarrow> co_state \<Rightarrow> (credit_error, co_state) outcome" where
  "co_propose_weights e w s =
     outcome_bind (expect (is_valid w)) (\<lambda>ok.
       if \<not> ok then Err CoInvalidWeights
       else outcome_bind (co_require_stored_admin e s) (\<lambda>_.
            outcome_bind (expect (checked_add (ledger_sequence e) TIMELOCK_LEDGERS)) (\<lambda>effective.
              Ok (co_publish (WtProp (vc_weight w) (tx_weight w) (repayment_weight w) effective)
                    (s\<lparr>co_pending_weights := Some w, co_pending_effective := Some effective\<rparr>)))))"

definition co_apply_weights :: "env \<Rightarrow> co_state \<Rightarrow> (credit_error, co_state) outcome" where
  "co_apply_weights e s =
     outcome_bind (co_ensure_not_paused s) (\<lambda>_.
     outcome_bind (ok_or (co_pending_effective s) CoNoPendingWeights) (\<lambda>effective.
       if ledger_sequence e < effective then Err CoTimelockNotExpired
       else outcome_bind (ok_or (co_pending_weights s) CoNoPendingWeights) (\<lambda>w.
              Ok (co_publish (WtApply (vc_weight w) (tx_weight w) (repayment_weight w))
                    (s\<lparr>co_config := Some w, co_pending_weights := None,
                       co_pending_effective := None\<rparr>)))))"

definition co_get_scoring_weights :: "co_state \<Rightarrow> (credit_error, scoring_weights) outcome" where
  "co_get_scoring_weights s = ok_or (co_config s) CoNotInitialized"

definition co_get_pending_weights :: "co_state \<Rightarrow> (credit_error, pending_weights_record option) outcome" where
  "co_get_pending_weights s =
     (case co_pending_weights s of
        None \<Rightarrow> Ok None
      | Some w \<Rightarrow>
          outcome_bind (expect (co_pending_effective s)) (\<lambda>effective.
            Ok (Some \<lparr>pw_weights = w, pw_effective_ledger = effective\<rparr>)))"

text \<open>
  Linking an identity-oracle probes it with \<open>get_active_vc_count\<close> on the contract's own
  address; \<open>probe\<close> is that call on the state \<open>'w\<close> of the other contracts.
\<close>

type_synonym 'w probe_call = "env \<Rightarrow> address \<Rightarrow> address \<Rightarrow> 'w \<Rightarrow> (u32 \<times> 'w) option"

definition co_set_identity_oracle ::
  "env \<Rightarrow> 'w probe_call \<Rightarrow> address \<Rightarrow> address \<Rightarrow> co_state \<times> 'w \<Rightarrow> (credit_error, co_state \<times> 'w) outcome"
  where
  "co_set_identity_oracle e probe adm oid sw =
     (case sw of (s, w) \<Rightarrow>
        outcome_bind (co_require_named_admin e adm s) (\<lambda>_.
          case probe (call_env e oid) oid (current_contract e) w of
            None \<Rightarrow> Err InvalidIdentityOracle
          | Some (_, w') \<Rightarrow>
              Ok (co_publish (IdentityOracleUpdated oid) (s\<lparr>co_identity_oracle_id := Some oid\<rparr>), w')))"

definition co_propose_new_admin :: "env \<Rightarrow> address \<Rightarrow> co_state \<Rightarrow> (credit_error, co_state) outcome" where
  "co_propose_new_admin e n s =
     outcome_bind (co_require_stored_admin e s) (\<lambda>_.
       Ok (co_publish (CoAdmProp n) (s\<lparr>co_pending_admin := Some n\<rparr>)))"

definition co_accept_admin :: "env \<Rightarrow> address \<Rightarrow> co_state \<Rightarrow> (credit_error, co_state) outcome" where
  "co_accept_admin e n s =
     (if \<not> authorized e n then Trap
      else outcome_bind (expect (co_pending_admin s)) (\<lambda>p.
        if n \<noteq> p then Err CoNotAuthorized
        else
          let s1 = s\<lparr>co_admin := Some n, co_pending_admin := None\<rparr>;
              s2 = (if is_contract_address n then s1\<lparr>co_governance_id := Some n\<rparr>
                    else s1\<lparr>co_governance_id := None\<rparr>)
          in Ok (co_publish (CoAdmAccept n) s2)))"

section \<open>Disputes\<close>

definition dispute_keys :: "symbol list" where
  "dispute_keys = [''tx_stats'', ''repayment'', ''vc_count'']"

definition dispute_index :: "co_state \<Rightarrow> address \<Rightarrow> symbol list" where
  "dispute_index s subject = unwrap_or (co_dispute_index s subject) []"

definition co_flag_score_input ::
  "env \<Rightarrow> address \<Rightarrow> symbol \<Rightarrow> string \<Rightarrow> co_state \<Rightarrow> (credit_error, co_state) outcome" where
  "co_flag_score_input e subject key reason s =
     (if \<not> authorized e subject then Trap
      else if key \<notin> set dispute_keys then Err InvalidInputKey
      else if (case co_dispute s (subject, key) of
                 Some existing \<Rightarrow> dr_status existing = Pending | None \<Rightarrow> False)
      then Err DisputeAlreadyPending
      else
        let record = \<lparr>dr_subject = subject, dr_input_key = key, dr_reason = reason,
                      dr_filed_at_ledger = ledger_sequence e, dr_status = Pending\<rparr>;
            s1 = s\<lparr>co_dispute := (co_dispute s)((subject, key) \<mapsto> record)\<rparr>;
            s2 = (if \<not> already_indexed key (dispute_index s1 subject)
                  then s1\<lparr>co_dispute_index := (co_dispute_index s1)(subject \<mapsto> dispute_index s1 subject @ [key])\<rparr>
                  else s1)
        in Ok (co_publish (DsptFild subject key) s2))"

definition co_resolve_dispute ::
  "env \<Rightarrow> address \<Rightarrow> symbol \<Rightarrow> bool \<Rightarrow> co_state \<Rightarrow> (credit_error, co_state) outcome" where
  "co_resolve_dispute e subject key accepted s =
     outcome_bind (co_require_stored_admin e s) (\<lambda>_.
     outcome_bind (ok_or (co_dispute s (subject, key)) DisputeNotFound) (\<lambda>record.
       if dr_status record \<noteq> Pending then Err DisputeNotFound
       else
         let record' = record\<lparr>dr_status := (if accepted then Resolved else Rejected)\<rparr>
         in Ok (co_publish (if accepted then DsptRslv subject key else DsptRjct subject key)
                  (s\<lparr>co_dispute := (co_dispute s)((subject, key) \<mapsto> record')\<rparr>))))"

definition co_get_dispute :: "co_state \<Rightarrow> address \<Rightarrow> symbol \<Rightarrow> dispute_record option" where
  "co_get_dispute s subject key = co_dispute s (subject, key)"

fun collect_disputes :: "co_state \<Rightarrow> address \<Rightarrow> symbol list \<Rightarrow> dispute_record list \<Rightarrow> dispute_record list" where
  "collect_disputes s subject [] records = records"
| "collect_disputes s subject (k # ks) records =
     (case co_dispute s (subject, k) of
        None \<Rightarrow> collect_disputes s subject ks records
      | Some r \<Rightarrow> collect_disputes s subject ks (records @ [r]))"

definition co_list_disputes :: "co_state \<Rightarrow> address \<Rightarrow> dispute_record list" where
  "co_list_disputes s subject = collect_disputes s subject (dispute_index s subject) []"

section \<open>Calls and reachable states\<close>

datatype co_call =
    CoInitializeCall address | CoSetCooldownCall address u32
  | CoRegisterFeederCall address address | CoDeregisterFeederCall address address
  | CoRegisterLenderCall address address | CoDeregisterLenderCall address address
  | CoPauseCall address | CoUnpauseCall address
  | CoUpdateTxStatsCall address address tx_stats
  | CoRecordRepaymentCall address address i128 bool | CoMigrateCall "address list"
  | CoSetVcCountCall address address u32 | CoSetVcTypeWeightCall address symbol u32
  | CoSetRecencyDecayCall address bool u32 u32
  | CoAnchorVcCall address address bytes "symbol option" | CoComputeScoreCall address
  | CoProposeWeightsCall scoring_weights | CoApplyWeightsCall
  | CoSetIdentityOracleCall address address | CoProposeAdminCall address | CoAcceptAdminCall address
  | CoUpgradeCall address bytes | CoFlagCall address symbol string
  | CoResolveCall address symbol bool

definition co_local :: "(co_state \<Rightarrow> (credit_error, co_state) outcome) \<Rightarrow> co_state \<times> 'w
    \<Rightarrow> (credit_error, co_state \<times> 'w) outcome" where
  "co_local f sw = (case sw of (s, w) \<Rightarrow> outcome_bind (f s) (\<lambda>s'. Ok (s', w)))"

fun co_exec ::
  "env \<Rightarrow> identity_view \<Rightarrow> 'w probe_call \<Rightarrow> co_call \<Rightarrow> co_state \<times> 'w
     \<Rightarrow> (credit_error, co_state \<times> 'w) outcome" where
  "co_exec e iv probe (CoInitializeCall a) sw = co_local (co_initialize e a) sw"
| "co_exec e iv probe (CoSetCooldownCall m n) sw = co_local (co_set_compute_cooldown_ledgers e m n) sw"
| "co_exec e iv probe (CoRegisterFeederCall m a) sw = co_local (co_register_feeder e m a) sw"
| "co_exec e iv probe (CoDeregisterFeederCall m a) sw = co_local (co_deregister_feeder e m a) sw"
| "co_exec e iv probe (CoRegisterLenderCall m a) sw = co_local (co_register_lender e m a) sw"
| "co_exec e iv probe (CoDeregisterLenderCall m a) sw = co_local (co_deregister_lender e m a) sw"
| "co_exec e iv probe (CoPauseCall m) sw = co_local (co_pause e m) sw"
| "co_exec e iv probe (CoUnpauseCall m) sw = co_local (co_unpause e m) sw"
| "co_exec e iv probe (CoUpdateTxStatsCall f a t) sw = co_local (co_update_tx_stats e f a t) sw"
| "co_exec e iv probe (CoRecordRepaymentCall l a n b) sw = co_local (co_record_repayment e l a n b) sw"
| "co_exec e iv probe (CoMigrateCall as) sw = co_local (co_migrate e as) sw"
| "co_exec e iv probe (CoSetVcCountCall f a n) sw = co_local (co_set_vc_count e f a n) sw"
| "co_exec e iv probe (CoSetVcTypeWeightCall m t n) sw = co_local (co_set_vc_type_weight e m t n) sw"
| "co_exec e iv probe (CoSetRecencyDecayCall m b d r) sw = co_local (co_set_recency_decay e m b d r) sw"
| "co_exec e iv probe (CoAnchorVcCall f a h t) sw = co_local (co_anchor_vc e f a h t) sw"
| "co_exec e iv probe (CoComputeScoreCall a) sw =
     co_local (\<lambda>s. outcome_bind (co_compute_score e iv a s) (\<lambda>(_, s'). Ok s')) sw"
| "co_exec e iv probe (CoProposeWeightsCall w) sw = co_local (co_propose_weights e w) sw"
| "co_exec e iv probe CoApplyWeightsCall sw = co_local (co_apply_weights e) sw"
| "co_exec e iv probe (CoSetIdentityOracleCall m i) sw = co_set_identity_oracle e probe m i sw"
| "co_exec e iv probe (CoProposeAdminCall a) sw = co_local (co_propose_new_admin e a) sw"
| "co_exec e iv probe (CoAcceptAdminCall a) sw = co_local (co_accept_admin e a) sw"
| "co_exec e iv probe (CoUpgradeCall m h) sw = co_local (co_upgrade e m h) sw"
| "co_exec e iv probe (CoFlagCall a k r) sw = co_local (co_flag_score_input e a k r) sw"
| "co_exec e iv probe (CoResolveCall a k b) sw = co_local (co_resolve_dispute e a k b) sw"

inductive co_reachable :: "co_state \<times> 'w \<Rightarrow> bool" where
  co_start: "co_reachable (co_new, w)"
| co_step: "co_reachable sw \<Longrightarrow> co_exec e iv probe c sw = Ok sw' \<Longrightarrow> co_reachable sw'"

lemma co_local_Ok [simp]:
  "co_local f (s, w) = Ok (s', w') \<longleftrightarrow> f s = Ok s' \<and> w' = w"
  by (auto simp: co_local_def)

section \<open>Normal forms\<close>

lemma already_indexed_iff [simp]: "already_indexed x xs \<longleftrightarrow> x \<in> set xs"
  by (induction xs) auto

lemma active_members_eq: "active_members flag as acc = acc @ filter (\<lambda>a. flag a = Some True) as"
  by (induction as arbitrary: acc) auto

lemma co_list_feeders_eq: "co_list_feeders s = filter (is_trusted_feeder s) (feeders_index s)"
  by (simp add: co_list_feeders_def active_members_eq is_trusted_feeder_def [abs_def])

lemma co_list_lenders_eq: "co_list_lenders s = filter (is_trusted_lender s) (lenders_index s)"
  by (simp add: co_list_lenders_def active_members_eq is_trusted_lender_def [abs_def])

lemma collect_disputes_eq:
  "collect_disputes s a ks acc = acc @ List.map_filter (\<lambda>k. co_dispute s (a, k)) ks"
  by (induction ks arbitrary: acc) (auto simp: map_filter_simps split: option.splits)

lemma co_increment_simps:
  "increment_subjects_scored s = Some t \<longleftrightarrow>
     (\<exists>n. checked_add (total_subjects_scored (co_load_protocol_stats s)) 1 = Some n \<and>
          t = s\<lparr>co_stats := Some ((co_load_protocol_stats s)\<lparr>total_subjects_scored := n\<rparr>)\<rparr>)"
  "increment_repayments_recorded s = Some t \<longleftrightarrow>
     (\<exists>n. checked_add (total_repayments_recorded (co_load_protocol_stats s)) 1 = Some n \<and>
          t = s\<lparr>co_stats := Some ((co_load_protocol_stats s)\<lparr>total_repayments_recorded := n\<rparr>)\<rparr>)"
  by (auto simp: increment_subjects_scored_def increment_repayments_recorded_def Let_def
      co_save_protocol_stats_def)

text \<open>What \<open>compute_score\<close> takes from the credentials: points and number.\<close>

definition credential_inputs ::
  "env \<Rightarrow> identity_view \<Rightarrow> co_state \<Rightarrow> address \<Rightarrow> (u32 \<times> u32) option" where
  "credential_inputs e iv s a =
     (case co_identity_oracle_id s of
        None \<Rightarrow> Some (local_points s a)
      | Some oid \<Rightarrow>
          (case iv_get_vc_details iv oid a of
             None \<Rightarrow> None
           | Some rs \<Rightarrow>
               identity_points iv oid s
                 (if rd_enabled (load_recency_config s) then Some (load_recency_config s) else None)
                 (ledger_timestamp e) a rs 0 0))"

definition is_deactivated_subject :: "identity_view \<Rightarrow> co_state \<Rightarrow> address \<Rightarrow> bool" where
  "is_deactivated_subject iv s a \<longleftrightarrow>
     (\<exists>oid. co_identity_oracle_id s = Some oid \<and> iv_is_deactivated iv oid a = Some True)"

lemma co_compute_score_Ok:
  assumes "co_compute_score e iv a s = Ok (n, s')"
  shows "\<not> co_is_paused s \<and> check_compute_cooldown e a s = Ok () \<and>
    (if is_deactivated_subject iv s a then n = MIN_SCORE \<and> s' = s
     else \<exists>rep pts cnt. load_repayment s a = Some rep \<and> credential_inputs e iv s a = Some (pts, cnt) \<and>
            finish_score e a rep pts cnt s = Ok (n, s'))"
proof -
  obtain rep where g: "\<not> co_is_paused s" "check_compute_cooldown e a s = Ok ()" "load_repayment s a = Some rep"
    using assms by (auto simp: co_compute_score_def co_ensure_not_paused_def co_is_paused_def split: if_splits)
  show ?thesis
  proof (cases "co_identity_oracle_id s")
    case None
    then show ?thesis
      using assms g by (auto simp: co_compute_score_def is_deactivated_subject_def credential_inputs_def
          split: prod.splits)
  next
    case (Some oid)
    then obtain b where b: "iv_is_deactivated iv oid a = Some b"
      using assms by (auto simp: co_compute_score_def Let_def)
    show ?thesis
    proof (cases b)
      case True
      then show ?thesis using assms g Some b
        by (auto simp: co_compute_score_def is_deactivated_subject_def Let_def)
    next
      case False
      then obtain rs pts cnt where
        "iv_get_vc_details iv oid a = Some rs"
        "identity_points iv oid s
           (if rd_enabled (load_recency_config s) then Some (load_recency_config s) else None)
           (ledger_timestamp e) a rs 0 0 = Some (pts, cnt)"
        "finish_score e a rep pts cnt s = Ok (n, s')"
        using assms g Some b by (auto simp: co_compute_score_def Let_def)
      then show ?thesis
        using g Some b False by (auto simp: is_deactivated_subject_def credential_inputs_def)
    qed
  qed
qed

definition score_inputs :: "co_state \<Rightarrow> address \<Rightarrow> repayment_record \<Rightarrow> scoring_weights \<Rightarrow> u32 \<Rightarrow> u32" where
  "score_inputs s a rep w pts =
     compute_score_pure (min pts 100) (volume_30d (load_tx_stats s a)) (avg_counterparties (load_tx_stats s a))
       (on_time_count rep) (total_count rep) (total_repaid rep)
       (vc_weight w) (tx_weight w) (repayment_weight w)"

definition new_score_record ::
  "env \<Rightarrow> co_state \<Rightarrow> address \<Rightarrow> repayment_record \<Rightarrow> u32 \<Rightarrow> u32 \<Rightarrow> score_record" where
  "new_score_record e s a rep cnt n =
     \<lparr>score = n, last_updated = ledger_timestamp e, vc_count = cnt, repayment_rate = rate_bps rep,
      tx_volume_30d = volume_30d (load_tx_stats s a), previous_score = map_option score (co_score s a),
      computed_at_ledger = ledger_sequence e, stale = False\<rparr>"

text \<open>A recomputation writes a record unless the four compared fields are unchanged.\<close>

definition score_unchanged :: "co_state \<Rightarrow> address \<Rightarrow> score_record \<Rightarrow> bool" where
  "score_unchanged s a r \<longleftrightarrow>
     (\<exists>p. co_score s a = Some p \<and> score p = score r \<and> vc_count p = vc_count r \<and>
          repayment_rate p = repayment_rate r \<and> tx_volume_30d p = tx_volume_30d r)"

lemma finish_score_Ok:
  assumes "finish_score e a rep pts cnt s = Ok (n, s')"
  shows "\<exists>w st. co_config s = Some w \<and> n = score_inputs s a rep w pts \<and>
    s' = s\<lparr>co_score := (if score_unchanged s a (new_score_record e s a rep cnt n) then co_score s
                        else (co_score s)(a \<mapsto> new_score_record e s a rep cnt n)),
           co_stats := st, co_events := co_events s @ [ScoreSet a n]\<rparr> \<and>
    (if co_score s a = None
     then \<exists>m. checked_add (total_subjects_scored (co_load_protocol_stats s)) 1 = Some m \<and>
              st = Some ((co_load_protocol_stats s)\<lparr>total_subjects_scored := m\<rparr>)
     else st = co_stats s)"
proof -
  obtain w where w: "co_config s = Some w" using assms by (auto simp: finish_score_def)
  have n: "n = score_inputs s a rep w pts"
    using assms w by (auto simp: finish_score_def score_inputs_def Let_def)
  let ?r = "new_score_record e s a rep cnt n"
  show ?thesis
  proof (cases "co_score s a")
    case None
    then have nu: "\<not> score_unchanged s a ?r" by (simp add: score_unchanged_def)
    show ?thesis
      using assms w None nu n
      by (fastforce simp: finish_score_def Let_def co_publish_def co_increment_simps new_score_record_def
          score_inputs_def [symmetric])
  next
    case (Some p)
    then show ?thesis
      using assms w n
      by (auto simp: finish_score_def Let_def co_publish_def new_score_record_def score_unchanged_def
          score_inputs_def [symmetric] split: if_splits)
  qed
qed

section \<open>Invariants\<close>

text \<open>Configuration: weights, the pending proposal, the cooldown, the storage version, governance.\<close>

definition co_weights_ok :: "co_state \<Rightarrow> bool" where
  "co_weights_ok s \<longleftrightarrow>
     (\<forall>w. co_config s = Some w \<longrightarrow> weights_ok w) \<and>
     (\<forall>w. co_pending_weights s = Some w \<longrightarrow> weights_ok w) \<and>
     (co_pending_weights s = None \<longleftrightarrow> co_pending_effective s = None)"

definition co_governance_ok :: "co_state \<Rightarrow> bool" where
  "co_governance_ok s \<longleftrightarrow>
     (\<forall>g. co_governance_id s = Some g \<longrightarrow> co_admin s = Some g \<and> is_contract_address g)"

definition co_setup_ok :: "co_state \<Rightarrow> bool" where
  "co_setup_ok s \<longleftrightarrow>
     (case co_admin s of
        None \<Rightarrow> co_config s = None \<and> co_pending_admin s = None \<and> co_pending_weights s = None \<and>
          (\<forall>a. \<not> is_trusted_lender s a \<and> \<not> is_trusted_feeder s a)
      | Some _ \<Rightarrow> co_config s \<noteq> None \<and> co_storage_version s = Some 2 \<and>
          (\<exists>n. co_compute_cooldown s = Some n \<and> 1 \<le> unat n \<and> unat n \<le> 86400)) \<and>
     (\<forall>n. co_min_recency s = Some n \<longrightarrow> unat n \<le> 10000)"

definition co_config_ok :: "co_state \<Rightarrow> bool" where
  "co_config_ok s \<longleftrightarrow> co_weights_ok s \<and> co_governance_ok s \<and> co_setup_ok s"

definition co_members_ok :: "(address \<Rightarrow> bool) \<Rightarrow> address list \<Rightarrow> bool" where
  "co_members_ok trusted idx \<longleftrightarrow> distinct idx \<and> {a. trusted a} \<subseteq> set idx"

definition co_feeders_ok :: "co_state \<Rightarrow> bool" where
  "co_feeders_ok s \<longleftrightarrow> co_members_ok (is_trusted_feeder s) (feeders_index s)"

definition co_lenders_ok :: "co_state \<Rightarrow> bool" where
  "co_lenders_ok s \<longleftrightarrow> co_members_ok (is_trusted_lender s) (lenders_index s)"

definition repayment_ok :: "stored_repayment \<Rightarrow> bool" where
  "repayment_ok r =
     (case r of StoredV1 _ \<Rightarrow> False
      | StoredV2 v \<Rightarrow> on_time_count v \<le> total_count v \<and> 0 \<le> sint (total_repaid v))"

definition repayments_in :: "stored_repayment \<Rightarrow> nat" where
  "repayments_in r = (case r of StoredV1 v \<Rightarrow> unat (total_count_v1 v) | StoredV2 v \<Rightarrow> unat (total_count v))"

definition co_repayments_ok :: "co_state \<Rightarrow> bool" where
  "co_repayments_ok s \<longleftrightarrow>
     finite (dom (co_repayment s)) \<and>
     (\<forall>a r. co_repayment s a = Some r \<longrightarrow> repayment_ok r) \<and>
     map_total repayments_in (co_repayment s) \<le> unat (total_repayments_recorded (co_load_protocol_stats s))"

definition score_ok :: "score_record \<Rightarrow> bool" where
  "score_ok r \<longleftrightarrow>
     300 \<le> unat (score r) \<and> unat (score r) \<le> 850 \<and> unat (repayment_rate r) \<le> 10000 \<and> \<not> stale r \<and>
     (\<forall>p. previous_score r = Some p \<longrightarrow> 300 \<le> unat p \<and> unat p \<le> 850)"

definition co_scores_ok :: "co_state \<Rightarrow> bool" where
  "co_scores_ok s \<longleftrightarrow>
     finite (dom (co_score s)) \<and> (\<forall>a r. co_score s a = Some r \<longrightarrow> score_ok r) \<and>
     unat (total_subjects_scored (co_load_protocol_stats s)) = card (dom (co_score s))"

definition co_disputes_ok :: "co_state \<Rightarrow> bool" where
  "co_disputes_ok s \<longleftrightarrow>
     (\<forall>a. distinct (dispute_index s a) \<and> set (dispute_index s a) \<subseteq> set dispute_keys) \<and>
     (\<forall>a k. k \<in> set (dispute_index s a) \<longleftrightarrow> co_dispute s (a, k) \<noteq> None) \<and>
     (\<forall>a k r. co_dispute s (a, k) = Some r \<longrightarrow> dr_subject r = a \<and> dr_input_key r = k)"

definition co_entries_ok :: "co_state \<Rightarrow> bool" where
  "co_entries_ok s \<longleftrightarrow> (\<forall>a. distinct (map vc_id (co_get_vc_list s a)))"

definition co_inv :: "co_state \<Rightarrow> bool" where
  "co_inv s \<longleftrightarrow> co_config_ok s \<and> co_feeders_ok s \<and> co_lenders_ok s \<and> co_repayments_ok s \<and>
     co_scores_ok s \<and> co_disputes_ok s \<and> co_entries_ok s"

subsection \<open>Which calls write which part\<close>

fun co_config_call :: "co_call \<Rightarrow> bool" where
  "co_config_call (CoInitializeCall _) = True"
| "co_config_call (CoSetCooldownCall _ _) = True"
| "co_config_call (CoProposeWeightsCall _) = True"
| "co_config_call CoApplyWeightsCall = True"
| "co_config_call (CoAcceptAdminCall _) = True"
| "co_config_call (CoMigrateCall _) = True"
| "co_config_call (CoProposeAdminCall _) = True"
| "co_config_call (CoSetRecencyDecayCall _ _ _ _) = True"
| "co_config_call _ = False"

fun co_feeder_call :: "co_call \<Rightarrow> bool" where
  "co_feeder_call (CoRegisterFeederCall _ _) = True"
| "co_feeder_call (CoDeregisterFeederCall _ _) = True"
| "co_feeder_call _ = False"

fun co_lender_call :: "co_call \<Rightarrow> bool" where
  "co_lender_call (CoRegisterLenderCall _ _) = True"
| "co_lender_call (CoDeregisterLenderCall _ _) = True"
| "co_lender_call _ = False"

fun co_repayment_call :: "co_call \<Rightarrow> bool" where
  "co_repayment_call (CoRecordRepaymentCall _ _ _ _) = True"
| "co_repayment_call (CoMigrateCall _) = True"
| "co_repayment_call _ = False"

fun co_score_call :: "co_call \<Rightarrow> bool" where
  "co_score_call (CoComputeScoreCall _) = True"
| "co_score_call _ = False"

fun co_dispute_call :: "co_call \<Rightarrow> bool" where
  "co_dispute_call (CoFlagCall _ _ _) = True"
| "co_dispute_call (CoResolveCall _ _ _) = True"
| "co_dispute_call _ = False"

fun co_input_call :: "co_call \<Rightarrow> bool" where
  "co_input_call (CoUpdateTxStatsCall _ _ _) = True"
| "co_input_call (CoSetVcCountCall _ _ _) = True"
| "co_input_call (CoAnchorVcCall _ _ _ _) = True"
| "co_input_call _ = False"

lemmas co_guard_defs = co_require_named_admin_def co_require_stored_admin_def co_ensure_not_paused_def
  co_require_feeder_def co_publish_def

lemmas co_call_defs = co_initialize_def co_set_compute_cooldown_ledgers_def co_set_vc_type_weight_def
  co_set_recency_decay_def co_pause_def co_unpause_def co_upgrade_def co_register_feeder_def
  co_deregister_feeder_def co_register_lender_def co_deregister_lender_def co_update_tx_stats_def
  co_set_vc_count_def co_anchor_vc_def co_migrate_def co_propose_weights_def co_apply_weights_def
  co_set_identity_oracle_def co_propose_new_admin_def co_accept_admin_def co_flag_score_input_def
  co_resolve_dispute_def co_guard_defs

lemma co_record_repayment_Ok:
  "co_record_repayment e l a n b s = Ok s' \<longleftrightarrow>
     0 < sint n \<and> \<not> co_is_paused s \<and> authorized e l \<and> is_trusted_lender s l \<and>
     (\<exists>r m. (if unwrap_or (co_storage_version s) 1 < 2
             then map_option (StoredV1 \<circ> bump_v1 b) (read_repayment_v1 s a)
             else map_option (StoredV2 \<circ> bump_v2 n b) (read_repayment_v2 s a)) = Some r \<and>
        checked_add (total_repayments_recorded (co_load_protocol_stats s)) 1 = Some m \<and>
        s' = s\<lparr>co_repayment := (co_repayment s)(a \<mapsto> r),
               co_stats := Some ((co_load_protocol_stats s)\<lparr>total_repayments_recorded := m\<rparr>)\<rparr>)"
proof -
  have ld: "co_load_protocol_stats (s\<lparr>co_repayment := x\<rparr>) = co_load_protocol_stats s" for x
    by (simp add: co_load_protocol_stats_def)
  show ?thesis
    unfolding co_record_repayment_def
    by (auto simp: co_ensure_not_paused_def co_is_paused_def co_increment_simps ld not_le
        simp del: o_apply)
qed

text \<open>A call's writes, by field: every field is left alone by the calls of the other groups.\<close>

lemma co_frame:
  assumes "co_exec e iv probe c (s, w) = Ok (s', w')"
  shows "(\<not> co_config_call c \<longrightarrow> co_admin s' = co_admin s \<and> co_config s' = co_config s \<and>
            co_pending_weights s' = co_pending_weights s \<and> co_pending_effective s' = co_pending_effective s \<and>
            co_compute_cooldown s' = co_compute_cooldown s \<and> co_storage_version s' = co_storage_version s \<and>
            co_governance_id s' = co_governance_id s \<and> co_min_recency s' = co_min_recency s \<and>
            co_pending_admin s' = co_pending_admin s) \<and>
    (\<not> co_feeder_call c \<longrightarrow> co_trusted_feeder s' = co_trusted_feeder s \<and> co_feeders_index s' = co_feeders_index s) \<and>
    (\<not> co_lender_call c \<longrightarrow> co_trusted_lender s' = co_trusted_lender s \<and> co_lenders_index s' = co_lenders_index s) \<and>
    (\<not> co_repayment_call c \<longrightarrow> co_repayment s' = co_repayment s \<and>
       total_repayments_recorded (co_load_protocol_stats s') = total_repayments_recorded (co_load_protocol_stats s)) \<and>
    (\<not> co_score_call c \<longrightarrow> co_score s' = co_score s \<and>
       total_subjects_scored (co_load_protocol_stats s') = total_subjects_scored (co_load_protocol_stats s)) \<and>
    (\<not> co_dispute_call c \<longrightarrow> co_dispute s' = co_dispute s \<and> co_dispute_index s' = co_dispute_index s) \<and>
    (\<not> co_input_call c \<longrightarrow> co_tx_stats s' = co_tx_stats s \<and> co_vc_count s' = co_vc_count s \<and>
       co_vc_list s' = co_vc_list s)"
proof (cases c)
  case (CoComputeScoreCall a)
  then obtain n where "co_compute_score e iv a s = Ok (n, s')" using assms by auto
  from co_compute_score_Ok [OF this] show ?thesis
    using CoComputeScoreCall
    by (auto dest!: finish_score_Ok simp: co_load_protocol_stats_def split: if_splits)
next
  case (CoRecordRepaymentCall l a n b)
  then show ?thesis using assms by (auto simp: co_record_repayment_Ok co_load_protocol_stats_def)
qed (use assms in \<open>auto simp: co_call_defs co_load_protocol_stats_def Let_def
       split: option.splits if_splits prod.splits\<close>)

subsection \<open>Preservation\<close>

lemma default_weights_ok: "weights_ok default_weights"
  by (simp add: weights_ok_def default_weights_def)

lemma co_weights_ok_cong:
  assumes "co_config s' = co_config s" "co_pending_weights s' = co_pending_weights s"
    "co_pending_effective s' = co_pending_effective s"
  shows "co_weights_ok s' = co_weights_ok s"
  using assms by (simp add: co_weights_ok_def)

lemma co_governance_ok_cong:
  assumes "co_admin s' = co_admin s" "co_governance_id s' = co_governance_id s"
  shows "co_governance_ok s' = co_governance_ok s"
  using assms by (simp add: co_governance_ok_def)

lemma co_setup_ok_cong:
  assumes "co_admin s' = co_admin s" "co_config s' = None \<longleftrightarrow> co_config s = None"
    "co_pending_weights s' = None \<longleftrightarrow> co_pending_weights s = None"
    "co_compute_cooldown s' = co_compute_cooldown s" "co_storage_version s' = co_storage_version s"
    "co_min_recency s' = co_min_recency s" "co_pending_admin s' = co_pending_admin s"
    and "co_admin s \<noteq> None \<or> (co_trusted_feeder s' = co_trusted_feeder s \<and> co_trusted_lender s' = co_trusted_lender s)"
  shows "co_setup_ok s' = co_setup_ok s"
  using assms
  by (auto simp: co_setup_ok_def is_trusted_feeder_def is_trusted_lender_def split: option.splits)

lemma co_exec_weights:
  assumes "co_exec e iv probe c (s, w) = Ok (s', w')" and "co_weights_ok s"
  shows "co_weights_ok s'"
proof (cases "co_config_call c")
  case False
  then show ?thesis
    using co_frame [OF assms(1)] assms(2) by (simp add: co_weights_ok_cong [of s' s])
next
  case True
  then show ?thesis
  proof (cases c)
    case (CoProposeWeightsCall x)
    then obtain l ev where v: "is_valid x = Some True" and
        s': "s' = s\<lparr>co_pending_weights := Some x, co_pending_effective := Some l, co_events := ev\<rparr>"
      using assms(1) by (auto simp: co_propose_weights_def co_guard_defs split: option.splits if_splits)
    have "weights_ok x" using v by (simp add: is_valid_iff)
    then show ?thesis using assms(2) unfolding s' by (simp add: co_weights_ok_def)
  qed (use assms default_weights_ok in \<open>auto simp: co_call_defs co_weights_ok_def Let_def
         split: option.splits if_splits\<close>)
qed

lemma co_exec_governance:
  assumes "co_exec e iv probe c (s, w) = Ok (s', w')" and "co_governance_ok s"
  shows "co_governance_ok s'"
proof (cases "co_config_call c")
  case False
  then show ?thesis
    using co_frame [OF assms(1)] assms(2) by (simp add: co_governance_ok_cong [of s' s])
next
  case True
  then show ?thesis
    by (cases c)
       (use assms in \<open>auto simp: co_call_defs co_governance_ok_def Let_def split: option.splits if_splits\<close>)
qed

lemma co_exec_setup:
  assumes "co_exec e iv probe c (s, w) = Ok (s', w')" and "co_setup_ok s"
  shows "co_setup_ok s'"
proof (cases "co_config_call c")
  case False
  have "co_admin s \<noteq> None" if "co_feeder_call c \<or> co_lender_call c"
    using assms(1) that by (cases c) (auto simp: co_call_defs split: option.splits)
  then show ?thesis
    using co_frame [OF assms(1)] False assms(2) by (subst co_setup_ok_cong [of s' s]) auto
next
  case True
  then show ?thesis
    by (cases c)
       (use assms in \<open>auto simp: co_call_defs co_setup_ok_def is_trusted_feeder_def is_trusted_lender_def
          DEFAULT_COMPUTE_COOLDOWN_LEDGERS_def MAX_COMPUTE_COOLDOWN_LEDGERS_def word_less_nat_alt
          word_neq_0_conv Suc_le_eq Let_def split: option.splits if_splits\<close>)
qed

lemma co_exec_config:
  assumes "co_exec e iv probe c (s, w) = Ok (s', w')" and "co_config_ok s"
  shows "co_config_ok s'"
  using assms co_exec_weights [OF assms(1)] co_exec_governance [OF assms(1)] co_exec_setup [OF assms(1)]
  by (simp add: co_config_ok_def)

lemma co_register_feeder_ok:
  assumes "co_register_feeder e m a s = Ok s'" and "co_feeders_ok s"
  shows "co_feeders_ok s' \<and> (\<forall>b. is_trusted_feeder s' b \<longleftrightarrow> b = a \<or> is_trusted_feeder s b)"
proof -
  have t: "is_trusted_feeder s' b \<longleftrightarrow> b = a \<or> is_trusted_feeder s b" for b
    using assms(1) by (auto simp: co_register_feeder_def co_guard_defs is_trusted_feeder_def Let_def
        split: option.splits if_splits)
  have "feeders_index s' = (if a \<in> set (feeders_index s) then feeders_index s else feeders_index s @ [a])"
    using assms(1) by (auto simp: co_register_feeder_def co_guard_defs feeders_index_def Let_def
        split: option.splits if_splits)
  then show ?thesis using t assms(2) by (auto simp: co_feeders_ok_def co_members_ok_def)
qed

lemma co_deregister_feeder_ok:
  assumes "co_deregister_feeder e m a s = Ok s'" and "co_feeders_ok s"
  shows "co_feeders_ok s' \<and> (\<forall>b. is_trusted_feeder s' b \<longleftrightarrow> b \<noteq> a \<and> is_trusted_feeder s b)"
proof -
  have t: "is_trusted_feeder s' b \<longleftrightarrow> b \<noteq> a \<and> is_trusted_feeder s b" for b
    using assms(1) by (auto simp: co_deregister_feeder_def co_guard_defs is_trusted_feeder_def
        split: option.splits if_splits)
  have "feeders_index s' = feeders_index s"
    using assms(1) by (auto simp: co_deregister_feeder_def co_guard_defs feeders_index_def
        split: option.splits if_splits)
  then show ?thesis using t assms(2) by (auto simp: co_feeders_ok_def co_members_ok_def)
qed

lemma co_register_lender_ok:
  assumes "co_register_lender e m a s = Ok s'" and "co_lenders_ok s"
  shows "co_lenders_ok s' \<and> (\<forall>b. is_trusted_lender s' b \<longleftrightarrow> b = a \<or> is_trusted_lender s b)"
proof -
  have t: "is_trusted_lender s' b \<longleftrightarrow> b = a \<or> is_trusted_lender s b" for b
    using assms(1) by (auto simp: co_register_lender_def co_guard_defs is_trusted_lender_def Let_def
        split: option.splits if_splits)
  have "lenders_index s' = (if a \<in> set (lenders_index s) then lenders_index s else lenders_index s @ [a])"
    using assms(1) by (auto simp: co_register_lender_def co_guard_defs lenders_index_def Let_def
        split: option.splits if_splits)
  then show ?thesis using t assms(2) by (auto simp: co_lenders_ok_def co_members_ok_def)
qed

lemma co_deregister_lender_ok:
  assumes "co_deregister_lender e m a s = Ok s'" and "co_lenders_ok s"
  shows "co_lenders_ok s' \<and> (\<forall>b. is_trusted_lender s' b \<longleftrightarrow> b \<noteq> a \<and> is_trusted_lender s b)"
proof -
  have t: "is_trusted_lender s' b \<longleftrightarrow> b \<noteq> a \<and> is_trusted_lender s b" for b
    using assms(1) by (auto simp: co_deregister_lender_def co_guard_defs is_trusted_lender_def
        split: option.splits if_splits)
  have "lenders_index s' = lenders_index s"
    using assms(1) by (auto simp: co_deregister_lender_def co_guard_defs lenders_index_def
        split: option.splits if_splits)
  then show ?thesis using t assms(2) by (auto simp: co_lenders_ok_def co_members_ok_def)
qed

lemma co_exec_members:
  assumes "co_exec e iv probe c (s, w) = Ok (s', w')" and "co_feeders_ok s" and "co_lenders_ok s"
  shows "co_feeders_ok s' \<and> co_lenders_ok s'"
proof
  show "co_feeders_ok s'"
  proof (cases "co_feeder_call c")
    case True
    then show ?thesis
      using assms(1,2) co_register_feeder_ok co_deregister_feeder_ok by (cases c) auto
  next
    case False
    then have "is_trusted_feeder s' = is_trusted_feeder s" "feeders_index s' = feeders_index s"
      using co_frame [OF assms(1)] by (auto simp: is_trusted_feeder_def feeders_index_def)
    then show ?thesis using assms(2) by (simp add: co_feeders_ok_def)
  qed
  show "co_lenders_ok s'"
  proof (cases "co_lender_call c")
    case True
    then show ?thesis
      using assms(1,3) co_register_lender_ok co_deregister_lender_ok by (cases c) auto
  next
    case False
    then have "is_trusted_lender s' = is_trusted_lender s" "lenders_index s' = lenders_index s"
      using co_frame [OF assms(1)] by (auto simp: is_trusted_lender_def lenders_index_def)
    then show ?thesis using assms(3) by (simp add: co_lenders_ok_def)
  qed
qed

text \<open>A repayment keeps its record well formed and adds at most one to its total.\<close>

lemma bump_v2_ok:
  assumes "on_time_count r \<le> total_count r" and "0 \<le> sint (total_repaid r)" and "0 < sint n"
  shows "repayment_ok (StoredV2 (bump_v2 n b r))"
    and "repayments_in (StoredV2 (bump_v2 n b r)) \<le> unat (total_count r) + 1"
  using assms unat_u32_less [of "total_count r"]
  by (auto simp: repayment_ok_def repayments_in_def bump_v2_def word_le_nat_alt
      unat_saturating_add sint_i128_saturating_add)

lemma migrate_loop_v2:
  assumes "\<And>a r. m a = Some r \<Longrightarrow> repayment_ok r"
  shows "migrate_loop as m = Some m' \<Longrightarrow> m' = m"
proof (induction as)
  case (Cons a as)
  then show ?case
    using assms [of a] by (auto simp: repayment_ok_def split: option.splits stored_repayment.splits)
qed simp

lemma co_exec_repayments:
  assumes "co_exec e iv probe c (s, w) = Ok (s', w')" and "co_repayments_ok s" and "co_setup_ok s"
  shows "co_repayments_ok s'"
proof (cases "co_repayment_call c")
  case False
  then show ?thesis using co_frame [OF assms(1)] assms(2) by (simp add: co_repayments_ok_def)
next
  case True
  then show ?thesis
  proof (cases c)
    case (CoRecordRepaymentCall l a n b)
    then have rec: "co_record_repayment e l a n b s = Ok s'" using assms(1) by simp
    then have "co_admin s \<noteq> None"
      using assms(3) by (auto simp: co_record_repayment_Ok co_setup_ok_def split: option.splits)
    then have v: "co_storage_version s = Some 2"
      using assms(3) by (auto simp: co_setup_ok_def)
    obtain r m where pos: "0 < sint n" and r: "read_repayment_v2 s a = Some r"
      and m: "checked_add (total_repayments_recorded (co_load_protocol_stats s)) 1 = Some m"
      and s': "s' = s\<lparr>co_repayment := (co_repayment s)(a \<mapsto> StoredV2 (bump_v2 n b r)),
               co_stats := Some ((co_load_protocol_stats s)\<lparr>total_repayments_recorded := m\<rparr>)\<rparr>"
      using rec v by (auto simp: co_record_repayment_Ok)
    have fin: "finite (dom (co_repayment s))" using assms(2) by (simp add: co_repayments_ok_def)
    have old: "on_time_count r \<le> total_count r \<and> 0 \<le> sint (total_repaid r) \<and>
        entry_of repayments_in (co_repayment s a) = unat (total_count r)"
    proof (cases "co_repayment s a")
      case None
      then show ?thesis using r by (auto simp: read_repayment_v2_def)
    next
      case (Some q)
      then have "repayment_ok q" using assms(2) by (auto simp: co_repayments_ok_def)
      then show ?thesis
        using r Some by (cases q) (auto simp: read_repayment_v2_def repayment_ok_def repayments_in_def)
    qed
    note ok = bump_v2_ok [OF old [THEN conjunct1] old [THEN conjunct2, THEN conjunct1] pos, of b]
    have "map_total repayments_in (co_repayment s') + unat (total_count r)
        \<le> map_total repayments_in (co_repayment s) + (unat (total_count r) + 1)"
      using map_total_update [OF fin, of repayments_in a "Some (StoredV2 (bump_v2 n b r))"] ok(2) old
      by (simp add: s')
    moreover have "unat m = unat (total_repayments_recorded (co_load_protocol_stats s)) + 1"
      using unat_checked_add [OF m] by simp
    ultimately show ?thesis
      using assms(2) ok(1) by (auto simp: co_repayments_ok_def s' co_load_protocol_stats_def)
  next
    case (CoMigrateCall as)
    then obtain m where "migrate_loop as (co_repayment s) = Some m"
        "s' = s\<lparr>co_repayment := m, co_storage_version := Some 2\<rparr>"
      using assms(1) by (auto simp: co_migrate_def split: if_splits)
    moreover from this have "m = co_repayment s"
      using migrate_loop_v2 assms(2) by (auto simp: co_repayments_ok_def)
    ultimately show ?thesis using assms(2) by (simp add: co_repayments_ok_def co_load_protocol_stats_def)
  qed simp_all
qed

lemma unat_rate_bps:
  assumes "on_time_count r \<le> total_count r"
  shows "unat (rate_bps r) = unat (on_time_count r) * 10000 div unat (total_count r)
    \<and> unat (rate_bps r) \<le> 10000"
proof -
  let ?n = "unat (on_time_count r)" and ?t = "unat (total_count r)"
  have n: "?n < 2 ^ 32" using unat_u32_less [of "on_time_count r"] by simp
  have m: "unat ((ucast (on_time_count r) :: u64) * 10000) = ?n * 10000"
    using n by (subst unat_mult_nowrap) simp_all
  have z: "(ucast (total_count r) :: u64) = 0 \<longleftrightarrow> ?t = 0" by (simp add: word_unat_eq_iff)
  have q: "?n * 10000 div ?t \<le> 10000"
  proof (cases "?t = 0")
    case False
    have "?n * 10000 div ?t \<le> ?t * 10000 div ?t"
      using assms by (intro div_le_mono mult_le_mono1) (simp add: word_le_nat_alt)
    then show ?thesis using False by simp
  qed simp
  have "unat (unwrap_or (checked_div ((ucast (on_time_count r) :: u64) * 10000)
      (ucast (total_count r))) 0) = ?n * 10000 div ?t"
    by (simp add: checked_div_def z unat_div_word m)
  then show ?thesis using q unfolding rate_bps_def by (subst (1 2) unat_narrow) simp_all
qed

lemma load_repayment_ok:
  assumes "co_repayments_ok s" and "load_repayment s a = Some r"
  shows "on_time_count r \<le> total_count r \<and> 0 \<le> sint (total_repaid r)"
proof (cases "co_repayment s a")
  case None
  then show ?thesis
    using assms(2) by (auto simp: load_repayment_def read_repayment_v1_def read_repayment_v2_def split: if_splits)
next
  case (Some q)
  then have "repayment_ok q" using assms(1) by (auto simp: co_repayments_ok_def)
  then show ?thesis
    using assms(2) Some
    by (cases q) (auto simp: load_repayment_def read_repayment_v1_def read_repayment_v2_def
        repayment_ok_def split: if_splits)
qed

lemma score_inputs_bounds:
  "300 \<le> unat (score_inputs s a rep w pts)" "unat (score_inputs s a rep w pts) \<le> 850"
  by (simp_all add: score_inputs_def unat_compute_score_pure score_spec_def final_spec_def)

lemma co_exec_scores:
  assumes "co_exec e iv probe c (s, w) = Ok (s', w')" and "co_scores_ok s" and "co_repayments_ok s"
  shows "co_scores_ok s'"
proof (cases "co_score_call c")
  case False
  then show ?thesis using co_frame [OF assms(1)] assms(2) by (simp add: co_scores_ok_def)
next
  case True
  then obtain a where c: "c = CoComputeScoreCall a" by (cases c) simp_all
  then obtain n where comp: "co_compute_score e iv a s = Ok (n, s')" using assms(1) by auto
  show ?thesis
  proof (cases "is_deactivated_subject iv s a")
    case True
    then show ?thesis using co_compute_score_Ok [OF comp] assms(2) by simp
  next
    case False
    then obtain rep pts cnt where rep: "load_repayment s a = Some rep"
      and fin: "finish_score e a rep pts cnt s = Ok (n, s')"
      using co_compute_score_Ok [OF comp] by auto
    let ?r = "new_score_record e s a rep cnt n"
    obtain x st where n: "n = score_inputs s a rep x pts" and
      s': "s' = s\<lparr>co_score := (if score_unchanged s a ?r then co_score s else (co_score s)(a \<mapsto> ?r)),
           co_stats := st, co_events := co_events s @ [ScoreSet a n]\<rparr>" and
      st: "if co_score s a = None
           then \<exists>m. checked_add (total_subjects_scored (co_load_protocol_stats s)) 1 = Some m \<and>
              st = Some ((co_load_protocol_stats s)\<lparr>total_subjects_scored := m\<rparr>)
           else st = co_stats s"
      using finish_score_Ok [OF fin] by blast
    have r: "score_ok ?r"
      using unat_rate_bps [of rep] load_repayment_ok [OF assms(3) rep] score_inputs_bounds [of s a rep x pts]
        assms(2) by (auto simp: score_ok_def new_score_record_def n co_scores_ok_def)
    show ?thesis
    proof (cases "co_score s a")
      case None
      then have nu: "\<not> score_unchanged s a ?r" by (simp add: score_unchanged_def)
      obtain m where m: "checked_add (total_subjects_scored (co_load_protocol_stats s)) 1 = Some m"
          "st = Some ((co_load_protocol_stats s)\<lparr>total_subjects_scored := m\<rparr>)"
        using st None by auto
      have "card (insert a (dom (co_score s))) = card (dom (co_score s)) + 1"
        using None assms(2) by (subst card_insert_disjoint) (auto simp: co_scores_ok_def)
      then show ?thesis
        using assms(2) r nu unat_checked_add [OF m(1)] m(2)
        by (auto simp: co_scores_ok_def s' co_load_protocol_stats_def)
    next
      case (Some p)
      then have "insert a (dom (co_score s)) = dom (co_score s)" by auto
      then show ?thesis
        using assms(2) r st Some by (auto simp: co_scores_ok_def s' co_load_protocol_stats_def)
    qed
  qed
qed

lemma co_exec_disputes:
  assumes "co_exec e iv probe c (s, w) = Ok (s', w')" and "co_disputes_ok s"
  shows "co_disputes_ok s'"
proof (cases "co_dispute_call c")
  case False
  then show ?thesis
    using co_frame [OF assms(1)] assms(2) by (simp add: co_disputes_ok_def dispute_index_def)
next
  case True
  then show ?thesis
  proof (cases c)
    case (CoFlagCall a k reason)
    let ?r = "\<lparr>dr_subject = a, dr_input_key = k, dr_reason = reason,
               dr_filed_at_ledger = ledger_sequence e, dr_status = Pending\<rparr>"
    have key: "k \<in> set dispute_keys" and d: "co_dispute s' = (co_dispute s)((a, k) \<mapsto> ?r)"
      using assms(1) CoFlagCall
      by (auto simp: co_flag_score_input_def co_publish_def Let_def split: if_splits option.splits)
    have i: "dispute_index s' b = (if b = a \<and> k \<notin> set (dispute_index s a)
        then dispute_index s a @ [k] else dispute_index s b)" for b
      using assms(1) CoFlagCall
      by (auto simp: co_flag_score_input_def co_publish_def dispute_index_def Let_def
          split: if_splits option.splits)
    show ?thesis using assms(2) key unfolding co_disputes_ok_def i d by auto
  next
    case (CoResolveCall a k b)
    then obtain r where r: "co_dispute s (a, k) = Some r" and
        d: "co_dispute s' = (co_dispute s)((a, k) \<mapsto> r\<lparr>dr_status := if b then Resolved else Rejected\<rparr>)" and
        i: "co_dispute_index s' = co_dispute_index s"
      using assms(1) by (auto simp: co_resolve_dispute_def co_guard_defs Let_def split: if_splits option.splits)
    show ?thesis using assms(2) r unfolding co_disputes_ok_def dispute_index_def i d by auto
  qed simp_all
qed

lemma co_exec_entries:
  assumes "co_exec e iv probe c (s, w) = Ok (s', w')" and "co_entries_ok s"
  shows "co_entries_ok s'"
proof (cases "\<exists>f a h t. c = CoAnchorVcCall f a h t")
  case True
  then obtain f a h t where c: "c = CoAnchorVcCall f a h t" by blast
  have "co_get_vc_list s' b =
      (if b = a \<and> (\<forall>x \<in> set (co_get_vc_list s a). vc_id x \<noteq> h)
       then co_get_vc_list s a @ [\<lparr>vc_id = h, vc_type = t\<rparr>] else co_get_vc_list s b)" for b
    using assms(1) c by (auto simp: co_anchor_vc_def co_guard_defs co_get_vc_list_def split: if_splits)
  then show ?thesis using assms(2) by (auto simp: co_entries_ok_def)
next
  case False
  then have "co_vc_list s' = co_vc_list s"
  proof (cases "co_input_call c")
    case True
    then show ?thesis using assms(1) False
      by (cases c) (auto simp: co_update_tx_stats_def co_set_vc_count_def co_guard_defs Let_def
          split: if_splits)
  qed (use co_frame [OF assms(1)] in simp)
  then show ?thesis using assms(2) by (simp add: co_entries_ok_def co_get_vc_list_def)
qed

lemma co_exec_inv:
  assumes "co_exec e iv probe c (s, w) = Ok (s', w')" and "co_inv s"
  shows "co_inv s'"
  using assms(2) co_exec_config [OF assms(1)] co_exec_members [OF assms(1)]
    co_exec_repayments [OF assms(1)] co_exec_scores [OF assms(1)] co_exec_disputes [OF assms(1)]
    co_exec_entries [OF assms(1)]
  by (simp add: co_inv_def co_config_ok_def)

lemma co_new_inv: "co_inv co_new"
  by (simp add: co_inv_def co_config_ok_def co_weights_ok_def co_governance_ok_def co_setup_ok_def
      co_feeders_ok_def co_lenders_ok_def co_members_ok_def co_repayments_ok_def co_scores_ok_def
      co_disputes_ok_def co_entries_ok_def co_new_def is_trusted_feeder_def is_trusted_lender_def
      feeders_index_def lenders_index_def dispute_index_def co_get_vc_list_def
      co_load_protocol_stats_def co_default_stats_def)

lemma co_reachable_inv: "co_reachable sw \<Longrightarrow> co_inv (fst sw)"
proof (induction rule: co_reachable.induct)
  case (co_start w)
  show ?case by (simp add: co_new_inv)
next
  case (co_step sw e iv probe c sw')
  then show ?case
    using co_exec_inv [of e iv probe c "fst sw" "snd sw" "fst sw'" "snd sw'"] by simp
qed

section \<open>The shared contracts, interpreted\<close>

interpretation co_feeder_index: flag_index co_feeders_ok is_trusted_feeder co_list_feeders
  "\<lambda>e a s. co_register_feeder e m a s" "\<lambda>e a s. co_deregister_feeder e m a s" for m
proof unfold_locales
  fix s
  assume "co_feeders_ok s"
  then show "distinct (co_list_feeders s) \<and> set (co_list_feeders s) = {a. is_trusted_feeder s a}"
    by (auto simp: co_list_feeders_eq co_feeders_ok_def co_members_ok_def)
qed (use co_register_feeder_ok co_deregister_feeder_ok in blast)+

interpretation co_lender_index: flag_index co_lenders_ok is_trusted_lender co_list_lenders
  "\<lambda>e a s. co_register_lender e m a s" "\<lambda>e a s. co_deregister_lender e m a s" for m
proof unfold_locales
  fix s
  assume "co_lenders_ok s"
  then show "distinct (co_list_lenders s) \<and> set (co_list_lenders s) = {a. is_trusted_lender s a}"
    by (auto simp: co_list_lenders_eq co_lenders_ok_def co_members_ok_def)
qed (use co_register_lender_ok co_deregister_lender_ok in blast)+

interpretation co_handover: admin_handover co_admin co_pending_admin co_propose_new_admin co_accept_admin
  by unfold_locales
     (auto simp: co_propose_new_admin_def co_accept_admin_def co_guard_defs Let_def
      split: option.splits if_splits)

interpretation co_init: one_shot_init co_admin co_initialize
  by unfold_locales (auto simp: co_initialize_def co_publish_def split: if_splits)

text \<open>The calls the pause flag stops.\<close>

fun co_pause_guarded :: "co_call \<Rightarrow> bool" where
  "co_pause_guarded (CoUpdateTxStatsCall _ _ _) = True"
| "co_pause_guarded (CoRecordRepaymentCall _ _ _ _) = True"
| "co_pause_guarded (CoSetVcCountCall _ _ _) = True"
| "co_pause_guarded (CoAnchorVcCall _ _ _ _) = True"
| "co_pause_guarded (CoComputeScoreCall _) = True"
| "co_pause_guarded CoApplyWeightsCall = True"
| "co_pause_guarded _ = False"

lemma co_paused_blocks:
  "co_is_paused s \<Longrightarrow> co_pause_guarded c \<Longrightarrow> \<not> is_ok (co_exec e iv probe c (s, w))"
  by (cases c) (auto simp: co_local_def co_guard_defs co_is_paused_def co_update_tx_stats_def
      co_record_repayment_def co_set_vc_count_def co_anchor_vc_def co_compute_score_def co_apply_weights_def)

interpretation co_switch: pause_switch co_is_paused "\<lambda>e s. co_pause e m s" "\<lambda>e s. co_unpause e m s"
  co_pause_guarded "\<lambda>e c s. outcome_bind (co_exec e iv probe c (s, w)) (\<lambda>(s', _). Ok s')" for m iv probe w
proof unfold_locales
  fix s c e
  assume "co_is_paused s" "co_pause_guarded c"
  then have "\<not> is_ok (co_exec e iv probe c (s, w))" by (rule co_paused_blocks)
  then show "\<not> is_ok (outcome_bind (co_exec e iv probe c (s, w)) (\<lambda>(s', _). Ok s'))"
    by (cases "co_exec e iv probe c (s, w)") simp_all
qed (auto simp: co_pause_def co_unpause_def co_publish_def co_is_paused_def split: if_splits)

section \<open>Properties\<close>

text \<open>A concrete run, shared by the witnesses: an initialised oracle with a feeder and a lender.\<close>

definition co_demo_env :: env where
  "co_demo_env = \<lparr>ledger_sequence = 1000, ledger_timestamp = 5000,
     signers = {''admin'', ''feed'', ''bank'', ''bob''}, invoker = None, current_contract = ''credit'',
     call_stack = []\<rparr>"

definition co_demo_view :: identity_view where
  "co_demo_view = \<lparr>iv_is_deactivated = (\<lambda>_ _. Some False), iv_get_vc_details = (\<lambda>_ _. Some []),
     iv_verify_vc = (\<lambda>_ _ _. Some True), iv_get_vc_credential_type = (\<lambda>_ _ _. Some ''generic''),
     iv_get_last_state_change_ledger = (\<lambda>_ _. Some None)\<rparr>"

definition co_demo_probe :: "unit probe_call" where
  "co_demo_probe e a b w = Some (0, w)"

definition co_demo_state :: co_state where
  "co_demo_state = co_new\<lparr>co_admin := Some ''admin'', co_config := Some default_weights,
     co_compute_cooldown := Some 1, co_storage_version := Some 2,
     co_feeders_index := Some [''feed''], co_trusted_feeder := [''feed'' \<mapsto> True],
     co_lenders_index := Some [''bank''], co_trusted_lender := [''bank'' \<mapsto> True],
     co_events := [CoInitialized ''admin'', FdrReg ''feed'', LndReg ''bank'']\<rparr>"

lemmas co_demo_defs = co_demo_env_def co_demo_view_def co_demo_probe_def co_demo_state_def co_new_def

lemma co_demo_reachable: "co_reachable (co_demo_state, ())"
proof -
  let ?s1 = "co_new\<lparr>co_admin := Some ''admin'', co_config := Some default_weights,
     co_compute_cooldown := Some 1, co_storage_version := Some 2, co_events := [CoInitialized ''admin'']\<rparr>"
  let ?s2 = "?s1\<lparr>co_feeders_index := Some [''feed''], co_trusted_feeder := [''feed'' \<mapsto> True],
     co_events := [CoInitialized ''admin'', FdrReg ''feed'']\<rparr>"
  have "co_exec co_demo_env co_demo_view co_demo_probe (CoInitializeCall ''admin'') (co_new, ()) = Ok (?s1, ())"
    by (simp add: co_initialize_def co_publish_def co_demo_defs authorized_def
        DEFAULT_COMPUTE_COOLDOWN_LEDGERS_def)
  then have "co_reachable (?s1, ())" by (rule co_step [OF co_start])
  moreover have "co_exec co_demo_env co_demo_view co_demo_probe (CoRegisterFeederCall ''admin'' ''feed'') (?s1, ())
      = Ok (?s2, ())"
    by (simp add: co_register_feeder_def co_guard_defs co_demo_defs authorized_def feeders_index_def Let_def)
  ultimately have "co_reachable (?s2, ())" by (rule co_step)
  moreover have "co_exec co_demo_env co_demo_view co_demo_probe (CoRegisterLenderCall ''admin'' ''bank'') (?s2, ())
      = Ok (co_demo_state, ())"
    by (simp add: co_register_lender_def co_guard_defs co_demo_defs authorized_def lenders_index_def Let_def)
  ultimately show ?thesis by (rule co_step)
qed

subsection \<open>The invariant\<close>

text \<open>C3: In every reachable state of a credit-oracle deployed at the current layout the active weights
  and a pending proposal are valid, a proposal exists exactly when its effective ledger does, an
  initialised oracle has weights and a cooldown between 1 and 86400 ledgers, \<open>get_governance\<close>
  only names a contract that holds the admin role, every stored score and previous score lies
  between 300 and 850 with a repayment rate of at most 10000, the number of scored subjects is
  exactly the number of stored scores, every repayment record is in the current layout with
  no more on-time than total repayments, and feeder and lender listings are exact.\<close>

theorem co_state_invariant:
  assumes "co_reachable (s, w)"
  shows "(\<forall>x. co_config s = Some x \<or> co_pending_weights s = Some x \<longrightarrow> is_valid x = Some True)
    \<and> (co_pending_weights s = None \<longleftrightarrow> co_pending_effective s = None)
    \<and> (co_admin s \<noteq> None \<longrightarrow> co_config s \<noteq> None \<and> 1 \<le> unat (co_get_compute_cooldown_ledgers s)
          \<and> unat (co_get_compute_cooldown_ledgers s) \<le> 86400)
    \<and> (\<forall>g. co_get_governance s = Some g \<longrightarrow> co_admin s = Some g \<and> is_contract_address g)
    \<and> (\<forall>a r. co_score s a = Some r \<longrightarrow> score_ok r)
    \<and> unat (total_subjects_scored (co_get_protocol_stats s)) = card (dom (co_score s))
    \<and> (\<forall>a r. co_repayment s a = Some r \<longrightarrow> repayment_ok r)
    \<and> map_total repayments_in (co_repayment s) \<le> unat (total_repayments_recorded (co_get_protocol_stats s))
    \<and> distinct (co_list_feeders s) \<and> set (co_list_feeders s) = {a. is_trusted_feeder s a}
    \<and> distinct (co_list_lenders s) \<and> set (co_list_lenders s) = {a. is_trusted_lender s a}"
proof -
  have inv: "co_inv s" using co_reachable_inv [OF assms] by simp
  have cfg: "co_admin s \<noteq> None \<longrightarrow> co_config s \<noteq> None \<and> 1 \<le> unat (co_get_compute_cooldown_ledgers s)
          \<and> unat (co_get_compute_cooldown_ledgers s) \<le> 86400"
    using inv by (auto simp: co_inv_def co_config_ok_def co_setup_ok_def co_get_compute_cooldown_ledgers_def)
  have weights: "(\<forall>x. co_config s = Some x \<or> co_pending_weights s = Some x \<longrightarrow> is_valid x = Some True)
    \<and> (co_pending_weights s = None \<longleftrightarrow> co_pending_effective s = None)"
    using inv by (auto simp: co_inv_def co_config_ok_def co_weights_ok_def is_valid_iff)
  show ?thesis
    using cfg weights inv co_feeder_index.listing_exact [of s] co_lender_index.listing_exact [of s]
    by (simp add: co_inv_def co_config_ok_def co_governance_ok_def co_get_governance_def co_scores_ok_def
        co_get_protocol_stats_def co_repayments_ok_def)
qed

theorem co_state_invariant_witness:
  "is_valid default_weights = Some True \<and> 1 \<le> unat (co_get_compute_cooldown_ledgers co_demo_state)
   \<and> set (co_list_feeders co_demo_state) = {a. is_trusted_feeder co_demo_state a}"
proof -
  have "co_config co_demo_state = Some default_weights" "co_admin co_demo_state \<noteq> None"
    by (simp_all add: co_demo_defs)
  then show ?thesis using co_state_invariant [OF co_demo_reachable] by blast
qed

subsection \<open>What a computed score is\<close>

definition type_points_spec :: "nat \<Rightarrow> nat" where
  "type_points_spec weight = min (20 * weight) (2 ^ 32 - 1) div 100"

lemma unat_type_points: "unat (type_points x) = type_points_spec (unat x)"
  by (simp add: type_points_def type_points_spec_def unat_div_word unat_saturating_mul)

definition entry_weight :: "co_state \<Rightarrow> vc_entry \<Rightarrow> nat" where
  "entry_weight s entry =
     (case vc_type entry of None \<Rightarrow> 100 | Some t \<Rightarrow> unat (co_get_vc_type_weight s t))"

lemma unat_list_points:
  "unat (list_points s es p) =
     min (unat p + (\<Sum>x\<leftarrow>es. type_points_spec (entry_weight s x))) (2 ^ 32 - 1)"
proof (induction es arbitrary: p)
  case Nil
  then show ?case using unat_u32_less [of p] by simp
next
  case (Cons x es)
  have "unat (type_points (case vc_type x of Some t \<Rightarrow> unwrap_or (co_vc_weight s t) 100 | None \<Rightarrow> 100))
      = type_points_spec (entry_weight s x)"
    by (simp add: unat_type_points entry_weight_def co_get_vc_type_weight_def split: option.splits)
  then show ?case by (simp add: Cons.IH unat_saturating_add min_def)
qed

text \<open>The credential component without an identity-oracle, on unbounded numbers.\<close>

definition local_points_spec :: "co_state \<Rightarrow> address \<Rightarrow> nat" where
  "local_points_spec s a =
     min 100 (if co_get_vc_list s a \<noteq> []
              then \<Sum>x\<leftarrow>co_get_vc_list s a. type_points_spec (entry_weight s x)
              else 20 * unat (unwrap_or (co_vc_count s a) 0))"

lemma unat_local_points: "unat (min (fst (local_points s a)) 100) = local_points_spec s a"
  by (auto simp: local_points_def local_points_spec_def Let_def unat_min_word unat_list_points
      unat_saturating_mul mult.commute)

definition repayment_of :: "co_state \<Rightarrow> address \<Rightarrow> repayment_record" where
  "repayment_of s a =
     (case co_repayment s a of
        Some (StoredV2 r) \<Rightarrow> r
      | _ \<Rightarrow> \<lparr>on_time_count = 0, total_count = 0, total_repaid = 0\<rparr>)"

lemma load_repayment_current:
  assumes "co_inv s" and "co_admin s \<noteq> None"
  shows "load_repayment s a = Some (repayment_of s a)"
proof -
  have v: "co_storage_version s = Some 2"
    using assms by (auto simp: co_inv_def co_config_ok_def co_setup_ok_def)
  have "co_repayment s a = Some r \<Longrightarrow> repayment_ok r" for r
    using assms(1) by (auto simp: co_inv_def co_repayments_ok_def)
  then show ?thesis
    by (auto simp: load_repayment_def v read_repayment_v2_def repayment_of_def repayment_ok_def
        split: option.splits stored_repayment.splits)
qed

lemma local_count_of_list:
  "co_get_vc_list s a \<noteq> [] \<Longrightarrow> snd (local_points s a) = of_nat (length (co_get_vc_list s a))"
  by (simp add: local_points_def Let_def)

lemma finish_score_total:
  assumes "co_config s = Some x" and "co_score s a = None \<Longrightarrow> unat (total_subjects_scored (co_load_protocol_stats s)) < 2 ^ 64 - 1"
  shows "\<exists>s'. finish_score e a rep pts cnt s = Ok (score_inputs s a rep x pts, s')"
proof (cases "co_score s a")
  case None
  then show ?thesis using assms
    by (auto simp: finish_score_def Let_def increment_subjects_scored_def checked_add_def score_inputs_def)
next
  case (Some p)
  then show ?thesis using assms by (auto simp: finish_score_def Let_def score_inputs_def)
qed

text \<open>The score of the published formula, from the stored inputs and given credential points.\<close>

definition published_score :: "co_state \<Rightarrow> address \<Rightarrow> scoring_weights \<Rightarrow> nat \<Rightarrow> nat" where
  "published_score s a x pts =
     score_spec pts (sint (volume_30d (load_tx_stats s a))) (unat (avg_counterparties (load_tx_stats s a)))
       (unat (on_time_count (repayment_of s a))) (unat (total_count (repayment_of s a)))
       (sint (total_repaid (repayment_of s a)))
       (unat (vc_weight x)) (unat (tx_weight x)) (unat (repayment_weight x))"

lemma unat_score_inputs:
  "unat (score_inputs s a (repayment_of s a) x pts) = published_score s a x (unat (min pts 100))"
  by (simp add: score_inputs_def unat_compute_score_pure published_score_def)

text \<open>C1: \<open>compute_score\<close> without a linked identity-oracle, on a reachable, initialised, unpaused
  oracle whose cooldown has passed: it succeeds (short of the subject counter overflowing 64
  bits), returns the published formula of the stored transaction statistics, repayment record
  and active weights, with 20 points per credential times its type weight over 100 (or 20 per
  cached credential when none is anchored), capped at 100, and afterwards \<open>get_score\<close>
  reports that score with the repayment rate in basis points.\<close>

theorem co_compute_score_exact:
  assumes "co_reachable (s, w)" and "co_config s = Some x" and "\<not> co_is_paused s"
    and "check_compute_cooldown e a s = Ok ()" and "co_identity_oracle_id s = None"
    and "card (dom (co_score s)) < 2 ^ 64 - 1"
  shows "\<exists>n s' r. co_compute_score e iv a s = Ok (n, s') \<and>
    unat n = published_score s a x (local_points_spec s a) \<and>
    co_get_score e iv s' a = Some r \<and> score r = n \<and>
    unat (repayment_rate r) = unat (on_time_count (repayment_of s a)) * 10000 div unat (total_count (repayment_of s a))"
proof -
  have inv: "co_inv s" using co_reachable_inv [OF assms(1)] by simp
  then have adm: "co_admin s \<noteq> None"
    using assms(2) by (auto simp: co_inv_def co_config_ok_def co_setup_ok_def split: option.splits)
  note rep = load_repayment_current [OF inv adm, of a]
  have cnt: "unat (total_subjects_scored (co_load_protocol_stats s)) < 2 ^ 64 - 1"
    using inv assms(6) by (simp add: co_inv_def co_scores_ok_def)
  obtain pts cn where l: "local_points s a = (pts, cn)" by (cases "local_points s a")
  obtain s' where fin: "finish_score e a (repayment_of s a) pts cn s =
      Ok (score_inputs s a (repayment_of s a) x pts, s')"
    using finish_score_total [OF assms(2) cnt] by blast
  let ?n = "score_inputs s a (repayment_of s a) x pts"
  let ?r = "new_score_record e s a (repayment_of s a) cn ?n"
  have comp: "co_compute_score e iv a s = Ok (?n, s')"
    using assms(3-5) rep l fin
    by (simp add: co_compute_score_def co_ensure_not_paused_def co_is_paused_def Let_def)
  have val: "unat ?n = published_score s a x (local_points_spec s a)"
    using unat_score_inputs [of s a x pts] unat_local_points [of s a] l by simp
  obtain p where p: "co_score s' a = Some p" "score p = ?n" "repayment_rate p = rate_bps (repayment_of s a)"
  proof (cases "score_unchanged s a ?r")
    case True
    then show thesis
      using that finish_score_Ok [OF fin] by (auto simp: score_unchanged_def new_score_record_def)
  next
    case False
    then show thesis
      using that finish_score_Ok [OF fin] by (auto simp: new_score_record_def)
  qed
  have "on_time_count (repayment_of s a) \<le> total_count (repayment_of s a)"
    using load_repayment_ok [OF _ rep] inv by (simp add: co_inv_def)
  from unat_rate_bps [OF this] p val comp show ?thesis
    by (auto simp: co_get_score_def Let_def)
qed

theorem co_compute_score_exact_witness:
  "\<exists>n s'. co_compute_score co_demo_env co_demo_view ''bob'' co_demo_state = Ok (n, s') \<and> unat n = 300"
proof -
  have "published_score co_demo_state ''bob'' default_weights (local_points_spec co_demo_state ''bob'') = 300"
    by (simp add: published_score_def local_points_spec_def co_demo_defs co_get_vc_list_def load_tx_stats_def
        repayment_of_def default_weights_def score_spec_def final_spec_def composite_spec_def tx_spec_def
        repay_spec_def rate_spec_def capped_volume_def)
  moreover have "co_config co_demo_state = Some default_weights" "\<not> co_is_paused co_demo_state"
    "check_compute_cooldown co_demo_env ''bob'' co_demo_state = Ok ()"
    "co_identity_oracle_id co_demo_state = None" "card (dom (co_score co_demo_state)) < 2 ^ 64 - 1"
    by (simp_all add: co_demo_defs co_is_paused_def check_compute_cooldown_def Let_def)
  ultimately show ?thesis using co_compute_score_exact [OF co_demo_reachable] by metis
qed

subsection \<open>Scoring from a linked identity-oracle\<close>

text \<open>The points of one record, given the type the identity-oracle reports for it.\<close>

definition record_points :: "env \<Rightarrow> co_state \<Rightarrow> symbol \<Rightarrow> identity_vc_record \<Rightarrow> nat" where
  "record_points e s ty r =
     (let base = type_points_spec (unat (co_get_vc_type_weight s ty)); cfg = load_recency_config s
      in if rd_enabled cfg
         then base * recency_spec (unat (anchored_at r)) (unat (ledger_timestamp e))
                (unat (rd_decay_bps_per_day cfg)) (unat (rd_min_recency_bps cfg)) div 10000
         else base)"

lemma unat_credential_points:
  "unat (credential_points (if rd_enabled (load_recency_config s) then Some (load_recency_config s) else None)
     (ledger_timestamp e) (unwrap_or (co_vc_weight s ty) 100) (anchored_at r)) = record_points e s ty r"
proof -
  have le: "unat (recency_multiplier_bps a n d m) \<le> 10000" for a n d m
    by (simp add: unat_recency_multiplier recency_spec_bounds)
  show ?thesis
    by (simp add: credential_points_def record_points_def Let_def unat_type_points
        unat_apply_recency [OF le] unat_recency_multiplier co_get_vc_type_weight_def)
qed

definition vc_type_of :: "identity_view \<Rightarrow> address \<Rightarrow> address \<Rightarrow> identity_vc_record \<Rightarrow> symbol" where
  "vc_type_of iv i a r = the (iv_get_vc_credential_type iv i a (vc_hash_of r))"

context identity_service
begin

lemma identity_points_total:
  assumes "linked i" and "\<And>r. r \<in> set rs \<Longrightarrow> iv_verify_vc iv i a (vc_hash_of r) = Some True"
    and "unat c + length rs < 2 ^ 32"
  shows "\<exists>pts. identity_points iv i s
      (if rd_enabled (load_recency_config s) then Some (load_recency_config s) else None)
      (ledger_timestamp e) a rs p c = Some (pts, c + of_nat (length rs)) \<and>
    unat pts = min (unat p + (\<Sum>r\<leftarrow>rs. record_points e s (vc_type_of iv i a r) r)) (2 ^ 32 - 1)"
  using assms(2,3)
proof (induction rs arbitrary: p c)
  case Nil
  then show ?case using unat_u32_less [of p] by simp
next
  case (Cons r rs)
  let ?cfg = "if rd_enabled (load_recency_config s) then Some (load_recency_config s) else None"
  obtain ty where ty: "iv_get_vc_credential_type iv i a (vc_hash_of r) = Some ty"
    using type_answers assms(1) by blast
  have c: "checked_add c 1 = Some (c + 1)" "unat (c + 1) = unat c + 1"
    using Cons.prems(2) by (auto simp: checked_add_def unat_word_ariths)
  let ?q = "saturating_add p (credential_points ?cfg (ledger_timestamp e)
               (unwrap_or (co_vc_weight s ty) 100) (anchored_at r))"
  have q: "unat ?q = min (unat p + record_points e s ty r) (2 ^ 32 - 1)"
    by (simp add: unat_saturating_add unat_credential_points)
  have v: "iv_verify_vc iv i a (vc_hash_of r) = Some True" using Cons.prems(1) by simp
  obtain pts where "identity_points iv i s ?cfg (ledger_timestamp e) a rs ?q (c + 1)
        = Some (pts, c + 1 + of_nat (length rs))"
      "unat pts = min (unat ?q + (\<Sum>r\<leftarrow>rs. record_points e s (vc_type_of iv i a r) r)) (2 ^ 32 - 1)"
    using Cons.IH [of "c + 1" ?q] Cons.prems c(2) by auto
  then show ?case
    using v ty c(1) q by (auto simp: vc_type_of_def ac_simps)
qed

lemma compute_linked:
  assumes "co_inv s" and "co_config s = Some x" and "\<not> co_is_paused s"
    and "check_compute_cooldown e a s = Ok ()" and "co_identity_oracle_id s = Some i" and "linked i"
    and "card (dom (co_score s)) < 2 ^ 64 - 1"
    and "iv_get_vc_details iv i a = Some rs" and "length rs < 2 ^ 32"
  shows "if iv_is_deactivated iv i a = Some True then co_compute_score e iv a s = Ok (MIN_SCORE, s)
    else \<exists>n s' r. co_compute_score e iv a s = Ok (n, s') \<and> co_score s' a = Some r \<and> score r = n \<and>
      unat n = published_score s a x (min 100 (\<Sum>r\<leftarrow>rs. record_points e s (vc_type_of iv i a r) r)) \<and>
      unat (vc_count r) = length rs"
proof -
  have adm: "co_admin s \<noteq> None"
    using assms(1,2) by (auto simp: co_inv_def co_config_ok_def co_setup_ok_def split: option.splits)
  note rep = load_repayment_current [OF assms(1) adm, of a]
  obtain d where d: "iv_is_deactivated iv i a = Some d" using deactivated_answers assms(6) by blast
  show ?thesis
  proof (cases d)
    case True
    then show ?thesis
      using assms(3-5) rep d
      by (simp add: co_compute_score_def co_ensure_not_paused_def co_is_paused_def Let_def)
  next
    case False
    let ?cfg = "if rd_enabled (load_recency_config s) then Some (load_recency_config s) else None"
    obtain pts where pts: "identity_points iv i s ?cfg (ledger_timestamp e) a rs 0 0
        = Some (pts, of_nat (length rs))"
      "unat pts = min (\<Sum>r\<leftarrow>rs. record_points e s (vc_type_of iv i a r) r) (2 ^ 32 - 1)"
      using identity_points_total [OF assms(6), of rs a 0 s e 0] details_verify [OF assms(6,8)] assms(9)
      by auto
    have cnt: "unat (total_subjects_scored (co_load_protocol_stats s)) < 2 ^ 64 - 1"
      using assms(1,7) by (simp add: co_inv_def co_scores_ok_def)
    let ?n = "score_inputs s a (repayment_of s a) x pts"
    let ?r = "new_score_record e s a (repayment_of s a) (of_nat (length rs)) ?n"
    obtain s' where fin: "finish_score e a (repayment_of s a) pts (of_nat (length rs)) s = Ok (?n, s')"
      using finish_score_total [OF assms(2) cnt] by blast
    have comp: "co_compute_score e iv a s = Ok (?n, s')"
      using assms(3-5,8) rep d False fin pts(1)
      by (simp add: co_compute_score_def co_ensure_not_paused_def co_is_paused_def Let_def split del: if_split)
    have l: "unat (of_nat (length rs) :: u32) = length rs"
      using assms(9) by (simp add: unsigned_of_nat take_bit_nat_eq_self)
    have "unat (min pts 100) = min 100 (\<Sum>r\<leftarrow>rs. record_points e s (vc_type_of iv i a r) r)"
      by (simp add: unat_min_word pts(2))
    then have val: "unat ?n = published_score s a x (min 100 (\<Sum>r\<leftarrow>rs. record_points e s (vc_type_of iv i a r) r))"
      by (simp add: unat_score_inputs)
    have "\<exists>r. co_score s' a = Some r \<and> score r = ?n \<and> vc_count r = of_nat (length rs)"
      using finish_score_Ok [OF fin] by (cases "score_unchanged s a ?r")
        (auto simp: score_unchanged_def new_score_record_def)
    then show ?thesis using comp val l d False by auto
  qed
qed

end

subsection \<open>The cooldown\<close>

text \<open>C23: A computation stores a record with the score it returns, the credential count, the repayment rate and
  the volume it used. When these four equal those of the record before, that record is kept as it
  was, so every later cooldown check answers as it would have without the computation: the cooldown is not
  restarted and the age by which \<open>get_score\<close> calls the score stale is not refreshed. Otherwise the record is stamped with
  this ledger and time and the score before it, every further computation for the subject is refused with
  \<open>ComputeCooldownActive\<close> until the cooldown has elapsed, and from then on the check lets it through.\<close>

theorem co_cooldown:
  assumes "co_compute_score e iv a s = Ok (n, s1)" and "\<not> is_deactivated_subject iv s a"
  shows "\<exists>r rep. co_score s1 a = Some r \<and> score r = n \<and> load_repayment s a = Some rep
    \<and> map_option snd (credential_inputs e iv s a) = Some (vc_count r)
    \<and> repayment_rate r = rate_bps rep \<and> tx_volume_30d r = volume_30d (load_tx_stats s a)
    \<and> (if \<exists>p. co_score s a = Some p \<and> score p = score r \<and> vc_count p = vc_count r \<and>
            repayment_rate p = repayment_rate r \<and> tx_volume_30d p = tx_volume_30d r
       then co_score s a = Some r \<and> (\<forall>e'. check_compute_cooldown e' a s1 = check_compute_cooldown e' a s)
       else computed_at_ledger r = ledger_sequence e \<and> last_updated r = ledger_timestamp e \<and>
         previous_score r = map_option score (co_score s a) \<and> \<not> stale r \<and>
         (\<forall>e'. if unat (ledger_sequence e') - unat (ledger_sequence e) < unat (unwrap_or (co_compute_cooldown s) 0)
               then \<forall>iv'. co_compute_score e' iv' a s1 = Err ComputeCooldownActive
               else check_compute_cooldown e' a s1 = Ok ()))"
proof -
  obtain rep pts cnt where ok: "\<not> co_is_paused s" "finish_score e a rep pts cnt s = Ok (n, s1)"
      "load_repayment s a = Some rep" "credential_inputs e iv s a = Some (pts, cnt)"
    using co_compute_score_Ok [OF assms(1)] assms(2) by auto
  let ?n = "new_score_record e s a rep cnt n"
  have s1: "co_score s1 = (if score_unchanged s a ?n then co_score s else (co_score s)(a \<mapsto> ?n))"
    "co_compute_cooldown s1 = co_compute_cooldown s" "co_paused s1 = co_paused s"
    using finish_score_Ok [OF ok(2)] by auto
  show ?thesis
  proof (cases "score_unchanged s a ?n")
    case True
    then obtain p where p: "co_score s a = Some p" "score p = n" "vc_count p = cnt" "repayment_rate p = rate_bps rep"
        "tx_volume_30d p = volume_30d (load_tx_stats s a)"
      by (auto simp: score_unchanged_def new_score_record_def)
    have "check_compute_cooldown e' a s1 = check_compute_cooldown e' a s" for e'
      using True by (simp add: check_compute_cooldown_def s1 Let_def)
    then show ?thesis using p True ok(3,4) by (intro exI [of _ p] exI [of _ rep]) (auto simp: s1(1))
  next
    case False
    then have r: "co_score s1 a = Some ?n" by (simp add: s1(1))
    have check: "check_compute_cooldown e' a s1 =
        (if unat (ledger_sequence e') - unat (ledger_sequence e) < unat (unwrap_or (co_compute_cooldown s) 0)
         then Err ComputeCooldownActive else Ok ())" for e'
      using r
      by (auto simp: check_compute_cooldown_def s1(2) new_score_record_def word_less_nat_alt unat_saturating_sub Let_def)
    then have "co_compute_score e' iv' a s1 = Err ComputeCooldownActive"
      if "unat (ledger_sequence e') - unat (ledger_sequence e) < unat (unwrap_or (co_compute_cooldown s) 0)" for e' iv'
      using that ok(1) by (simp add: co_compute_score_def co_ensure_not_paused_def s1(3) co_is_paused_def)
    then show ?thesis
      using r False check ok(3,4)
      by (intro exI [of _ ?n] exI [of _ rep]) (auto simp: new_score_record_def score_unchanged_def)
  qed
qed

lemma co_demo_compute:
  obtains s1 where "co_compute_score co_demo_env co_demo_view ''bob'' co_demo_state = Ok (300, s1)"
    and "co_score s1 ''bob'' \<noteq> None"
proof -
  have sc: "score_inputs co_demo_state ''bob'' \<lparr>on_time_count = 0, total_count = 0, total_repaid = 0\<rparr>
      default_weights 0 = 300"
  proof -
    have "unat (score_inputs co_demo_state ''bob'' \<lparr>on_time_count = 0, total_count = 0, total_repaid = 0\<rparr>
      default_weights 0) = 300"
      by (simp add: score_inputs_def unat_compute_score_pure score_spec_def default_weights_def
          load_tx_stats_def co_demo_defs tx_spec_def repay_spec_def rate_spec_def capped_volume_def
          composite_spec_def final_spec_def)
    then show ?thesis by (simp add: word_unat_eq_iff)
  qed
  have cfg: "co_config co_demo_state = Some default_weights" by (simp add: co_demo_defs)
  have cnt: "unat (total_subjects_scored (co_load_protocol_stats co_demo_state)) < 2 ^ 64 - 1"
    by (simp add: co_demo_defs co_load_protocol_stats_def co_default_stats_def)
  obtain s1 where f: "finish_score co_demo_env ''bob''
      \<lparr>on_time_count = 0, total_count = 0, total_repaid = 0\<rparr> 0 0 co_demo_state = Ok (300, s1)"
    using finish_score_total [OF cfg cnt, where a = "''bob''" and e = co_demo_env and pts = 0 and cnt = 0 and
        rep = "\<lparr>on_time_count = 0, total_count = 0, total_repaid = 0\<rparr>"] unfolding sc by blast
  have "co_score s1 ''bob'' \<noteq> None"
    using finish_score_Ok [OF f] by (auto simp: co_demo_defs score_unchanged_def)
  moreover have "co_compute_score co_demo_env co_demo_view ''bob'' co_demo_state = Ok (300, s1)"
    using f
    by (simp add: co_compute_score_def co_ensure_not_paused_def check_compute_cooldown_def
        load_repayment_def read_repayment_v2_def local_points_def co_get_vc_list_def co_demo_defs Let_def
        saturating_mul_def)
  ultimately show thesis using that by blast
qed

theorem co_cooldown_witness:
  "\<exists>s1. co_compute_score co_demo_env co_demo_view ''bob'' co_demo_state = Ok (300, s1) \<and>
     co_compute_score co_demo_env co_demo_view ''bob'' s1 = Err ComputeCooldownActive"
proof -
  obtain s1 where s1: "co_compute_score co_demo_env co_demo_view ''bob'' co_demo_state = Ok (300, s1)"
      "co_score s1 ''bob'' \<noteq> None" by (rule co_demo_compute)
  have d: "\<not> is_deactivated_subject co_demo_view co_demo_state ''bob''"
    by (simp add: is_deactivated_subject_def co_demo_defs)
  have c: "unwrap_or (co_compute_cooldown co_demo_state) 0 = 1" "co_score co_demo_state ''bob'' = None"
    by (simp_all add: co_demo_defs)
  have "\<forall>iv'. co_compute_score co_demo_env iv' ''bob'' s1 = Err ComputeCooldownActive"
    using co_cooldown [OF s1(1) d] unfolding c
    by (auto dest: spec [of _ co_demo_env])
  then show ?thesis using s1(1) by blast
qed

subsection \<open>The weights change only through the timelock\<close>

text \<open>C9: On an initialised oracle in a reachable state the active weights change only by
  \<open>apply_weights\<close>, to the pending proposal, which is valid and whose effective ledger has been
  reached; a proposal only becomes pending by \<open>propose_weights\<close> of valid weights, authorised by
  the admin, with an effective ledger exactly 17280 after the current one; and applying
  consumes it.\<close>

theorem co_weights_timelocked:
  assumes "co_reachable (s, w)" and "co_admin s \<noteq> None"
    and "co_exec e iv probe c (s, w) = Ok (s', w')"
  shows "(co_config s' \<noteq> co_config s \<longrightarrow> c = CoApplyWeightsCall) \<and>
    (c = CoApplyWeightsCall \<longrightarrow> (\<exists>x l. co_pending_weights s = Some x \<and> co_pending_effective s = Some l \<and>
        unat l \<le> unat (ledger_sequence e) \<and> is_valid x = Some True \<and> co_config s' = Some x \<and>
        co_pending_weights s' = None \<and> co_pending_effective s' = None)) \<and>
    (co_pending_weights s' \<noteq> co_pending_weights s \<or> co_pending_effective s' \<noteq> co_pending_effective s \<longrightarrow>
        c = CoApplyWeightsCall \<or>
        (\<exists>x l adm. c = CoProposeWeightsCall x \<and> is_valid x = Some True \<and> co_admin s = Some adm \<and>
           authorized e adm \<and> co_pending_weights s' = Some x \<and> co_pending_effective s' = Some l \<and>
           unat l = unat (ledger_sequence e) + 17280))"
proof (cases "co_config_call c")
  case False
  then show ?thesis using co_frame [OF assms(3)] by auto
next
  case True
  have inv: "co_weights_ok s"
    using co_reachable_inv [OF assms(1)] by (simp add: co_inv_def co_config_ok_def)
  from True show ?thesis
  proof (cases c)
    case (CoProposeWeightsCall x)
    then obtain adm l where "is_valid x = Some True" "co_admin s = Some adm" "authorized e adm"
        "checked_add (ledger_sequence e) TIMELOCK_LEDGERS = Some l" and
        s': "co_config s' = co_config s" "co_pending_weights s' = Some x" "co_pending_effective s' = Some l"
      using assms(3) by (auto simp: co_propose_weights_def co_guard_defs split: option.splits if_splits)
    moreover from this have "unat l = unat (ledger_sequence e) + 17280"
      using unat_checked_add [of "ledger_sequence e" TIMELOCK_LEDGERS l] by (simp add: TIMELOCK_LEDGERS_def)
    ultimately show ?thesis using CoProposeWeightsCall by simp
  next
    case CoApplyWeightsCall
    then obtain x l where x: "co_pending_weights s = Some x" "co_pending_effective s = Some l"
        "\<not> ledger_sequence e < l" "co_config s' = Some x" "co_pending_weights s' = None"
        "co_pending_effective s' = None"
      using assms(3) by (auto simp: co_apply_weights_def co_guard_defs split: if_splits)
    then have "is_valid x = Some True" using inv by (simp add: co_weights_ok_def is_valid_iff)
    then show ?thesis using CoApplyWeightsCall x by (simp add: word_less_nat_alt)
  qed (use assms in \<open>auto simp: co_call_defs Let_def split: option.splits if_splits\<close>)
qed

theorem co_weights_timelocked_witness:
  "\<exists>s' l. co_exec co_demo_env co_demo_view co_demo_probe
      (CoProposeWeightsCall \<lparr>vc_weight = 50, tx_weight = 25, repayment_weight = 25\<rparr>)
      (co_demo_state, ()) = Ok (s', ()) \<and> co_pending_effective s' = Some l \<and> unat l = 18280"
proof -
  let ?x = "\<lparr>vc_weight = 50, tx_weight = 25, repayment_weight = 25\<rparr>"
  have "is_valid ?x = Some True" by (simp add: is_valid_iff weights_ok_def)
  then obtain s' where s': "co_exec co_demo_env co_demo_view co_demo_probe (CoProposeWeightsCall ?x)
      (co_demo_state, ()) = Ok (s', ())" and "co_pending_weights s' = Some ?x"
    by (auto simp: co_local_def co_propose_weights_def co_guard_defs co_demo_defs authorized_def
        TIMELOCK_LEDGERS_def checked_add_def)
  moreover have "co_admin co_demo_state \<noteq> None" "co_pending_weights co_demo_state = None"
      "ledger_sequence co_demo_env = 1000"
    by (simp_all add: co_demo_defs)
  ultimately show ?thesis
    using co_weights_timelocked [OF co_demo_reachable _ s'] by auto
qed

subsection \<open>Who can change a subject's inputs\<close>

text \<open>C14: The score inputs of a subject change only under the authority of whoever is trusted for
  them at that moment: transaction statistics, cached credential count and anchored entries by a
  registered feeder, the repayment record by a registered lender (or by the admin's migration),
  in each case with that address's authorisation and, for feeders and lenders, while the contract is
  not paused.\<close>

theorem co_inputs_authorised:
  assumes "co_exec e iv probe c (s, w) = Ok (s', w')"
  shows "(co_tx_stats s' a \<noteq> co_tx_stats s a \<or> co_vc_count s' a \<noteq> co_vc_count s a \<or>
          co_vc_list s' a \<noteq> co_vc_list s a \<longrightarrow>
      (\<exists>f. authorized e f \<and> is_trusted_feeder s f \<and> \<not> co_is_paused s)) \<and>
    (co_repayment s' a \<noteq> co_repayment s a \<longrightarrow>
      (\<exists>l. authorized e l \<and> is_trusted_lender s l \<and> \<not> co_is_paused s) \<or>
      (\<exists>as adm. c = CoMigrateCall as \<and> co_admin s = Some adm \<and> authorized e adm))"
proof
  show "co_tx_stats s' a \<noteq> co_tx_stats s a \<or> co_vc_count s' a \<noteq> co_vc_count s a \<or>
          co_vc_list s' a \<noteq> co_vc_list s a \<longrightarrow>
      (\<exists>f. authorized e f \<and> is_trusted_feeder s f \<and> \<not> co_is_paused s)"
  proof (cases "co_input_call c")
    case True
    then show ?thesis using assms
      by (cases c) (auto simp: co_update_tx_stats_def co_set_vc_count_def co_anchor_vc_def
          co_require_feeder_def co_ensure_not_paused_def co_is_paused_def split: if_splits)
  qed (use co_frame [OF assms] in simp)
  show "co_repayment s' a \<noteq> co_repayment s a \<longrightarrow>
      (\<exists>l. authorized e l \<and> is_trusted_lender s l \<and> \<not> co_is_paused s) \<or>
      (\<exists>as adm. c = CoMigrateCall as \<and> co_admin s = Some adm \<and> authorized e adm)"
  proof (cases "co_repayment_call c")
    case True
    then show ?thesis using assms
      by (cases c) (auto simp: co_record_repayment_Ok co_migrate_def split: if_splits)
  qed (use co_frame [OF assms] in simp)
qed

theorem co_inputs_authorised_witness:
  "\<exists>s' f. co_exec co_demo_env co_demo_view co_demo_probe (CoSetVcCountCall ''feed'' ''bob'' 3)
      (co_demo_state, ()) = Ok (s', ()) \<and> co_vc_count s' ''bob'' = Some 3 \<and>
      is_trusted_feeder co_demo_state f \<and> authorized co_demo_env f"
proof -
  obtain s' where s': "co_exec co_demo_env co_demo_view co_demo_probe (CoSetVcCountCall ''feed'' ''bob'' 3)
      (co_demo_state, ()) = Ok (s', ())" "co_vc_count s' ''bob'' = Some 3"
    by (auto simp: co_local_def co_set_vc_count_def co_guard_defs co_demo_defs authorized_def
        is_trusted_feeder_def)
  moreover have "co_vc_count co_demo_state ''bob'' = None" by (simp add: co_demo_defs)
  ultimately show ?thesis using co_inputs_authorised [OF s'(1), of "''bob''"] by auto
qed

subsection \<open>Disputes\<close>

definition dispute_step :: "env \<Rightarrow> co_state \<Rightarrow> dispute_record option \<Rightarrow> dispute_record option \<Rightarrow> bool" where
  "dispute_step e s d d' \<longleftrightarrow>
     d' = d \<or>
     (\<exists>r. d' = Some r \<and> dr_status r = Pending \<and> dr_filed_at_ledger r = ledger_sequence e \<and>
          authorized e (dr_subject r) \<and> dr_input_key r \<in> set dispute_keys \<and>
          (\<forall>q. d = Some q \<longrightarrow> dr_status q \<noteq> Pending)) \<or>
     (\<exists>r st adm. d = Some r \<and> dr_status r = Pending \<and> d' = Some (r\<lparr>dr_status := st\<rparr>) \<and> st \<noteq> Pending \<and>
          co_admin s = Some adm \<and> authorized e adm)"

lemma dispute_listing:
  assumes "co_disputes_ok t"
  shows "distinct (co_list_disputes t a) \<and>
    (\<forall>r. r \<in> set (co_list_disputes t a) \<longleftrightarrow> (\<exists>k. co_get_dispute t a k = Some r))"
proof -
  let ?f = "\<lambda>k. the (co_dispute t (a, k))"
  have idx: "k \<in> set (dispute_index t a) \<longleftrightarrow> co_dispute t (a, k) \<noteq> None" for k
    using assms by (simp add: co_disputes_ok_def)
  have "List.map_filter (\<lambda>k. co_dispute t (a, k)) ks = map ?f ks"
    if "set ks \<subseteq> set (dispute_index t a)" for ks
    using that assms by (induction ks) (auto simp: map_filter_simps co_disputes_ok_def)
  then have l: "co_list_disputes t a = map ?f (dispute_index t a)"
    by (simp add: co_list_disputes_def collect_disputes_eq)
  have "inj_on ?f (set (dispute_index t a))"
  proof (rule inj_onI)
    fix i j
    assume ij: "i \<in> set (dispute_index t a)" "j \<in> set (dispute_index t a)" "?f i = ?f j"
    then obtain p q where pq: "co_dispute t (a, i) = Some p" "co_dispute t (a, j) = Some q"
      using assms by (auto simp: co_disputes_ok_def)
    then have "dr_input_key p = i" "dr_input_key q = j" using assms by (auto simp: co_disputes_ok_def)
    then show "i = j" using ij(3) pq by simp
  qed
  then have "distinct (co_list_disputes t a)"
    using assms unfolding l by (simp add: distinct_map co_disputes_ok_def)
  moreover have "r \<in> set (co_list_disputes t a) \<longleftrightarrow> (\<exists>k. co_get_dispute t a k = Some r)" for r
    unfolding l co_get_dispute_def set_map image_iff
    by (metis idx option.sel option.collapse option.distinct(1))
  ultimately show ?thesis by blast
qed

text \<open>C24: The dispute of a (subject, input) pair moves through its states only as documented: a new
  pending record replaces nothing or a closed one and needs the subject's authorisation and one of
  the three input keys; only the admin closes a pending record, as resolved or rejected,
  changing nothing else of it; and in a reachable state the listing of a subject holds exactly its
  disputes, once each.\<close>

theorem co_dispute_lifecycle:
  assumes "co_reachable (s, w)" and "co_exec e iv probe c (s, w) = Ok (s', w')"
  shows "dispute_step e s (co_get_dispute s a k) (co_get_dispute s' a k) \<and>
    (\<forall>t. t = s \<or> t = s' \<longrightarrow> distinct (co_list_disputes t a) \<and>
       (\<forall>r. r \<in> set (co_list_disputes t a) \<longleftrightarrow> (\<exists>k. co_get_dispute t a k = Some r)))"
proof
  have inv: "co_disputes_ok s" "co_disputes_ok s'"
    using co_reachable_inv [OF assms(1)] co_exec_disputes [OF assms(2)] by (simp_all add: co_inv_def)
  show "dispute_step e s (co_get_dispute s a k) (co_get_dispute s' a k)"
  proof (cases "co_dispute_call c")
    case False
    then show ?thesis using co_frame [OF assms(2)] by (simp add: dispute_step_def co_get_dispute_def)
  next
    case True
    then show ?thesis
    proof (cases c)
      case (CoFlagCall b k' reason)
      then show ?thesis using assms(2)
        by (auto simp: co_flag_score_input_def co_publish_def Let_def dispute_step_def co_get_dispute_def
            split: if_splits option.splits)
    next
      case (CoResolveCall b k' acc)
      then obtain r where r: "co_dispute s (b, k') = Some r" "dr_status r = Pending" and
        d: "co_dispute s' = (co_dispute s)((b, k') \<mapsto> r\<lparr>dr_status := if acc then Resolved else Rejected\<rparr>)"
        and adm: "\<exists>adm. co_admin s = Some adm \<and> authorized e adm"
        using assms(2) by (auto simp: co_resolve_dispute_def co_guard_defs Let_def split: if_splits option.splits)
      show ?thesis
      proof (cases "b = a \<and> k' = k")
        case True
        then show ?thesis using r adm
          by (cases acc) (auto simp: dispute_step_def co_get_dispute_def d)
      qed (auto simp: dispute_step_def co_get_dispute_def d)
    qed simp_all
  qed
  show "\<forall>t. t = s \<or> t = s' \<longrightarrow> distinct (co_list_disputes t a) \<and>
       (\<forall>r. r \<in> set (co_list_disputes t a) \<longleftrightarrow> (\<exists>k. co_get_dispute t a k = Some r))"
    using inv dispute_listing by blast
qed

theorem co_dispute_lifecycle_witness:
  "\<exists>s'. co_exec co_demo_env co_demo_view co_demo_probe (CoFlagCall ''bob'' ''tx_stats'' ''wrong'')
      (co_demo_state, ()) = Ok (s', ()) \<and> distinct (co_list_disputes s' ''bob'')"
proof -
  obtain s' where s': "co_exec co_demo_env co_demo_view co_demo_probe
      (CoFlagCall ''bob'' ''tx_stats'' ''wrong'') (co_demo_state, ()) = Ok (s', ())"
    by (auto simp: co_local_def co_flag_score_input_def co_demo_defs authorized_def dispute_keys_def Let_def)
  then show ?thesis using co_dispute_lifecycle [OF co_demo_reachable s'] by blast
qed

subsection \<open>Migration\<close>

definition upgraded :: "repayment_record_v1 \<Rightarrow> repayment_record" where
  "upgraded r = \<lparr>on_time_count = on_time_count_v1 r, total_count = total_count_v1 r, total_repaid = 0\<rparr>"

definition migrated_map :: "address list \<Rightarrow> (address \<rightharpoonup> stored_repayment) \<Rightarrow> (address \<rightharpoonup> stored_repayment)" where
  "migrated_map as m a =
     (case m a of
        Some (StoredV1 r) \<Rightarrow> if a \<in> set as then Some (StoredV2 (upgraded r)) else m a
      | _ \<Rightarrow> m a)"

lemma migrate_loop_None:
  "distinct as \<Longrightarrow> migrate_loop as m = None \<longleftrightarrow> (\<exists>a \<in> set as. \<exists>r. m a = Some (StoredV2 r))"
proof (induction as arbitrary: m)
  case (Cons b as)
  then show ?case by (auto split: option.splits stored_repayment.splits)
qed simp

lemma migrated_map_step:
  "m b = None \<Longrightarrow> migrated_map (b # as) m = migrated_map as m"
  "m b = Some (StoredV1 r) \<Longrightarrow> b \<notin> set as \<Longrightarrow>
     migrated_map (b # as) m = migrated_map as (m(b \<mapsto> StoredV2 (upgraded r)))"
  by (auto simp: migrated_map_def fun_eq_iff split: option.splits stored_repayment.splits)

lemma migrate_loop_Some:
  "distinct as \<Longrightarrow> migrate_loop as m = Some m' \<Longrightarrow> m' = migrated_map as m"
proof (induction as arbitrary: m)
  case Nil
  then show ?case by (auto simp: migrated_map_def fun_eq_iff split: option.splits stored_repayment.splits)
next
  case (Cons b as)
  then show ?case
    by (auto simp: migrated_map_step upgraded_def [symmetric] split: option.splits stored_repayment.splits)
qed

lemma migrate_run:
  assumes "co_admin s = Some adm" and "authorized e adm"
  shows "co_migrate e as s = outcome_bind (expect (migrate_loop as (co_repayment s))) (\<lambda>m.
    Ok (s\<lparr>co_repayment := m, co_storage_version := Some 2\<rparr>))"
  using assms by (simp add: co_migrate_def)

text \<open>A record in the old layout under the new version stops everything that reads it.\<close>

lemma stranded_record:
  assumes "co_storage_version s = Some 2" and "co_repayment s a = Some (StoredV1 r)" and "\<not> co_is_paused s"
  shows "check_compute_cooldown e a s = Ok () \<Longrightarrow> co_compute_score e iv a s = Trap"
    and "is_trusted_lender s l \<Longrightarrow> 0 < sint n \<Longrightarrow> co_record_repayment e l a n b s = Trap"
proof -
  have "read_repayment_v2 s a = None" "load_repayment s a = None"
    using assms(1,2) by (simp_all add: load_repayment_def read_repayment_v2_def)
  then show "check_compute_cooldown e a s = Ok () \<Longrightarrow> co_compute_score e iv a s = Trap"
    and "is_trusted_lender s l \<Longrightarrow> 0 < sint n \<Longrightarrow> co_record_repayment e l a n b s = Trap"
    using assms by (auto simp: co_compute_score_def co_record_repayment_def co_ensure_not_paused_def
        co_is_paused_def)
qed

text \<open>C25: \<open>migrate\<close> called by the admin with each subject at most once, whatever the stored version is (the code
  does not look at it, although \<open>docs/storage-migration-strategy.md\<close> says that \<open>migrate\<close> returns at once from
  version 2 on): it traps when one of the listed subjects already holds a record in the new layout and succeeds
  otherwise; it then keeps the on-time and total counts of every listed old record with nothing repaid, leaves all
  other records as they are and sets the version to 2; from then on a subject that was left out can neither be
  scored nor record a repayment, every attempt trapping on the old layout.\<close>

theorem co_migrate_correct:
  assumes "co_admin s = Some adm" and "authorized e adm" and "distinct as"
  shows "((\<exists>a \<in> set as. \<exists>r. co_repayment s a = Some (StoredV2 r)) \<longrightarrow> co_migrate e as s = Trap) \<and>
    ((\<forall>a \<in> set as. \<forall>r. co_repayment s a \<noteq> Some (StoredV2 r)) \<longrightarrow> is_ok (co_migrate e as s)) \<and>
    (\<forall>s'. co_migrate e as s = Ok s' \<longrightarrow> co_storage_version s' = Some 2 \<and>
       (\<forall>a r. co_repayment s a = Some (StoredV1 r) \<longrightarrow>
          (if a \<in> set as then load_repayment s' a = Some (upgraded r)
           else co_repayment s' a = co_repayment s a \<and>
             (\<not> co_is_paused s' \<and> check_compute_cooldown e' a s' = Ok () \<longrightarrow>
                co_compute_score e' iv a s' = Trap) \<and>
             (\<not> co_is_paused s' \<and> is_trusted_lender s' l \<and> 0 < sint n \<longrightarrow>
                co_record_repayment e' l a n b s' = Trap))) \<and>
       (\<forall>a. a \<notin> set as \<longrightarrow> co_repayment s' a = co_repayment s a))"
proof (intro conjI)
  note none = migrate_loop_None [OF assms(3), of "co_repayment s"]
  note run = migrate_run [OF assms(1,2), of as]
  show "(\<exists>a \<in> set as. \<exists>r. co_repayment s a = Some (StoredV2 r)) \<longrightarrow> co_migrate e as s = Trap"
  proof
    assume "\<exists>a \<in> set as. \<exists>r. co_repayment s a = Some (StoredV2 r)"
    then have "migrate_loop as (co_repayment s) = None" using none by simp
    then show "co_migrate e as s = Trap" by (simp add: run)
  qed
  show "(\<forall>a \<in> set as. \<forall>r. co_repayment s a \<noteq> Some (StoredV2 r)) \<longrightarrow> is_ok (co_migrate e as s)"
    using none unfolding run by (cases "migrate_loop as (co_repayment s)") auto
  show "\<forall>s'. co_migrate e as s = Ok s' \<longrightarrow> co_storage_version s' = Some 2 \<and>
       (\<forall>a r. co_repayment s a = Some (StoredV1 r) \<longrightarrow>
          (if a \<in> set as then load_repayment s' a = Some (upgraded r)
           else co_repayment s' a = co_repayment s a \<and>
             (\<not> co_is_paused s' \<and> check_compute_cooldown e' a s' = Ok () \<longrightarrow>
                co_compute_score e' iv a s' = Trap) \<and>
             (\<not> co_is_paused s' \<and> is_trusted_lender s' l \<and> 0 < sint n \<longrightarrow>
                co_record_repayment e' l a n b s' = Trap))) \<and>
       (\<forall>a. a \<notin> set as \<longrightarrow> co_repayment s' a = co_repayment s a)"
  proof (intro allI impI)
    fix s' assume "co_migrate e as s = Ok s'"
    then obtain m where m: "migrate_loop as (co_repayment s) = Some m"
        and s': "s' = s\<lparr>co_repayment := m, co_storage_version := Some 2\<rparr>"
      unfolding run by auto
    have upd: "co_repayment s' = migrated_map as (co_repayment s)"
      using migrate_loop_Some [OF assms(3) m] by (simp add: s')
    have keep: "a \<notin> set as \<Longrightarrow> co_repayment s' a = co_repayment s a" for a
      unfolding upd by (auto simp: migrated_map_def split: option.splits stored_repayment.splits)
    have v: "co_storage_version s' = Some 2" by (simp add: s')
    have new: "load_repayment s' a = Some (upgraded r)"
      if "co_repayment s a = Some (StoredV1 r)" "a \<in> set as" for a r
      using that by (simp add: load_repayment_def v read_repayment_v2_def upd migrated_map_def)
    show "co_storage_version s' = Some 2 \<and>
       (\<forall>a r. co_repayment s a = Some (StoredV1 r) \<longrightarrow>
          (if a \<in> set as then load_repayment s' a = Some (upgraded r)
           else co_repayment s' a = co_repayment s a \<and>
             (\<not> co_is_paused s' \<and> check_compute_cooldown e' a s' = Ok () \<longrightarrow>
                co_compute_score e' iv a s' = Trap) \<and>
             (\<not> co_is_paused s' \<and> is_trusted_lender s' l \<and> 0 < sint n \<longrightarrow>
                co_record_repayment e' l a n b s' = Trap))) \<and>
       (\<forall>a. a \<notin> set as \<longrightarrow> co_repayment s' a = co_repayment s a)"
      using v keep new stranded_record [OF v] by simp
  qed
qed

theorem co_migrate_correct_witness:
  "is_ok (co_migrate co_demo_env [''bob'']
     (co_demo_state\<lparr>co_repayment := [''bob'' \<mapsto> StoredV1 \<lparr>on_time_count_v1 = 3, total_count_v1 = 4\<rparr>],
                    co_storage_version := Some 1\<rparr>))"
proof -
  have "co_admin (co_demo_state\<lparr>co_repayment := m, co_storage_version := v\<rparr>) = Some ''admin''" for m v
    by (simp add: co_demo_defs)
  moreover have "authorized co_demo_env ''admin''" by (simp add: co_demo_defs authorized_def)
  ultimately show ?thesis
    using co_migrate_correct [where as = "[''bob'']" and adm = "''admin''" and e = co_demo_env]
    by simp
qed

end
