(* ===== verification/Governance.thy ===== *)
theory Governance
  imports Interfaces
begin

text \<open>
  \<open>contracts/governance/src/lib.rs\<close>. The state has one field per \<open>DataKey\<close> variant. The
  three calls on the credit-oracle are parameters acting on the state \<open>'w\<close> of the other
  contracts and go through the client wrapper of \<open>credit-oracle-types\<close>: an error of
  \<open>propose_weights\<close> or \<open>accept_admin\<close> traps the caller, one of \<open>apply_weights\<close> is mapped
  to a governance error. Votes are \<open>i128\<close>; every plain addition or subtraction is checked.
\<close>

section \<open>State\<close>

datatype gov_error =
    GvAlreadyInitialized | GvNotAuthorized | ProposalNotFound | ProposalExpired | ProposalNotExpired
  | ProposalAlreadyExecuted | GvInvalidWeights | InvalidQuorum | InvalidVoteWeight | QuorumNotMet
  | GvTimelockNotExpired | VoterNotRegistered | InsufficientVoteWeight | ProposalAlreadyCancelled
  | GvNoPendingWeights | GvContractPaused | VoteTallyOverflow | ProposalRejected | InvalidVotingPeriod

record governance_proposal =
  gp_id :: u64
  gp_proposer :: address
  gp_proposed_weights :: scoring_weights
  gp_votes_for :: i128
  gp_votes_against :: i128
  gp_expiry_ledger :: u32
  gp_execution_delay_ledgers :: u32
  gp_executed :: bool
  gp_cancelled :: bool
  gp_quorum_required :: i128

datatype gov_event =
    GvInitialized address address | PropCreat u64 address u32 | Voted u64 address bool i128
  | PropExec u64 i128 i128 | VCln u64 u32 | WtApplied u32 | VoterReg address i128
  | VoterUpd address i128 | VoterDer address | PropCanc u64 address

record gov_state =
  gv_admin :: "address option"
  gv_credit_oracle :: "address option"
  gv_next_proposal_id :: "u64 option"
  gv_quorum_required :: "i128 option"
  gv_quorum_percent :: "u32 option"
  gv_proposal :: "u64 \<rightharpoonup> governance_proposal"
  gv_proposer :: "u64 \<rightharpoonup> address"
  gv_voter_weight :: "address \<rightharpoonup> i128"
  gv_vote_weight_used :: "u64 \<times> address \<rightharpoonup> i128"
  gv_total_registered_weight :: "i128 option"
  gv_events :: "gov_event list"

definition gov_new :: gov_state where
  "gov_new = \<lparr>gv_admin = None, gv_credit_oracle = None, gv_next_proposal_id = None,
     gv_quorum_required = None, gv_quorum_percent = None, gv_proposal = Map.empty,
     gv_proposer = Map.empty, gv_voter_weight = Map.empty, gv_vote_weight_used = Map.empty,
     gv_total_registered_weight = None, gv_events = []\<rparr>"

definition FIRST_PROPOSAL_ID :: u64 where "FIRST_PROPOSAL_ID = 1"

type_synonym 'w propose_call = "env \<Rightarrow> address \<Rightarrow> scoring_weights \<Rightarrow> 'w \<Rightarrow> (credit_error, 'w) outcome"
type_synonym 'w apply_call = "env \<Rightarrow> address \<Rightarrow> 'w \<Rightarrow> (credit_error, 'w) outcome"
type_synonym 'w accept_call = "env \<Rightarrow> address \<Rightarrow> address \<Rightarrow> 'w \<Rightarrow> (credit_error, 'w) outcome"

definition gov_publish :: "gov_event \<Rightarrow> gov_state \<Rightarrow> gov_state" where
  "gov_publish ev s = s\<lparr>gv_events := gv_events s @ [ev]\<rparr>"

section \<open>Initialisation and quorum\<close>

definition gov_initialize ::
  "env \<Rightarrow> address \<Rightarrow> address \<Rightarrow> i128 \<Rightarrow> gov_state \<Rightarrow> (gov_error, gov_state) outcome" where
  "gov_initialize e adm oracle quorum s =
     (if gv_admin s \<noteq> None then Err GvAlreadyInitialized
      else if sint quorum \<le> 0 then Err InvalidQuorum
      else if \<not> authorized e adm then Trap
      else Ok (gov_publish (GvInitialized adm oracle)
                 (s\<lparr>gv_admin := Some adm, gv_credit_oracle := Some oracle,
                    gv_next_proposal_id := Some FIRST_PROPOSAL_ID,
                    gv_quorum_required := Some quorum\<rparr>)))"

definition gov_require_admin :: "env \<Rightarrow> address \<Rightarrow> gov_state \<Rightarrow> (gov_error, unit) outcome" where
  "gov_require_admin e adm s =
     outcome_bind (ok_or (gv_admin s) GvNotAuthorized) (\<lambda>stored.
       if adm \<noteq> stored then Err GvNotAuthorized
       else if authorized e adm then Ok () else Trap)"

definition gov_get_total_registered_weight :: "gov_state \<Rightarrow> i128" where
  "gov_get_total_registered_weight s = unwrap_or (gv_total_registered_weight s) 0"

definition gov_set_quorum :: "env \<Rightarrow> address \<Rightarrow> i128 \<Rightarrow> gov_state \<Rightarrow> (gov_error, gov_state) outcome" where
  "gov_set_quorum e adm quorum s =
     (if sint quorum \<le> 0 then Err InvalidQuorum
      else outcome_bind (gov_require_admin e adm s) (\<lambda>_.
        if sint (gov_get_total_registered_weight s) < sint quorum then Err InvalidQuorum
        else Ok (s\<lparr>gv_quorum_required := Some quorum, gv_quorum_percent := None\<rparr>)))"

definition gov_set_quorum_percent ::
  "env \<Rightarrow> address \<Rightarrow> u32 \<Rightarrow> gov_state \<Rightarrow> (gov_error, gov_state) outcome" where
  "gov_set_quorum_percent e adm percent s =
     (if percent = 0 \<or> 100 < percent then Err InvalidQuorum
      else outcome_bind (gov_require_admin e adm s) (\<lambda>_. Ok (s\<lparr>gv_quorum_percent := Some percent\<rparr>)))"

definition gov_get_quorum_percent :: "gov_state \<Rightarrow> u32 option" where
  "gov_get_quorum_percent s = gv_quorum_percent s"

definition gov_get_quorum :: "gov_state \<Rightarrow> i128" where
  "gov_get_quorum s = unwrap_or (gv_quorum_required s) 0"

section \<open>Proposals\<close>

text \<open>The quorum a new proposal is created with.\<close>

definition quorum_snapshot :: "gov_state \<Rightarrow> (gov_error, i128) outcome" where
  "quorum_snapshot s =
     (case gv_quorum_percent s of
        Some percent \<Rightarrow>
          outcome_bind (ok_or (i128_checked_mul (gov_get_total_registered_weight s)
                                 (word_of_int (uint percent))) InvalidQuorum)
            (\<lambda>prod. Ok (i128_div prod 100))
      | None \<Rightarrow> Ok (unwrap_or (gv_quorum_required s) 0))"

definition gov_create_proposal ::
  "env \<Rightarrow> address \<Rightarrow> scoring_weights \<Rightarrow> u32 \<Rightarrow> u32 \<Rightarrow> gov_state \<Rightarrow> (gov_error, u64 \<times> gov_state) outcome"
  where
  "gov_create_proposal e proposer w period delay s =
     (if \<not> authorized e proposer then Trap
      else outcome_bind (expect (is_valid w)) (\<lambda>ok.
        if \<not> ok then Err GvInvalidWeights
        else if period = 0 then Err InvalidVotingPeriod
        else
          let pid = unwrap_or (gv_next_proposal_id s) FIRST_PROPOSAL_ID
          in outcome_bind (expect (checked_add (ledger_sequence e) period)) (\<lambda>expiry.
             outcome_bind (quorum_snapshot s) (\<lambda>quorum.
             outcome_bind (expect (checked_add pid 1)) (\<lambda>next_id.
               let p = \<lparr>gp_id = pid, gp_proposer = proposer, gp_proposed_weights = w,
                        gp_votes_for = 0, gp_votes_against = 0, gp_expiry_ledger = expiry,
                        gp_execution_delay_ledgers = delay, gp_executed = False,
                        gp_cancelled = False, gp_quorum_required = quorum\<rparr>
               in Ok (pid, gov_publish (PropCreat pid proposer expiry)
                    (s\<lparr>gv_proposal := (gv_proposal s)(pid \<mapsto> p),
                       gv_proposer := (gv_proposer s)(pid \<mapsto> proposer),
                       gv_next_proposal_id := Some next_id\<rparr>)))))))"

definition gov_get_vote_weight_used :: "gov_state \<Rightarrow> u64 \<Rightarrow> address \<Rightarrow> i128" where
  "gov_get_vote_weight_used s pid voter = unwrap_or (gv_vote_weight_used s (pid, voter)) 0"

text \<open>The tally with one vote added; its overflow is the error \<open>VoteTallyOverflow\<close>.\<close>

definition add_vote :: "bool \<Rightarrow> i128 \<Rightarrow> governance_proposal \<Rightarrow> (gov_error, governance_proposal) outcome" where
  "add_vote vote_for weight p =
     (if vote_for
      then outcome_bind (ok_or (i128_checked_add (gp_votes_for p) weight) VoteTallyOverflow)
             (\<lambda>v. Ok (p\<lparr>gp_votes_for := v\<rparr>))
      else outcome_bind (ok_or (i128_checked_add (gp_votes_against p) weight) VoteTallyOverflow)
             (\<lambda>v. Ok (p\<lparr>gp_votes_against := v\<rparr>)))"

definition gov_vote ::
  "env \<Rightarrow> address \<Rightarrow> u64 \<Rightarrow> bool \<Rightarrow> i128 \<Rightarrow> gov_state \<Rightarrow> (gov_error, gov_state) outcome" where
  "gov_vote e voter pid vote_for weight s =
     (if \<not> authorized e voter then Trap
      else if sint weight \<le> 0 then Err InvalidVoteWeight
      else outcome_bind (ok_or (gv_voter_weight s voter) VoterNotRegistered) (\<lambda>total_weight.
        let used = gov_get_vote_weight_used s pid voter
        in outcome_bind (expect (i128_checked_sub total_weight used)) (\<lambda>available.
           if sint available < sint weight then Err InsufficientVoteWeight
           else outcome_bind (ok_or (gv_proposal s pid) ProposalNotFound) (\<lambda>p.
             if gp_expiry_ledger p < ledger_sequence e then Err ProposalExpired
             else if gp_executed p then Err ProposalAlreadyExecuted
             else if gp_cancelled p then Err ProposalAlreadyCancelled
             else outcome_bind (add_vote vote_for weight p) (\<lambda>p'.
                  outcome_bind (expect (i128_checked_add used weight)) (\<lambda>used'.
                    Ok (gov_publish (Voted pid voter vote_for weight)
                          (s\<lparr>gv_vote_weight_used := (gv_vote_weight_used s)((pid, voter) \<mapsto> used'),
                             gv_proposal := (gv_proposal s)(pid \<mapsto> p')\<rparr>))))))))"

definition gov_execute ::
  "env \<Rightarrow> 'w propose_call \<Rightarrow> u64 \<Rightarrow> gov_state \<times> 'w \<Rightarrow> (gov_error, gov_state \<times> 'w) outcome" where
  "gov_execute e propose pid sw =
     (case sw of (s, w) \<Rightarrow>
        outcome_bind (ok_or (gv_proposal s pid) ProposalNotFound) (\<lambda>p.
          if ledger_sequence e \<le> gp_expiry_ledger p then Err ProposalNotExpired
          else if ledger_sequence e \<le> saturating_add (gp_expiry_ledger p) (gp_execution_delay_ledgers p)
          then Err GvTimelockNotExpired
          else if gp_executed p then Err ProposalAlreadyExecuted
          else if gp_cancelled p then Err ProposalAlreadyCancelled
          else if sint (gp_votes_for p) \<le> sint (gp_votes_against p) then Err ProposalRejected
          else outcome_bind (expect (i128_checked_add (gp_votes_for p) (gp_votes_against p))) (\<lambda>cast_votes.
            if sint cast_votes < sint (gp_quorum_required p) then Err QuorumNotMet
            else outcome_bind (expect (gv_credit_oracle s)) (\<lambda>oracle.
                 outcome_bind (expect (client_invoke (propose (call_env e oracle) oracle
                                                        (gp_proposed_weights p)) w)) (\<lambda>w'.
                   Ok (gov_publish (PropExec pid (gp_votes_for p) (gp_votes_against p))
                         (s\<lparr>gv_proposal := (gv_proposal s)(pid \<mapsto> p\<lparr>gp_executed := True\<rparr>)\<rparr>), w'))))))"

fun remove_used :: "u64 \<Rightarrow> address list \<Rightarrow> (u64 \<times> address \<rightharpoonup> i128) \<Rightarrow> (u64 \<times> address \<rightharpoonup> i128)" where
  "remove_used pid [] m = m"
| "remove_used pid (v # vs) m = remove_used pid vs (m((pid, v) := None))"

definition gov_cleanup_proposal_votes ::
  "env \<Rightarrow> address \<Rightarrow> u64 \<Rightarrow> address list \<Rightarrow> gov_state \<Rightarrow> (gov_error, gov_state) outcome" where
  "gov_cleanup_proposal_votes e adm pid voters s =
     outcome_bind (gov_require_admin e adm s) (\<lambda>_.
     outcome_bind (ok_or (gv_proposal s pid) ProposalNotFound) (\<lambda>p.
       if \<not> gp_executed p then Ok s
       else Ok (gov_publish (VCln pid (of_nat (length voters)))
              (s\<lparr>gv_vote_weight_used := remove_used pid voters (gv_vote_weight_used s)\<rparr>))))"

definition gov_cancel_proposal :: "env \<Rightarrow> address \<Rightarrow> u64 \<Rightarrow> gov_state \<Rightarrow> (gov_error, gov_state) outcome" where
  "gov_cancel_proposal e canceller pid s =
     (if \<not> authorized e canceller then Trap
      else outcome_bind (ok_or (gv_proposal s pid) ProposalNotFound) (\<lambda>p.
        if gp_executed p then Err ProposalAlreadyExecuted
        else if gp_cancelled p then Err ProposalAlreadyCancelled
        else outcome_bind (ok_or (gv_admin s) GvNotAuthorized) (\<lambda>adm.
             outcome_bind (ok_or (gv_proposer s pid) GvNotAuthorized) (\<lambda>proposer.
               if canceller \<noteq> adm \<and> canceller \<noteq> proposer then Err GvNotAuthorized
               else Ok (gov_publish (PropCanc pid canceller)
                      (s\<lparr>gv_proposal := (gv_proposal s)(pid \<mapsto> p\<lparr>gp_cancelled := True\<rparr>)\<rparr>))))))"

section \<open>The credit-oracle\<close>

definition gov_apply_weights ::
  "env \<Rightarrow> 'w apply_call \<Rightarrow> gov_state \<times> 'w \<Rightarrow> (gov_error, gov_state \<times> 'w) outcome" where
  "gov_apply_weights e apply_w sw =
     (case sw of (s, w) \<Rightarrow>
        outcome_bind (ok_or (gv_credit_oracle s) GvNotAuthorized) (\<lambda>oracle.
          case client_apply_weights (apply_w (call_env e oracle) oracle) w of
            Ok w' \<Rightarrow> Ok (gov_publish (WtApplied (ledger_sequence e)) s, w')
          | Err CoTimelockNotExpired \<Rightarrow> Err GvTimelockNotExpired
          | Err CoNoPendingWeights \<Rightarrow> Err GvNoPendingWeights
          | Err CoContractPaused \<Rightarrow> Err GvContractPaused
          | Err _ \<Rightarrow> Err GvNotAuthorized
          | Trap \<Rightarrow> Trap))"

definition gov_accept_oracle_admin ::
  "env \<Rightarrow> 'w accept_call \<Rightarrow> gov_state \<times> 'w \<Rightarrow> (gov_error, gov_state \<times> 'w) outcome" where
  "gov_accept_oracle_admin e accept sw =
     (case sw of (s, w) \<Rightarrow>
        outcome_bind (ok_or (gv_admin s) GvNotAuthorized) (\<lambda>adm.
          if \<not> authorized e adm then Trap
          else outcome_bind (ok_or (gv_credit_oracle s) GvNotAuthorized) (\<lambda>oracle.
               outcome_bind (expect (client_invoke
                   (accept (call_env e oracle) oracle (current_contract e)) w)) (\<lambda>w'.
                 Ok (s, w')))))"

section \<open>Voters\<close>

definition voter_weight_or_zero :: "gov_state \<Rightarrow> address \<Rightarrow> i128" where
  "voter_weight_or_zero s voter = unwrap_or (gv_voter_weight s voter) 0"

text \<open>\<open>total - old_weight + weight\<close>, each step checked.\<close>

definition adjusted_total :: "gov_state \<Rightarrow> i128 \<Rightarrow> i128 \<Rightarrow> i128 option" where
  "adjusted_total s old_weight weight =
     (case i128_checked_sub (gov_get_total_registered_weight s) old_weight of
        None \<Rightarrow> None
      | Some d \<Rightarrow> i128_checked_add d weight)"

definition gov_register_voter ::
  "env \<Rightarrow> address \<Rightarrow> address \<Rightarrow> i128 \<Rightarrow> gov_state \<Rightarrow> (gov_error, gov_state) outcome" where
  "gov_register_voter e adm voter weight s =
     outcome_bind (ok_or (gv_admin s) GvNotAuthorized) (\<lambda>stored.
       if adm \<noteq> stored then Err GvNotAuthorized
       else if sint weight \<le> 0 then Err InvalidVoteWeight
       else if \<not> authorized e adm then Trap
       else outcome_bind (expect (adjusted_total s (voter_weight_or_zero s voter) weight)) (\<lambda>total_w.
              Ok (gov_publish (VoterReg voter weight)
                    (s\<lparr>gv_voter_weight := (gv_voter_weight s)(voter \<mapsto> weight),
                       gv_total_registered_weight := Some total_w\<rparr>))))"

definition gov_update_voter_weight ::
  "env \<Rightarrow> address \<Rightarrow> address \<Rightarrow> i128 \<Rightarrow> gov_state \<Rightarrow> (gov_error, gov_state) outcome" where
  "gov_update_voter_weight e adm voter weight s =
     outcome_bind (ok_or (gv_admin s) GvNotAuthorized) (\<lambda>stored.
       if adm \<noteq> stored then Err GvNotAuthorized
       else if sint weight < 0 then Err InvalidVoteWeight
       else if \<not> authorized e adm then Trap
       else outcome_bind (expect (adjusted_total s (voter_weight_or_zero s voter) weight)) (\<lambda>total_w.
              Ok (gov_publish (VoterUpd voter weight)
                    (s\<lparr>gv_voter_weight :=
                         (if weight = 0 then (gv_voter_weight s)(voter := None)
                          else (gv_voter_weight s)(voter \<mapsto> weight)),
                       gv_total_registered_weight := Some total_w\<rparr>))))"

definition gov_deregister_voter ::
  "env \<Rightarrow> address \<Rightarrow> address \<Rightarrow> gov_state \<Rightarrow> (gov_error, gov_state) outcome" where
  "gov_deregister_voter e adm voter s =
     outcome_bind (gov_require_admin e adm s) (\<lambda>_.
     outcome_bind (expect (i128_checked_sub (gov_get_total_registered_weight s)
                             (voter_weight_or_zero s voter))) (\<lambda>total_w.
       Ok (gov_publish (VoterDer voter)
             (s\<lparr>gv_voter_weight := (gv_voter_weight s)(voter := None),
                gv_total_registered_weight := Some total_w\<rparr>))))"

section \<open>Queries\<close>

definition gov_get_proposal :: "gov_state \<Rightarrow> u64 \<Rightarrow> governance_proposal option" where
  "gov_get_proposal s pid = gv_proposal s pid"

definition gov_get_voter_weight :: "gov_state \<Rightarrow> address \<Rightarrow> i128 option" where
  "gov_get_voter_weight s voter = gv_voter_weight s voter"

definition gov_get_available_vote_weight :: "gov_state \<Rightarrow> u64 \<Rightarrow> address \<Rightarrow> i128 option" where
  "gov_get_available_vote_weight s pid voter =
     i128_checked_sub (voter_weight_or_zero s voter) (gov_get_vote_weight_used s pid voter)"

fun collect_proposals :: "gov_state \<Rightarrow> bool \<Rightarrow> nat list \<Rightarrow> governance_proposal list" where
  "collect_proposals s inactive [] = []"
| "collect_proposals s inactive (i # is) =
     (case gv_proposal s (of_nat i) of
        None \<Rightarrow> collect_proposals s inactive is
      | Some p \<Rightarrow>
          if inactive \<or> (\<not> gp_executed p \<and> \<not> gp_cancelled p)
          then p # collect_proposals s inactive is
          else collect_proposals s inactive is)"

definition gov_list_proposals :: "gov_state \<Rightarrow> u64 \<Rightarrow> u32 \<Rightarrow> bool \<Rightarrow> governance_proposal list" where
  "gov_list_proposals s from_id lim include_inactive =
     (let cap = min lim 20
      in if cap = 0 then []
         else
           let next_id = unwrap_or (gv_next_proposal_id s) FIRST_PROPOSAL_ID
           in if next_id \<le> from_id then []
              else
                let end_id = min (saturating_add from_id (ucast cap)) next_id
                in collect_proposals s include_inactive [unat from_id..<unat end_id])"

section \<open>Calls and reachable states\<close>

datatype gov_call =
    GvSetQuorumCall address i128 | GvSetQuorumPercentCall address u32
  | GvInitializeCall address address i128
  | GvCreateCall address scoring_weights u32 u32 | GvVoteCall address u64 bool i128
  | GvExecuteCall u64 | GvCleanupCall address u64 "address list" | GvApplyWeightsCall
  | GvAcceptOracleAdminCall | GvRegisterVoterCall address address i128
  | GvUpdateVoterCall address address i128 | GvDeregisterVoterCall address address
  | GvCancelCall address u64

definition gov_local :: "(gov_state \<Rightarrow> (gov_error, gov_state) outcome) \<Rightarrow> gov_state \<times> 'w
    \<Rightarrow> (gov_error, gov_state \<times> 'w) outcome" where
  "gov_local f sw = (case sw of (s, w) \<Rightarrow> outcome_bind (f s) (\<lambda>s'. Ok (s', w)))"

record 'w oracle_calls =
  oc_propose :: "env \<Rightarrow> address \<Rightarrow> scoring_weights \<Rightarrow> 'w \<Rightarrow> (credit_error, 'w) outcome"
  oc_apply :: "env \<Rightarrow> address \<Rightarrow> 'w \<Rightarrow> (credit_error, 'w) outcome"
  oc_accept :: "env \<Rightarrow> address \<Rightarrow> address \<Rightarrow> 'w \<Rightarrow> (credit_error, 'w) outcome"

fun gov_exec ::
  "env \<Rightarrow> 'w oracle_calls \<Rightarrow> gov_call \<Rightarrow> gov_state \<times> 'w \<Rightarrow> (gov_error, gov_state \<times> 'w) outcome" where
  "gov_exec e oc (GvInitializeCall a i q) sw = gov_local (gov_initialize e a i q) sw"
| "gov_exec e oc (GvSetQuorumCall a q) sw = gov_local (gov_set_quorum e a q) sw"
| "gov_exec e oc (GvSetQuorumPercentCall a n) sw = gov_local (gov_set_quorum_percent e a n) sw"
| "gov_exec e oc (GvCreateCall a x n d) sw =
     gov_local (\<lambda>s. outcome_bind (gov_create_proposal e a x n d s) (\<lambda>(_, s'). Ok s')) sw"
| "gov_exec e oc (GvVoteCall v i b n) sw = gov_local (gov_vote e v i b n) sw"
| "gov_exec e oc (GvExecuteCall i) sw = gov_execute e (oc_propose oc) i sw"
| "gov_exec e oc (GvCleanupCall a i vs) sw = gov_local (gov_cleanup_proposal_votes e a i vs) sw"
| "gov_exec e oc GvApplyWeightsCall sw = gov_apply_weights e (oc_apply oc) sw"
| "gov_exec e oc GvAcceptOracleAdminCall sw = gov_accept_oracle_admin e (oc_accept oc) sw"
| "gov_exec e oc (GvRegisterVoterCall a v n) sw = gov_local (gov_register_voter e a v n) sw"
| "gov_exec e oc (GvUpdateVoterCall a v n) sw = gov_local (gov_update_voter_weight e a v n) sw"
| "gov_exec e oc (GvDeregisterVoterCall a v) sw = gov_local (gov_deregister_voter e a v) sw"
| "gov_exec e oc (GvCancelCall a i) sw = gov_local (gov_cancel_proposal e a i) sw"

text \<open>
  Runs of a contract that is initialised before anything else happens to it; what a
  proposal created earlier does is the subject of a property of its own.
\<close>

inductive gov_reachable :: "gov_state \<times> 'w \<Rightarrow> bool" where
  gov_start: "gov_initialize e adm oracle q gov_new = Ok s \<Longrightarrow> gov_reachable (s, w)"
| gov_step: "gov_reachable sw \<Longrightarrow> gov_exec e oc c sw = Ok sw' \<Longrightarrow> gov_reachable sw'"

lemma gov_local_Ok [simp]:
  "gov_local f (s, w) = Ok (s', w') \<longleftrightarrow> f s = Ok s' \<and> w' = w"
  by (auto simp: gov_local_def)

section \<open>Normal forms\<close>

lemma add_vote_Ok:
  "add_vote b n p = Ok p' \<longleftrightarrow>
     (if b then \<exists>v. i128_fits (sint (gp_votes_for p) + sint n) \<and>
                 sint v = sint (gp_votes_for p) + sint n \<and> p' = p\<lparr>gp_votes_for := v\<rparr>
      else \<exists>v. i128_fits (sint (gp_votes_against p) + sint n) \<and>
                 sint v = sint (gp_votes_against p) + sint n \<and> p' = p\<lparr>gp_votes_against := v\<rparr>)"
  by (auto simp: add_vote_def i128_checked_add_Some)

lemma remove_used_eq:
  "remove_used pid vs m = (\<lambda>(i, v). if i = pid \<and> v \<in> set vs then None else m (i, v))"
  by (induction vs arbitrary: m) (auto simp: fun_eq_iff)

lemma gov_vote_Ok:
  assumes "gov_vote e v pid b n s = Ok s'"
  shows "\<exists>wt p p' u. authorized e v \<and> 0 < sint n \<and> gv_voter_weight s v = Some wt \<and>
    gv_proposal s pid = Some p \<and> sint n \<le> sint wt - sint (gov_get_vote_weight_used s pid v) \<and>
    \<not> gp_expiry_ledger p < ledger_sequence e \<and> \<not> gp_executed p \<and> \<not> gp_cancelled p \<and>
    add_vote b n p = Ok p' \<and> sint u = sint (gov_get_vote_weight_used s pid v) + sint n \<and>
    s' = gov_publish (Voted pid v b n)
           (s\<lparr>gv_vote_weight_used := (gv_vote_weight_used s)((pid, v) \<mapsto> u),
              gv_proposal := (gv_proposal s)(pid \<mapsto> p')\<rparr>)"
  using assms
  by (auto simp: gov_vote_def Let_def i128_checked_sub_Some i128_checked_add_Some not_le not_less
      split: if_splits)

lemma gov_execute_Ok:
  assumes "gov_execute e propose pid (s, w) = Ok (s', w')"
  shows "\<exists>p oracle. gv_proposal s pid = Some p \<and> gv_credit_oracle s = Some oracle \<and>
    unat (gp_expiry_ledger p) < unat (ledger_sequence e) \<and>
    min (unat (gp_expiry_ledger p) + unat (gp_execution_delay_ledgers p)) (2 ^ 32 - 1) < unat (ledger_sequence e) \<and>
    \<not> gp_executed p \<and> \<not> gp_cancelled p \<and> sint (gp_votes_against p) < sint (gp_votes_for p) \<and>
    sint (gp_quorum_required p) \<le> sint (gp_votes_for p) + sint (gp_votes_against p) \<and>
    propose (call_env e oracle) oracle (gp_proposed_weights p) w = Ok w' \<and>
    s' = gov_publish (PropExec pid (gp_votes_for p) (gp_votes_against p))
           (s\<lparr>gv_proposal := (gv_proposal s)(pid \<mapsto> p\<lparr>gp_executed := True\<rparr>)\<rparr>)"
  using assms
  by (auto simp: gov_execute_def i128_checked_add_Some not_le not_less word_less_nat_alt
      unat_saturating_add split: if_splits)

lemma gov_apply_weights_Ok:
  "gov_apply_weights e ap (s, w) = Ok (s', w') \<longleftrightarrow>
     (\<exists>oracle. gv_credit_oracle s = Some oracle \<and> ap (call_env e oracle) oracle w = Ok w' \<and>
        s' = gov_publish (WtApplied (ledger_sequence e)) s)"
proof -
  have "(case r of Ok w' \<Rightarrow> Ok (t, w') | Err CoTimelockNotExpired \<Rightarrow> Err GvTimelockNotExpired
          | Err CoNoPendingWeights \<Rightarrow> Err GvNoPendingWeights
          | Err CoContractPaused \<Rightarrow> Err GvContractPaused
          | Err _ \<Rightarrow> Err GvNotAuthorized | Trap \<Rightarrow> Trap) = Ok (s', w')
     \<longleftrightarrow> r = Ok w' \<and> s' = t" for r t
    by (cases r) (auto split: credit_error.splits)
  then show ?thesis by (simp add: gov_apply_weights_def)
qed

lemma adjusted_total_Some:
  "adjusted_total s a b = Some t \<Longrightarrow>
     sint t = sint (gov_get_total_registered_weight s) - sint a + sint b"
  by (auto simp: adjusted_total_def i128_checked_sub_Some i128_checked_add_Some split: option.splits)

section \<open>Invariants\<close>

definition used_slice :: "gov_state \<Rightarrow> u64 \<Rightarrow> (address \<rightharpoonup> i128)" where
  "used_slice s pid v = gv_vote_weight_used s (pid, v)"

definition gov_voters_ok :: "gov_state \<Rightarrow> bool" where
  "gov_voters_ok s \<longleftrightarrow>
     finite (dom (gv_voter_weight s)) \<and>
     (\<forall>v x. gv_voter_weight s v = Some x \<longrightarrow> 0 < sint x) \<and>
     sint (gov_get_total_registered_weight s) = map_total sint (gv_voter_weight s)"

definition proposal_ok :: "gov_state \<Rightarrow> u64 \<Rightarrow> governance_proposal \<Rightarrow> bool" where
  "proposal_ok s pid p \<longleftrightarrow>
     gp_id p = pid \<and> gv_proposer s pid = Some (gp_proposer p) \<and> weights_ok (gp_proposed_weights p) \<and>
     0 \<le> sint (gp_votes_for p) \<and> 0 \<le> sint (gp_votes_against p) \<and> 0 \<le> sint (gp_quorum_required p) \<and>
     \<not> (gp_executed p \<and> gp_cancelled p) \<and>
     (gp_executed p \<longrightarrow> sint (gp_votes_against p) < sint (gp_votes_for p) \<and>
        sint (gp_quorum_required p) \<le> sint (gp_votes_for p) + sint (gp_votes_against p)) \<and>
     (\<not> gp_executed p \<longrightarrow>
        sint (gp_votes_for p) + sint (gp_votes_against p) = map_total sint (used_slice s pid))"

definition gov_used_ok :: "gov_state \<Rightarrow> bool" where
  "gov_used_ok s \<longleftrightarrow>
     finite (dom (gv_vote_weight_used s)) \<and>
     (\<forall>i v x. gv_vote_weight_used s (i, v) = Some x \<longrightarrow> 0 < sint x \<and> gv_proposal s i \<noteq> None)"

definition gov_ids_ok :: "gov_state \<Rightarrow> bool" where
  "gov_ids_ok s \<longleftrightarrow>
     (\<exists>n. gv_next_proposal_id s = Some n \<and> 1 \<le> unat n \<and>
        (\<forall>i. gv_proposal s i \<noteq> None \<longleftrightarrow> 1 \<le> unat i \<and> unat i < unat n))"

definition gov_config_ok :: "gov_state \<Rightarrow> bool" where
  "gov_config_ok s \<longleftrightarrow>
     gv_admin s \<noteq> None \<and> gv_credit_oracle s \<noteq> None \<and> 0 < sint (gov_get_quorum s) \<and>
     (\<forall>n. gv_quorum_percent s = Some n \<longrightarrow> 1 \<le> unat n \<and> unat n \<le> 100)"

definition gov_proposals_ok :: "gov_state \<Rightarrow> bool" where
  "gov_proposals_ok s \<longleftrightarrow> (\<forall>i p. gv_proposal s i = Some p \<longrightarrow> proposal_ok s i p)"

definition gov_inv :: "gov_state \<Rightarrow> bool" where
  "gov_inv s \<longleftrightarrow> gov_voters_ok s \<and> gov_used_ok s \<and> gov_ids_ok s \<and> gov_config_ok s \<and> gov_proposals_ok s"

lemma finite_used_slice: "gov_used_ok s \<Longrightarrow> finite (dom (used_slice s pid))"
proof -
  assume "gov_used_ok s"
  then have "finite (dom (gv_vote_weight_used s))" by (simp add: gov_used_ok_def)
  moreover have "dom (used_slice s pid) \<subseteq> snd ` dom (gv_vote_weight_used s)"
    by (force simp: used_slice_def)
  ultimately show ?thesis by (meson finite_imageI finite_subset)
qed

lemma proposal_ok_cong:
  assumes "gv_proposer s' i = gv_proposer s i" and "gp_executed p \<or> used_slice s' i = used_slice s i"
  shows "proposal_ok s' i p = proposal_ok s i p"
  using assms by (auto simp: proposal_ok_def)

subsection \<open>Which calls write which part\<close>

fun gov_voter_call :: "gov_call \<Rightarrow> bool" where
  "gov_voter_call (GvRegisterVoterCall _ _ _) = True"
| "gov_voter_call (GvUpdateVoterCall _ _ _) = True"
| "gov_voter_call (GvDeregisterVoterCall _ _) = True"
| "gov_voter_call _ = False"

fun gov_proposal_call :: "gov_call \<Rightarrow> bool" where
  "gov_proposal_call (GvCreateCall _ _ _ _) = True"
| "gov_proposal_call (GvVoteCall _ _ _ _) = True"
| "gov_proposal_call (GvExecuteCall _) = True"
| "gov_proposal_call (GvCleanupCall _ _ _) = True"
| "gov_proposal_call (GvCancelCall _ _) = True"
| "gov_proposal_call _ = False"

lemmas gov_call_defs = gov_set_quorum_def gov_set_quorum_percent_def gov_cleanup_proposal_votes_def
  gov_cancel_proposal_def gov_register_voter_def gov_update_voter_weight_def gov_deregister_voter_def
  gov_apply_weights_Ok gov_accept_oracle_admin_def gov_create_proposal_def gov_require_admin_def
  gov_initialize_def gov_publish_def

lemma gov_frame:
  assumes "gov_exec e oc c (s, w) = Ok (s', w')" and "gov_config_ok s"
  shows "gv_admin s' = gv_admin s \<and> gv_credit_oracle s' = gv_credit_oracle s \<and>
    (\<not> gov_voter_call c \<longrightarrow> gv_voter_weight s' = gv_voter_weight s \<and>
       gv_total_registered_weight s' = gv_total_registered_weight s) \<and>
    (\<not> gov_proposal_call c \<longrightarrow> gv_proposal s' = gv_proposal s \<and> gv_proposer s' = gv_proposer s \<and>
       gv_vote_weight_used s' = gv_vote_weight_used s \<and> gv_next_proposal_id s' = gv_next_proposal_id s)"
proof (cases c)
  case (GvVoteCall v i b n)
  then have "gov_vote e v i b n s = Ok s'" using assms(1) by simp
  from gov_vote_Ok [OF this] show ?thesis using GvVoteCall by (auto simp: gov_publish_def)
next
  case (GvExecuteCall i)
  then have "gov_execute e (oc_propose oc) i (s, w) = Ok (s', w')" using assms(1) by simp
  from gov_execute_Ok [OF this] show ?thesis using GvExecuteCall by (auto simp: gov_publish_def)
qed (use assms in \<open>auto simp: gov_call_defs gov_config_ok_def Let_def split: if_splits\<close>)

lemma gov_exec_config:
  assumes "gov_exec e oc c (s, w) = Ok (s', w')" and "gov_config_ok s"
  shows "gov_config_ok s'"
proof -
  have "0 < sint (gov_get_quorum s') \<and> (\<forall>n. gv_quorum_percent s' = Some n \<longrightarrow> 1 \<le> unat n \<and> unat n \<le> 100)"
  proof (cases c)
    case (GvVoteCall v i b n)
    then have "gov_vote e v i b n s = Ok s'" using assms(1) by simp
    from gov_vote_Ok [OF this] show ?thesis
      using assms(2) by (auto simp: gov_publish_def gov_config_ok_def gov_get_quorum_def)
  next
    case (GvExecuteCall i)
    then have "gov_execute e (oc_propose oc) i (s, w) = Ok (s', w')" using assms(1) by simp
    from gov_execute_Ok [OF this] show ?thesis
      using assms(2) by (auto simp: gov_publish_def gov_config_ok_def gov_get_quorum_def)
  next
    case (GvSetQuorumPercentCall a n)
    then have "n \<noteq> 0" "\<not> 100 < n" "s' = s\<lparr>gv_quorum_percent := Some n\<rparr>"
      using assms(1) by (auto simp: gov_set_quorum_percent_def split: if_splits)
    then show ?thesis using assms(2)
      by (auto simp: gov_config_ok_def gov_get_quorum_def word_less_nat_alt word_neq_0_conv Suc_le_eq)
  qed (use assms in \<open>auto simp: gov_call_defs gov_config_ok_def gov_get_quorum_def Let_def split: if_splits\<close>)
  then show ?thesis using gov_frame [OF assms] assms(2) by (simp add: gov_config_ok_def)
qed

subsection \<open>Preservation\<close>

lemma gov_voters_update:
  assumes "gov_voters_ok s" and "gv_voter_weight s' = (gv_voter_weight s)(v := x)"
    and "\<And>y. x = Some y \<Longrightarrow> 0 < sint y"
    and "sint (gov_get_total_registered_weight s') =
       sint (gov_get_total_registered_weight s) - sint (voter_weight_or_zero s v) + entry_of sint x"
  shows "gov_voters_ok s'"
proof -
  have f: "finite (dom (gv_voter_weight s))" using assms(1) by (simp add: gov_voters_ok_def)
  have "entry_of sint (gv_voter_weight s v) = sint (voter_weight_or_zero s v)"
    by (cases "gv_voter_weight s v") (simp_all add: voter_weight_or_zero_def)
  then have "map_total sint (gv_voter_weight s') = map_total sint (gv_voter_weight s)
      - sint (voter_weight_or_zero s v) + entry_of sint x"
    using map_total_update [OF f, of sint v x] by (simp add: assms(2))
  then show ?thesis
    using assms(1,3,4) f by (auto simp: gov_voters_ok_def assms(2))
qed

lemma gov_exec_voters:
  assumes "gov_exec e oc c (s, w) = Ok (s', w')" and "gov_config_ok s" and "gov_voters_ok s"
  shows "gov_voters_ok s'"
proof (cases "gov_voter_call c")
  case False
  then show ?thesis using gov_frame [OF assms(1,2)] assms(3)
    by (simp add: gov_voters_ok_def gov_get_total_registered_weight_def)
next
  case True
  then show ?thesis
  proof (cases c)
    case (GvRegisterVoterCall a v n)
    then obtain t where n: "0 < sint n" "adjusted_total s (voter_weight_or_zero s v) n = Some t" and
        s': "gv_voter_weight s' = (gv_voter_weight s)(v \<mapsto> n)" "gv_total_registered_weight s' = Some t"
      using assms(1) by (auto simp: gov_register_voter_def gov_publish_def not_le split: if_splits)
    show ?thesis
      by (rule gov_voters_update [OF assms(3) s'(1)])
         (use n adjusted_total_Some [OF n(2)] s'(2) in \<open>auto simp: gov_get_total_registered_weight_def\<close>)
  next
    case (GvUpdateVoterCall a v n)
    then obtain t where n: "0 \<le> sint n" "adjusted_total s (voter_weight_or_zero s v) n = Some t" and
        s': "gv_voter_weight s' = (gv_voter_weight s)(v := (if n = 0 then None else Some n))"
          "gv_total_registered_weight s' = Some t"
      using assms(1) by (auto simp: gov_update_voter_weight_def gov_publish_def not_less split: if_splits)
    have "sint n = 0 \<longleftrightarrow> n = 0" by (metis signed_0 signed_word_eqI)
    then show ?thesis
      by (intro gov_voters_update [OF assms(3) s'(1)])
         (use n adjusted_total_Some [OF n(2)] s'(2) in \<open>auto simp: gov_get_total_registered_weight_def split: if_splits\<close>)
  next
    case (GvDeregisterVoterCall a v)
    then obtain t where t: "sint t = sint (gov_get_total_registered_weight s) - sint (voter_weight_or_zero s v)"
        and s': "gv_voter_weight s' = (gv_voter_weight s)(v := None)" "gv_total_registered_weight s' = Some t"
      using assms(1) by (auto simp: gov_deregister_voter_def gov_publish_def i128_checked_sub_Some split: if_splits)
    show ?thesis
      by (rule gov_voters_update [OF assms(3) s'(1)])
         (use t s'(2) in \<open>auto simp: gov_get_total_registered_weight_def\<close>)
  qed simp_all
qed

lemma quorum_snapshot_nonneg:
  assumes "gov_config_ok s" and "gov_voters_ok s" and "quorum_snapshot s = Ok q"
  shows "0 \<le> sint q"
proof (cases "gv_quorum_percent s")
  case None
  then show ?thesis using assms(1,3) by (auto simp: quorum_snapshot_def gov_config_ok_def gov_get_quorum_def)
next
  case (Some pc)
  have pos: "0 \<le> map_total sint (gv_voter_weight s)"
    unfolding map_total_def using assms(2) by (intro sum_nonneg) (force simp: gov_voters_ok_def)
  have "uint pc < 2 ^ 32" using uint_lt2p [of pc] by simp
  then have "uint pc < 2 ^ 127" by (rule less_trans) simp
  moreover have "- (2 ^ 127) \<le> uint pc" by (rule order_trans [of _ 0]) simp_all
  ultimately have "i128_fits (uint pc)" unfolding i128_fits_def by blast
  then have pcs: "sint (word_of_int (uint pc) :: i128) = uint pc" by (rule sint_i128_of_int)
  obtain prod where m: "i128_checked_mul (gov_get_total_registered_weight s) (word_of_int (uint pc)) = Some prod"
    and q: "q = i128_div prod 100"
    using assms(3) Some by (auto simp: quorum_snapshot_def)
  have "0 \<le> sint prod"
    using m pos assms(2) pcs by (auto simp: i128_checked_mul_Some gov_voters_ok_def)
  then have "sint prod sdiv 100 = sint prod div 100" by (simp add: signed_divide_int_def sgn_if)
  moreover have "sint prod div 100 \<le> sint prod" using \<open>0 \<le> sint prod\<close> by linarith
  ultimately have "sint q = sint prod div 100"
    using sint_less [of prod] \<open>0 \<le> sint prod\<close>
    by (simp add: q i128_div_def) (intro sint_i128_of_int, simp add: i128_fits_def)
  then show ?thesis using \<open>0 \<le> sint prod\<close> by (simp add: pos_imp_zdiv_nonneg_iff)
qed

lemma gov_create_proposal_Ok:
  assumes "gov_create_proposal e a x n d s = Ok (i, s')"
  shows "\<exists>l q m. authorized e a \<and> is_valid x = Some True \<and> n \<noteq> 0 \<and>
    i = unwrap_or (gv_next_proposal_id s) FIRST_PROPOSAL_ID \<and>
    checked_add (ledger_sequence e) n = Some l \<and> quorum_snapshot s = Ok q \<and> checked_add i 1 = Some m \<and>
    s' = gov_publish (PropCreat i a l)
      (s\<lparr>gv_proposal := (gv_proposal s)(i \<mapsto>
            \<lparr>gp_id = i, gp_proposer = a, gp_proposed_weights = x, gp_votes_for = 0, gp_votes_against = 0,
             gp_expiry_ledger = l, gp_execution_delay_ledgers = d, gp_executed = False,
             gp_cancelled = False, gp_quorum_required = q\<rparr>),
         gv_proposer := (gv_proposer s)(i \<mapsto> a), gv_next_proposal_id := Some m\<rparr>)"
  using assms by (auto simp: gov_create_proposal_def Let_def split: if_splits)

lemma used_sum_update:
  assumes "gov_used_ok s" and "gv_vote_weight_used s' = (gv_vote_weight_used s)((i, v) \<mapsto> u)"
  shows "map_total sint (used_slice s' i) =
    map_total sint (used_slice s i) - sint (gov_get_vote_weight_used s i v) + sint u"
    and "j \<noteq> i \<Longrightarrow> used_slice s' j = used_slice s j"
proof -
  have "used_slice s' i = (used_slice s i)(v \<mapsto> u)" by (auto simp: used_slice_def assms(2))
  moreover have "entry_of sint (used_slice s i v) = sint (gov_get_vote_weight_used s i v)"
    by (cases "gv_vote_weight_used s (i, v)") (simp_all add: used_slice_def gov_get_vote_weight_used_def)
  ultimately show "map_total sint (used_slice s' i) =
    map_total sint (used_slice s i) - sint (gov_get_vote_weight_used s i v) + sint u"
    using map_total_update [OF finite_used_slice [OF assms(1)], of sint i v "Some u"] by simp
  show "j \<noteq> i \<Longrightarrow> used_slice s' j = used_slice s j" by (auto simp: used_slice_def assms(2))
qed

lemma empty_slice:
  assumes "gov_used_ok s" and "gv_proposal s i = None"
  shows "used_slice s i = Map.empty"
proof
  fix v
  show "used_slice s i v = None"
    using assms by (cases "gv_vote_weight_used s (i, v)") (force simp: used_slice_def gov_used_ok_def)+
qed

lemma gov_used_nonneg: "gov_used_ok s \<Longrightarrow> 0 \<le> sint (gov_get_vote_weight_used s i v)"
  by (cases "gv_vote_weight_used s (i, v)")
     (auto simp: gov_get_vote_weight_used_def gov_used_ok_def order_less_imp_le)

lemma gov_ids_cong:
  assumes "gv_next_proposal_id s' = gv_next_proposal_id s" and "dom (gv_proposal s') = dom (gv_proposal s)"
  shows "gov_ids_ok s' = gov_ids_ok s"
proof -
  have "gv_proposal s' i \<noteq> None \<longleftrightarrow> gv_proposal s i \<noteq> None" for i
    using assms(2) by (auto simp: dom_def)
  then show ?thesis by (simp only: gov_ids_ok_def assms(1))
qed

lemma gov_used_cong:
  assumes "gv_vote_weight_used s' = gv_vote_weight_used s" and "dom (gv_proposal s') = dom (gv_proposal s)"
  shows "gov_used_ok s' = gov_used_ok s"
proof -
  have "gv_proposal s' i \<noteq> None \<longleftrightarrow> gv_proposal s i \<noteq> None" for i
    using assms(2) by (auto simp: dom_def)
  then show ?thesis by (simp only: gov_used_ok_def assms(1))
qed

lemma proposal_ok_vote:
  assumes p: "proposal_ok s i p" and add: "add_vote b n p = Ok p'" and n: "0 < sint n"
    and live: "\<not> gp_executed p" and pr: "gv_proposer s' i = gv_proposer s i"
    and sum_used: "map_total sint (used_slice s' i) = map_total sint (used_slice s i) + sint n"
  shows "proposal_ok s' i p'"
  using p add n live pr sum_used
  by (cases b) (auto simp: add_vote_Ok proposal_ok_def)

lemma gov_exec_proposals:
  assumes "gov_exec e oc c (s, w) = Ok (s', w')" and inv: "gov_inv s"
  shows "gov_used_ok s' \<and> gov_ids_ok s' \<and> gov_proposals_ok s'"
proof (cases "gov_proposal_call c")
  case False
  have cfg: "gov_config_ok s" using inv by (simp add: gov_inv_def)
  have same: "used_slice s' = used_slice s"
    using gov_frame [OF assms(1) cfg] False by (simp add: used_slice_def fun_eq_iff)
  show ?thesis
    using gov_frame [OF assms(1) cfg] False inv
    by (simp add: gov_inv_def gov_used_ok_def gov_ids_ok_def gov_proposals_ok_def proposal_ok_def same)
next
  case True
  have used: "gov_used_ok s" and ids: "gov_ids_ok s" and props: "gov_proposals_ok s"
    using inv by (simp_all add: gov_inv_def)
  obtain nx where nx: "gv_next_proposal_id s = Some nx" "1 \<le> unat nx"
      "\<And>i. gv_proposal s i \<noteq> None \<longleftrightarrow> 1 \<le> unat i \<and> unat i < unat nx"
    using ids by (auto simp: gov_ids_ok_def)
  from True show ?thesis
  proof (cases c)
    case (GvCreateCall a x n d)
    then obtain i where "gov_create_proposal e a x n d s = Ok (i, s')" using assms(1) by auto
    from gov_create_proposal_Ok [OF this] obtain l q m where
      v: "is_valid x = Some True" and i: "i = nx" and q: "quorum_snapshot s = Ok q"
      and m: "checked_add i 1 = Some m" and s': "s' = gov_publish (PropCreat i a l)
      (s\<lparr>gv_proposal := (gv_proposal s)(i \<mapsto>
            \<lparr>gp_id = i, gp_proposer = a, gp_proposed_weights = x, gp_votes_for = 0, gp_votes_against = 0,
             gp_expiry_ledger = l, gp_execution_delay_ledgers = d, gp_executed = False,
             gp_cancelled = False, gp_quorum_required = q\<rparr>),
         gv_proposer := (gv_proposer s)(i \<mapsto> a), gv_next_proposal_id := Some m\<rparr>)"
      using nx(1) by auto
    have um: "unat m = unat i + 1" using unat_checked_add [OF m] by simp
    have fresh: "gv_proposal s i = None" using nx(3) [of i] i by simp
    have slice: "used_slice s' = used_slice s" by (simp add: s' gov_publish_def used_slice_def fun_eq_iff)
    have "0 \<le> sint q"
      using quorum_snapshot_nonneg [OF _ _ q] inv by (simp add: gov_inv_def)
    moreover have "used_slice s i = Map.empty" by (rule empty_slice [OF used fresh])
    ultimately have "gov_proposals_ok s'"
      using props v slice
      by (auto simp: gov_proposals_ok_def proposal_ok_def s' gov_publish_def is_valid_iff)
    moreover have "gov_ids_ok s'"
    proof -
      have "gv_proposal s' j \<noteq> None \<longleftrightarrow> 1 \<le> unat j \<and> unat j < unat m" for j
      proof (cases "j = i")
        case True
        then show ?thesis using nx(2) um by (simp add: s' gov_publish_def i)
      next
        case False
        then have "unat j \<noteq> unat i" by (simp add: word_unat_eq_iff)
        then show ?thesis using nx(3) [of j] um False by (auto simp: s' gov_publish_def i)
      qed
      then show ?thesis using um by (auto simp: gov_ids_ok_def s' gov_publish_def)
    qed
    moreover have "gov_used_ok s'"
      using used by (auto simp: gov_used_ok_def s' gov_publish_def)
    ultimately show ?thesis by simp
  next
    case (GvVoteCall v i b n)
    then have "gov_vote e v i b n s = Ok s'" using assms(1) by simp
    from gov_vote_Ok [OF this] obtain p p' u where n: "0 < sint n" and p: "gv_proposal s i = Some p"
      and ex: "\<not> gp_executed p" and add: "add_vote b n p = Ok p'"
      and u: "sint u = sint (gov_get_vote_weight_used s i v) + sint n"
      and s': "s' = gov_publish (Voted i v b n)
           (s\<lparr>gv_vote_weight_used := (gv_vote_weight_used s)((i, v) \<mapsto> u),
              gv_proposal := (gv_proposal s)(i \<mapsto> p')\<rparr>)"
      by blast
    have "gv_vote_weight_used s' = (gv_vote_weight_used s)((i, v) \<mapsto> u)" by (simp add: s' gov_publish_def)
    note slice = used_sum_update [OF used this]
    have pp: "gv_proposer s' = gv_proposer s" by (simp add: s' gov_publish_def)
    have "proposal_ok s i p" using props p by (simp add: gov_proposals_ok_def)
    then have "proposal_ok s' i p'"
      by (rule proposal_ok_vote [OF _ add n ex]) (simp_all only: pp slice(1) u)
    moreover have "proposal_ok s' j x" if "j \<noteq> i" "gv_proposal s j = Some x" for j x
      using props that slice(2) [OF that(1)] pp by (simp add: gov_proposals_ok_def proposal_ok_def)
    ultimately have "gov_proposals_ok s'" by (auto simp: gov_proposals_ok_def s' gov_publish_def)
    moreover have "0 < sint u" using u n gov_used_nonneg [OF used, of i v] by simp
    then have "gov_used_ok s'"
    proof -
      have "gv_proposal s' j \<noteq> None \<longleftrightarrow> gv_proposal s j \<noteq> None" for j
        using p by (simp add: s' gov_publish_def)
      moreover have "gv_vote_weight_used s' = (gv_vote_weight_used s)((i, v) \<mapsto> u)"
        by (simp add: s' gov_publish_def)
      ultimately show ?thesis
        using used p \<open>0 < sint u\<close> by (simp add: gov_used_ok_def)
    qed
    moreover have "gov_ids_ok s'"
      using ids p by (subst gov_ids_cong [of s' s]) (auto simp: s' gov_publish_def)
    ultimately show ?thesis by simp
  next
    case (GvExecuteCall i)
    then have "gov_execute e (oc_propose oc) i (s, w) = Ok (s', w')" using assms(1) by simp
    from gov_execute_Ok [OF this] obtain p where p: "gv_proposal s i = Some p"
      and c: "\<not> gp_cancelled p" "sint (gp_votes_against p) < sint (gp_votes_for p)"
        "sint (gp_quorum_required p) \<le> sint (gp_votes_for p) + sint (gp_votes_against p)"
      and s': "s' = gov_publish (PropExec i (gp_votes_for p) (gp_votes_against p))
           (s\<lparr>gv_proposal := (gv_proposal s)(i \<mapsto> p\<lparr>gp_executed := True\<rparr>)\<rparr>)"
      by blast
    have slice: "used_slice s' = used_slice s" by (simp add: s' gov_publish_def used_slice_def fun_eq_iff)
    have "gov_proposals_ok s'"
      using props p c slice by (auto simp: gov_proposals_ok_def proposal_ok_def s' gov_publish_def)
    moreover have "gov_ids_ok s'"
      using ids p by (subst gov_ids_cong [of s' s]) (auto simp: s' gov_publish_def)
    moreover have "gov_used_ok s'"
      using used p by (subst gov_used_cong [of s' s]) (auto simp: s' gov_publish_def)
    ultimately show ?thesis by simp
  next
    case (GvCleanupCall a i vs)
    then obtain p where p: "gv_proposal s i = Some p" and
        s': "s' = s \<or> (gp_executed p \<and> (\<exists>ev. s' = gov_publish ev
              (s\<lparr>gv_vote_weight_used := remove_used i vs (gv_vote_weight_used s)\<rparr>)))"
      using assms(1) by (auto simp: gov_cleanup_proposal_votes_def split: if_splits)
    show ?thesis
    proof (cases "s' = s")
      case True
      then show ?thesis using used ids props by simp
    next
      case False
      then obtain ev where ex: "gp_executed p" and s'': "s' = gov_publish ev
              (s\<lparr>gv_vote_weight_used := remove_used i vs (gv_vote_weight_used s)\<rparr>)"
        using s' by blast
      have slice: "j \<noteq> i \<Longrightarrow> used_slice s' j = used_slice s j" for j
        by (auto simp: used_slice_def s'' gov_publish_def remove_used_eq)
      have "gov_proposals_ok s'"
        unfolding gov_proposals_ok_def
      proof (intro allI impI)
        fix j x
        assume "gv_proposal s' j = Some x"
        then have x: "gv_proposal s j = Some x" by (simp add: s'' gov_publish_def)
        then have "proposal_ok s j x" using props by (simp add: gov_proposals_ok_def)
        moreover have "gp_executed x \<or> used_slice s' j = used_slice s j"
          using slice x p ex by (cases "j = i") auto
        ultimately show "proposal_ok s' j x"
          by (subst proposal_ok_cong) (auto simp: s'' gov_publish_def)
      qed
      moreover have "gov_used_ok s'"
      proof -
        have "dom (remove_used i vs (gv_vote_weight_used s)) \<subseteq> dom (gv_vote_weight_used s)"
          by (auto simp: remove_used_eq split: if_splits)
        then show ?thesis using used
          by (auto simp: gov_used_ok_def s'' gov_publish_def remove_used_eq finite_subset split: if_splits)
      qed
      moreover have "gov_ids_ok s'" using ids by (simp add: gov_ids_ok_def s'' gov_publish_def)
      ultimately show ?thesis by simp
    qed
  next
    case (GvCancelCall a i)
    then obtain p where p: "gv_proposal s i = Some p" "\<not> gp_executed p" and
        s': "s' = gov_publish (PropCanc i a) (s\<lparr>gv_proposal := (gv_proposal s)(i \<mapsto> p\<lparr>gp_cancelled := True\<rparr>)\<rparr>)"
      using assms(1) by (auto simp: gov_cancel_proposal_def split: if_splits)
    have slice: "used_slice s' = used_slice s" by (simp add: s' gov_publish_def used_slice_def fun_eq_iff)
    have "gov_proposals_ok s'"
      using props p slice by (auto simp: gov_proposals_ok_def proposal_ok_def s' gov_publish_def)
    moreover have "gov_ids_ok s'"
      using ids p by (subst gov_ids_cong [of s' s]) (auto simp: s' gov_publish_def)
    moreover have "gov_used_ok s'"
      using used p by (subst gov_used_cong [of s' s]) (auto simp: s' gov_publish_def)
    ultimately show ?thesis by simp
  qed simp_all
qed

lemma gov_exec_inv:
  assumes "gov_exec e oc c (s, w) = Ok (s', w')" and "gov_inv s"
  shows "gov_inv s'"
  using assms(2) gov_exec_proposals [OF assms] gov_exec_config [OF assms(1)] gov_exec_voters [OF assms(1)]
  by (simp add: gov_inv_def)

lemma gov_initialized_inv:
  assumes "gov_initialize e adm oracle q gov_new = Ok s"
  shows "gov_inv s"
proof -
  have s: "0 < sint q" "s = gov_publish (GvInitialized adm oracle)
      (gov_new\<lparr>gv_admin := Some adm, gv_credit_oracle := Some oracle,
         gv_next_proposal_id := Some FIRST_PROPOSAL_ID, gv_quorum_required := Some q\<rparr>)"
    using assms by (auto simp: gov_initialize_def gov_new_def not_le split: if_splits)
  have "unat i = 0 \<or> 1 \<le> unat i" for i :: u64 by linarith
  then show ?thesis
    using s(1) by (auto simp: s(2) gov_inv_def gov_voters_ok_def gov_used_ok_def gov_ids_ok_def
        gov_config_ok_def gov_proposals_ok_def gov_publish_def gov_new_def FIRST_PROPOSAL_ID_def
        gov_get_total_registered_weight_def gov_get_quorum_def)
qed

lemma gov_reachable_inv: "gov_reachable sw \<Longrightarrow> gov_inv (fst sw)"
proof (induction rule: gov_reachable.induct)
  case (gov_start e adm orc q s w)
  then show ?case using gov_initialized_inv by simp
next
  case (gov_step sw e oc c sw')
  then show ?case
    using gov_exec_inv [of e oc c "fst sw" "snd sw" "fst sw'" "snd sw'"] by simp
qed

interpretation gov_init: one_shot_init gv_admin "\<lambda>e (a, i, q). gov_initialize e a i q"
  by unfold_locales (auto simp: gov_initialize_def gov_publish_def split: if_splits)

section \<open>Properties\<close>

text \<open>A concrete run, shared by the witnesses: a voter, a proposal, its vote and its execution.\<close>

definition gov_demo_env :: "u32 \<Rightarrow> env" where
  "gov_demo_env n = \<lparr>ledger_sequence = n, ledger_timestamp = 5000,
     signers = {''admin'', ''alice''}, invoker = None, current_contract = ''governance'', call_stack = []\<rparr>"

definition gov_demo_calls :: "unit oracle_calls" where
  "gov_demo_calls = \<lparr>oc_propose = (\<lambda>e a x w. Ok w), oc_apply = (\<lambda>e a w. Ok w), oc_accept = (\<lambda>e a b w. Ok w)\<rparr>"

definition gov_demo_weights :: scoring_weights where
  "gov_demo_weights = \<lparr>vc_weight = 50, tx_weight = 25, repayment_weight = 25\<rparr>"

definition gov_demo_proposal :: governance_proposal where
  "gov_demo_proposal = \<lparr>gp_id = 1, gp_proposer = ''alice'', gp_proposed_weights = gov_demo_weights,
     gp_votes_for = 7, gp_votes_against = 0, gp_expiry_ledger = 1100, gp_execution_delay_ledgers = 50,
     gp_executed = False, gp_cancelled = False, gp_quorum_required = 5\<rparr>"

definition gov_demo_state :: gov_state where
  "gov_demo_state = gov_new\<lparr>gv_admin := Some ''admin'', gv_credit_oracle := Some ''credit'',
     gv_next_proposal_id := Some 2, gv_quorum_required := Some 5,
     gv_voter_weight := [''alice'' \<mapsto> 10], gv_total_registered_weight := Some 10,
     gv_proposal := [1 \<mapsto> gov_demo_proposal], gv_proposer := [1 \<mapsto> ''alice''],
     gv_vote_weight_used := [(1, ''alice'') \<mapsto> 7],
     gv_events := [GvInitialized ''admin'' ''credit'', VoterReg ''alice'' 10,
       PropCreat 1 ''alice'' 1100, Voted 1 ''alice'' True 7]\<rparr>"

lemmas gov_demo_defs = gov_demo_env_def gov_demo_calls_def gov_demo_weights_def gov_demo_proposal_def
  gov_demo_state_def gov_new_def

lemma gov_demo_reachable: "gov_reachable (gov_demo_state, ())"
proof -
  let ?s1 = "gov_new\<lparr>gv_admin := Some ''admin'', gv_credit_oracle := Some ''credit'',
     gv_next_proposal_id := Some 1, gv_quorum_required := Some 5,
     gv_events := [GvInitialized ''admin'' ''credit'']\<rparr>"
  let ?s2 = "?s1\<lparr>gv_voter_weight := [''alice'' \<mapsto> 10], gv_total_registered_weight := Some 10,
     gv_events := [GvInitialized ''admin'' ''credit'', VoterReg ''alice'' 10]\<rparr>"
  let ?s3 = "?s2\<lparr>gv_next_proposal_id := Some 2, gv_proposal := [1 \<mapsto> gov_demo_proposal\<lparr>gp_votes_for := 0\<rparr>],
     gv_proposer := [1 \<mapsto> ''alice''],
     gv_events := [GvInitialized ''admin'' ''credit'', VoterReg ''alice'' 10, PropCreat 1 ''alice'' 1100]\<rparr>"
  have "gov_initialize (gov_demo_env 1000) ''admin'' ''credit'' 5 gov_new = Ok ?s1"
    by (simp add: gov_initialize_def gov_publish_def gov_demo_defs authorized_def FIRST_PROPOSAL_ID_def)
  then have r1: "gov_reachable (?s1, ())" by (rule gov_start)
  have "gov_exec (gov_demo_env 1000) gov_demo_calls (GvRegisterVoterCall ''admin'' ''alice'' 10) (?s1, ())
      = Ok (?s2, ())"
    by (simp add: gov_register_voter_def gov_publish_def gov_demo_defs authorized_def adjusted_total_def
        voter_weight_or_zero_def gov_get_total_registered_weight_def i128_checked_sub_def
        i128_checked_add_def i128_fits_def)
  with r1 have r2: "gov_reachable (?s2, ())" by (rule gov_step)
  have "is_valid gov_demo_weights = Some True"
    by (simp add: is_valid_iff weights_ok_def gov_demo_weights_def)
  then have "gov_exec (gov_demo_env 1000) gov_demo_calls (GvCreateCall ''alice'' gov_demo_weights 100 50) (?s2, ())
      = Ok (?s3, ())"
    by (simp add: gov_create_proposal_def gov_publish_def gov_demo_env_def gov_demo_proposal_def gov_new_def
        authorized_def quorum_snapshot_def checked_add_def Let_def)
  with r2 have r3: "gov_reachable (?s3, ())" by (rule gov_step)
  have "gov_exec (gov_demo_env 1050) gov_demo_calls (GvVoteCall ''alice'' 1 True 7) (?s3, ())
      = Ok (gov_demo_state, ())"
    by (simp add: gov_vote_def gov_publish_def gov_demo_defs authorized_def gov_get_vote_weight_used_def
        i128_checked_sub_def i128_checked_add_def i128_fits_def add_vote_def Let_def)
  with r3 show ?thesis by (rule gov_step)
qed

text \<open>C4: In every reachable state of a governance contract initialised on deployment the registered
  total is the sum of the voters' weights, all positive; the proposals are exactly the ids from 1
  up to the next one, each with the valid weights and the proposer it was created with; no
  proposal is both executed and cancelled, an executed one had more votes for than against and
  met its snapshotted quorum, and the votes of one that is not executed are exactly the weights its voters
  have used on it.\<close>

theorem gov_state_invariant:
  assumes "gov_reachable (s, w)"
  shows "sint (gov_get_total_registered_weight s) = map_total sint (gv_voter_weight s)
    \<and> (\<forall>v x. gov_get_voter_weight s v = Some x \<longrightarrow> 0 < sint x)
    \<and> (\<exists>n. gv_next_proposal_id s = Some n \<and>
          (\<forall>i. gov_get_proposal s i \<noteq> None \<longleftrightarrow> 1 \<le> unat i \<and> unat i < unat n))
    \<and> (\<forall>i p. gov_get_proposal s i = Some p \<longrightarrow>
          gp_id p = i \<and> gv_proposer s i = Some (gp_proposer p) \<and> is_valid (gp_proposed_weights p) = Some True \<and>
          \<not> (gp_executed p \<and> gp_cancelled p) \<and>
          (gp_executed p \<longrightarrow> sint (gp_votes_against p) < sint (gp_votes_for p) \<and>
             sint (gp_quorum_required p) \<le> sint (gp_votes_for p) + sint (gp_votes_against p)) \<and>
          (\<not> gp_executed p \<longrightarrow>
             sint (gp_votes_for p) + sint (gp_votes_against p) = map_total sint (used_slice s i)))"
proof -
  have inv: "gov_inv s" using gov_reachable_inv [OF assms] by simp
  have "\<exists>n. gv_next_proposal_id s = Some n \<and>
          (\<forall>i. gov_get_proposal s i \<noteq> None \<longleftrightarrow> 1 \<le> unat i \<and> unat i < unat n)"
    using inv by (auto simp: gov_inv_def gov_ids_ok_def gov_get_proposal_def)
  then show ?thesis
    using inv by (simp add: gov_inv_def gov_voters_ok_def gov_get_voter_weight_def gov_proposals_ok_def
        gov_get_proposal_def proposal_ok_def is_valid_iff)
qed

theorem gov_state_invariant_witness:
  "\<exists>n. gv_next_proposal_id gov_demo_state = Some n \<and>
     (\<forall>i. gov_get_proposal gov_demo_state i \<noteq> None \<longleftrightarrow> 1 \<le> unat i \<and> unat i < unat n)"
  using gov_state_invariant [OF gov_demo_reachable] by blast

text \<open>C5: \<open>execute\<close>, exactly: it succeeds when the voting period and the (saturated) execution delay are
  over, the proposal is neither executed nor cancelled, has a strict majority, meets its
  quorum with a total that fits in 128 bits, and the credit-oracle accepts \<open>propose_weights\<close> with
  the proposal's weights; then the proposal is executed once and for all. A proposal without
  a majority is refused with \<open>ProposalRejected\<close> and stays open, it is not marked executed.\<close>

theorem gov_execute_exact:
  assumes "gv_credit_oracle s = Some orc" and "gv_proposal s i = Some p"
  shows "(gov_execute e propose i (s, w) = Ok (s', w') \<longleftrightarrow>
      min (unat (gp_expiry_ledger p) + unat (gp_execution_delay_ledgers p)) (2 ^ 32 - 1) < unat (ledger_sequence e) \<and>
      \<not> gp_executed p \<and> \<not> gp_cancelled p \<and> sint (gp_votes_against p) < sint (gp_votes_for p) \<and>
      i128_fits (sint (gp_votes_for p) + sint (gp_votes_against p)) \<and>
      sint (gp_quorum_required p) \<le> sint (gp_votes_for p) + sint (gp_votes_against p) \<and>
      propose (call_env e orc) orc (gp_proposed_weights p) w = Ok w' \<and>
      s' = gov_publish (PropExec i (gp_votes_for p) (gp_votes_against p))
             (s\<lparr>gv_proposal := (gv_proposal s)(i \<mapsto> p\<lparr>gp_executed := True\<rparr>)\<rparr>))
    \<and> (gov_execute e propose i (s, w) = Ok (s', w') \<and> ledger_sequence e \<le> ledger_sequence e' \<longrightarrow>
        gov_execute e' propose' i (s', w'') = Err ProposalAlreadyExecuted)
    \<and> (min (unat (gp_expiry_ledger p) + unat (gp_execution_delay_ledgers p)) (2 ^ 32 - 1) < unat (ledger_sequence e) \<and>
       \<not> gp_executed p \<and> \<not> gp_cancelled p \<and> sint (gp_votes_for p) \<le> sint (gp_votes_against p) \<longrightarrow>
        gov_execute e propose i (s, w) = Err ProposalRejected)"
proof -
  have late: "ledger_sequence x \<le> saturating_add (gp_expiry_ledger p) (gp_execution_delay_ledgers p) \<longleftrightarrow>
      \<not> min (unat (gp_expiry_ledger p) + unat (gp_execution_delay_ledgers p)) (2 ^ 32 - 1) < unat (ledger_sequence x)"
    for x :: env
    by (simp add: word_le_nat_alt unat_saturating_add not_less)
  have over: "\<not> ledger_sequence x \<le> gp_expiry_ledger p"
    if "min (unat (gp_expiry_ledger p) + unat (gp_execution_delay_ledgers p)) (2 ^ 32 - 1) < unat (ledger_sequence x)"
    for x :: env
    using that unat_u32_less [of "gp_expiry_ledger p"] by (auto simp: word_le_nat_alt min_def split: if_splits)
  have ex: "gov_execute e propose i (s, w) = Ok (s', w') \<longleftrightarrow>
      min (unat (gp_expiry_ledger p) + unat (gp_execution_delay_ledgers p)) (2 ^ 32 - 1) < unat (ledger_sequence e) \<and>
      \<not> gp_executed p \<and> \<not> gp_cancelled p \<and> sint (gp_votes_against p) < sint (gp_votes_for p) \<and>
      i128_fits (sint (gp_votes_for p) + sint (gp_votes_against p)) \<and>
      sint (gp_quorum_required p) \<le> sint (gp_votes_for p) + sint (gp_votes_against p) \<and>
      propose (call_env e orc) orc (gp_proposed_weights p) w = Ok w' \<and>
      s' = gov_publish (PropExec i (gp_votes_for p) (gp_votes_against p))
             (s\<lparr>gv_proposal := (gv_proposal s)(i \<mapsto> p\<lparr>gp_executed := True\<rparr>)\<rparr>)"
    (is "?L \<longleftrightarrow> ?R")
  proof
    assume ?L
    then show ?R using assms
      by (auto simp: gov_execute_def late i128_checked_add_Some not_le not_less split: if_splits)
  next
    assume r: ?R
    then obtain z where "i128_checked_add (gp_votes_for p) (gp_votes_against p) = Some z"
        "sint z = sint (gp_votes_for p) + sint (gp_votes_against p)"
      using i128_checked_add_fits by blast
    then show ?L
      using r assms over [of e] by (simp add: gov_execute_def late client_invoke_def)
  qed
  have again: "gov_execute e' propose' i (s', w'') = Err ProposalAlreadyExecuted"
    if "gov_execute e propose i (s, w) = Ok (s', w')" "ledger_sequence e \<le> ledger_sequence e'"
  proof -
    have l: "min (unat (gp_expiry_ledger p) + unat (gp_execution_delay_ledgers p)) (2 ^ 32 - 1) < unat (ledger_sequence e')"
      using that ex by (auto simp: word_le_nat_alt)
    have "gv_proposal s' i = Some (p\<lparr>gp_executed := True\<rparr>)"
      using that ex by (auto simp: gov_publish_def)
    then show ?thesis using over [OF l] l late [of e'] by (simp add: gov_execute_def)
  qed
  have "gov_execute e propose i (s, w) = Err ProposalRejected"
    if "min (unat (gp_expiry_ledger p) + unat (gp_execution_delay_ledgers p)) (2 ^ 32 - 1) < unat (ledger_sequence e)"
      "\<not> gp_executed p" "\<not> gp_cancelled p" "sint (gp_votes_for p) \<le> sint (gp_votes_against p)"
    using that over [OF that(1)] assms by (simp add: gov_execute_def late)
  then show ?thesis using ex again by blast
qed

theorem gov_execute_exact_witness:
  "\<exists>s'. gov_execute (gov_demo_env 1151) (oc_propose gov_demo_calls) 1 (gov_demo_state, ()) = Ok (s', ())"
proof -
  have "gv_credit_oracle gov_demo_state = Some ''credit''" "gv_proposal gov_demo_state 1 = Some gov_demo_proposal"
    by (simp_all add: gov_demo_defs)
  note ex = gov_execute_exact [OF this, THEN conjunct1]
  show ?thesis unfolding ex by (simp add: gov_demo_defs i128_fits_def)
qed

text \<open>C17: A successful vote, in full: it happens before the expiry of an open proposal with the voter's
  authorisation, adds exactly its weight to one of the two tallies and to the weight the voter has
  used, which never exceeds the voter's registered weight at that time, and leaves every other
  proposal and every other voter's used weight as they are. The same voter asking for more
  than what is left is refused. Tallies do not saturate: a vote that would take a tally past the
  largest 128-bit number is refused with \<open>VoteTallyOverflow\<close>, where \<open>docs/governance.md\<close> says that it is
  silently not added.\<close>

theorem gov_vote_exact:
  assumes "gov_reachable (s, w)" and "gov_vote e v i b n s = Ok s'"
  shows "authorized e v \<and> 0 < sint n
    \<and> (\<exists>wt p p'. gov_get_voter_weight s v = Some wt \<and> gov_get_proposal s i = Some p \<and>
        gov_get_proposal s' i = Some p' \<and>
        unat (ledger_sequence e) \<le> unat (gp_expiry_ledger p) \<and> \<not> gp_executed p \<and> \<not> gp_cancelled p \<and>
        sint (gp_votes_for p') = sint (gp_votes_for p) + (if b then sint n else 0) \<and>
        sint (gp_votes_against p') = sint (gp_votes_against p) + (if b then 0 else sint n) \<and>
        sint (gov_get_vote_weight_used s' i v) = sint (gov_get_vote_weight_used s i v) + sint n \<and>
        sint (gov_get_vote_weight_used s' i v) \<le> sint wt \<and>
        (\<forall>m. sint wt - sint (gov_get_vote_weight_used s' i v) < sint m \<longrightarrow>
             gov_vote e v i b m s' = Err InsufficientVoteWeight) \<and>
        (\<forall>b' m. 0 < sint m \<and> sint m \<le> sint wt - sint (gov_get_vote_weight_used s' i v) \<and>
             \<not> i128_fits (sint (if b' then gp_votes_for p' else gp_votes_against p') + sint m) \<longrightarrow>
             gov_vote e v i b' m s' = Err VoteTallyOverflow))
    \<and> (\<forall>j. j \<noteq> i \<longrightarrow> gov_get_proposal s' j = gov_get_proposal s j)
    \<and> (\<forall>j u. (j, u) \<noteq> (i, v) \<longrightarrow> gov_get_vote_weight_used s' j u = gov_get_vote_weight_used s j u)"
proof -
  obtain wt p p' u where a: "authorized e v" "0 < sint n" "gv_voter_weight s v = Some wt"
    "gv_proposal s i = Some p" "sint n \<le> sint wt - sint (gov_get_vote_weight_used s i v)"
    "\<not> gp_expiry_ledger p < ledger_sequence e" "\<not> gp_executed p" "\<not> gp_cancelled p"
    "add_vote b n p = Ok p'" "sint u = sint (gov_get_vote_weight_used s i v) + sint n" and
    s': "s' = gov_publish (Voted i v b n)
           (s\<lparr>gv_vote_weight_used := (gv_vote_weight_used s)((i, v) \<mapsto> u),
              gv_proposal := (gv_proposal s)(i \<mapsto> p')\<rparr>)"
    using gov_vote_Ok [OF assms(2)] by blast
  have inv: "gov_inv s" using gov_reachable_inv [OF assms(1)] by simp
  have used: "gov_get_vote_weight_used s' i v = u"
    by (simp add: s' gov_publish_def gov_get_vote_weight_used_def)
  have pos: "0 \<le> sint u"
    using a(2,10) gov_used_nonneg [of s i v] inv by (simp add: gov_inv_def)
  have more: "gov_vote e v i b m s' = Err InsufficientVoteWeight" if m: "sint wt - sint u < sint m" for m
  proof -
    have le: "sint u \<le> sint wt" using a(5,10) by simp
    have fit: "i128_fits (sint wt - sint u)"
      using pos le sint_less [of wt] by (simp add: i128_fits_def)
    then obtain d where d: "i128_checked_sub wt u = Some d" "sint d = sint wt - sint u"
      by (rule i128_checked_sub_fits)
    have wt: "gv_voter_weight s' v = Some wt" using a(3) by (simp add: s' gov_publish_def)
    have "0 < sint m" using m le by simp
    then show ?thesis
      using a(1) m d wt used by (simp add: gov_vote_def Let_def)
  qed
  have full: "gov_vote e v i b' m s' = Err VoteTallyOverflow"
    if m: "0 < sint m" "sint m \<le> sint wt - sint u"
      "\<not> i128_fits (sint (if b' then gp_votes_for p' else gp_votes_against p') + sint m)" for b' m
  proof -
    have fit: "i128_fits (sint wt - sint u)"
      using pos m(1,2) sint_less [of wt] by (simp add: i128_fits_def)
    then obtain d where d: "i128_checked_sub wt u = Some d" "sint d = sint wt - sint u"
      by (rule i128_checked_sub_fits)
    have same: "gp_expiry_ledger p' = gp_expiry_ledger p" "gp_executed p' = gp_executed p"
        "gp_cancelled p' = gp_cancelled p"
      using a(9) by (cases b; auto simp: add_vote_Ok)+
    have "add_vote b' m p' = Err VoteTallyOverflow"
      using m(3) by (cases b') (simp_all add: add_vote_def i128_checked_add_def)
    moreover have "gv_voter_weight s' v = Some wt" "gv_proposal s' i = Some p'"
      using a(3) by (simp_all add: s' gov_publish_def)
    ultimately show ?thesis
      using a(1,6-8) m(1,2) d used same by (simp add: gov_vote_def Let_def)
  qed
  have tally: "sint (gp_votes_for p') = sint (gp_votes_for p) + (if b then sint n else 0) \<and>
        sint (gp_votes_against p') = sint (gp_votes_against p) + (if b then 0 else sint n)"
    using a(9) by (cases b) (auto simp: add_vote_Ok)
  have prop': "gov_get_proposal s' i = Some p'" "\<forall>j. j \<noteq> i \<longrightarrow> gov_get_proposal s' j = gov_get_proposal s j"
    by (simp_all add: s' gov_publish_def gov_get_proposal_def)
  have others: "\<forall>j x. (j, x) \<noteq> (i, v) \<longrightarrow> gov_get_vote_weight_used s' j x = gov_get_vote_weight_used s j x"
    by (simp add: s' gov_publish_def gov_get_vote_weight_used_def)
  have "unat (ledger_sequence e) \<le> unat (gp_expiry_ledger p)"
    using a(6) by (simp add: word_less_nat_alt not_less)
  moreover have "sint u \<le> sint wt" using a(5,10) by simp
  ultimately show ?thesis
    using a more full tally prop' others used
    by (simp add: gov_get_voter_weight_def gov_get_proposal_def)
qed

theorem gov_vote_exact_witness:
  "\<exists>s'. gov_vote (gov_demo_env 1060) ''alice'' 1 False 3 gov_demo_state = Ok s' \<and>
     gov_vote (gov_demo_env 1060) ''alice'' 1 False 1 s' = Err InsufficientVoteWeight"
proof -
  obtain s' where s': "gov_vote (gov_demo_env 1060) ''alice'' 1 False 3 gov_demo_state = Ok s'"
    by (auto simp: gov_vote_def gov_demo_defs authorized_def gov_get_vote_weight_used_def
        i128_checked_sub_def i128_checked_add_def i128_fits_def add_vote_def Let_def)
  have "gov_get_voter_weight gov_demo_state ''alice'' = Some 10"
    "sint (gov_get_vote_weight_used gov_demo_state 1 ''alice'') = 7"
    by (simp_all add: gov_demo_defs gov_get_voter_weight_def gov_get_vote_weight_used_def)
  then show ?thesis using gov_vote_exact [OF gov_demo_reachable s'] s' by auto
qed

text \<open>What no call may change of a proposal, and which way the rest moves.\<close>

definition proposal_evolves :: "governance_proposal \<Rightarrow> governance_proposal \<Rightarrow> bool" where
  "proposal_evolves p p' \<longleftrightarrow>
     gp_id p' = gp_id p \<and> gp_proposer p' = gp_proposer p \<and> gp_proposed_weights p' = gp_proposed_weights p \<and>
     gp_expiry_ledger p' = gp_expiry_ledger p \<and> gp_execution_delay_ledgers p' = gp_execution_delay_ledgers p \<and>
     gp_quorum_required p' = gp_quorum_required p \<and>
     sint (gp_votes_for p) \<le> sint (gp_votes_for p') \<and> sint (gp_votes_against p) \<le> sint (gp_votes_against p') \<and>
     (gp_executed p \<longrightarrow> p' = p) \<and> (gp_cancelled p \<longrightarrow> p' = p)"

lemma proposal_evolves_refl [simp]: "proposal_evolves p p"
  by (simp add: proposal_evolves_def)

lemma gov_create_keeps:
  assumes "gov_ids_ok s" and "gov_create_proposal e a x n d s = Ok (j, s')" and "gv_proposal s i = Some p"
  shows "gv_proposal s' i = Some p"
proof -
  obtain m where m: "gv_next_proposal_id s = Some m"
    "\<And>i. gv_proposal s i \<noteq> None \<longleftrightarrow> 1 \<le> unat i \<and> unat i < unat m"
    using assms(1) by (auto simp: gov_ids_ok_def)
  obtain r where "gv_proposal s' = (gv_proposal s)(m \<mapsto> r)"
    using gov_create_proposal_Ok [OF assms(2)] m(1) by (auto simp: gov_publish_def)
  moreover have "i \<noteq> m" using m(2) [of i] assms(3) by auto
  ultimately show ?thesis using assms(3) by simp
qed

text \<open>Apart from the calls on proposals, no call touches one, initialised or not.\<close>

lemma gov_frame_proposals:
  "gov_exec e oc c (s, w) = Ok (s', w') \<Longrightarrow> \<not> gov_proposal_call c \<Longrightarrow> gv_proposal s' = gv_proposal s"
  by (cases c) (auto simp: gov_call_defs split: if_splits)

lemma gov_exec_evolves:
  assumes "gov_exec e oc c (s, w) = Ok (s', w')" and p: "gv_proposal s i = Some p"
    and nc: "\<And>a x n d. c \<noteq> GvCreateCall a x n d"
  shows "\<exists>p'. gv_proposal s' i = Some p' \<and> proposal_evolves p p'"
proof (cases "gov_proposal_call c")
  case False
  then show ?thesis using gov_frame_proposals [OF assms(1)] p by simp
next
  case True
  then show ?thesis
  proof (cases c)
    case (GvVoteCall v j b n)
    then have "gov_vote e v j b n s = Ok s'" using assms(1) by simp
    from gov_vote_Ok [OF this] obtain q q' where q: "0 < sint n" "gv_proposal s j = Some q"
      "\<not> gp_executed q" "\<not> gp_cancelled q" "add_vote b n q = Ok q'"
      "gv_proposal s' = (gv_proposal s)(j \<mapsto> q')"
      by (auto simp: gov_publish_def)
    then have "proposal_evolves q q'"
      by (cases b) (auto simp: add_vote_Ok proposal_evolves_def)
    then show ?thesis using p q by (cases "i = j") auto
  next
    case (GvExecuteCall j)
    then have "gov_execute e (oc_propose oc) j (s, w) = Ok (s', w')" using assms(1) by simp
    from gov_execute_Ok [OF this] obtain q where q: "gv_proposal s j = Some q"
      "\<not> gp_executed q" "\<not> gp_cancelled q"
      "gv_proposal s' = (gv_proposal s)(j \<mapsto> q\<lparr>gp_executed := True\<rparr>)"
      by (auto simp: gov_publish_def)
    then show ?thesis using p by (cases "i = j") (auto simp: proposal_evolves_def)
  next
    case (GvCleanupCall a j vs)
    then have "gv_proposal s' = gv_proposal s"
      using assms(1) by (auto simp: gov_cleanup_proposal_votes_def gov_publish_def split: if_splits)
    then show ?thesis using p by simp
  next
    case (GvCancelCall a j)
    then obtain q where q: "gv_proposal s j = Some q" "\<not> gp_executed q" "\<not> gp_cancelled q"
      "gv_proposal s' = (gv_proposal s)(j \<mapsto> q\<lparr>gp_cancelled := True\<rparr>)"
      using assms(1) by (auto simp: gov_cancel_proposal_def gov_publish_def split: if_splits)
    then show ?thesis using p by (cases "i = j") (auto simp: proposal_evolves_def)
  qed (use nc in simp_all)
qed

text \<open>C20: A proposal is immutable where it matters. In a contract that was initialised before its first
  proposal, no call removes a proposal or changes its id, proposer, weights, expiry, delay or
  snapshotted quorum (whatever \<open>set_quorum\<close> or the voter register do later), votes only accumulate, and a
  proposal that was executed or cancelled never changes again. In any other state the same holds of
  every call but one: \<open>create_proposal\<close> while the id counter points at an existing proposal replaces it
  by a fresh one, which happens after proposals that were made before \<open>initialize\<close> reset the
  counter (\<open>gov_preinit_proposal\<close>).\<close>

theorem gov_proposal_immutable:
  assumes "gov_exec e oc c (s, w) = Ok (s', w')" and "gov_get_proposal s i = Some p"
  shows "\<exists>p'. gov_get_proposal s' i = Some p'
    \<and> (gov_reachable (s, w) \<longrightarrow> proposal_evolves p p')
    \<and> (if (\<exists>a x n d. c = GvCreateCall a x n d) \<and> unwrap_or (gv_next_proposal_id s) FIRST_PROPOSAL_ID = i
       then gp_id p' = i \<and> gp_votes_for p' = 0 \<and> gp_votes_against p' = 0 \<and> \<not> gp_executed p' \<and> \<not> gp_cancelled p'
       else proposal_evolves p p')"
proof (cases "\<exists>a x n d. c = GvCreateCall a x n d")
  case False
  obtain p' where "gv_proposal s' i = Some p'" "proposal_evolves p p'"
    using gov_exec_evolves [OF assms(1)] False assms(2) unfolding gov_get_proposal_def by metis
  then show ?thesis using False by (simp add: gov_get_proposal_def)
next
  case True
  then obtain a x n d j where c: "gov_create_proposal e a x n d s = Ok (j, s')" using assms(1) by auto
  have p: "gv_proposal s i = Some p" using assms(2) by (simp add: gov_get_proposal_def)
  have keeps: "gov_reachable (s, w) \<Longrightarrow> gv_proposal s' i = Some p"
    using gov_create_keeps [OF _ c p] gov_reachable_inv [of "(s, w)"] by (simp add: gov_inv_def)
  obtain q where q: "gv_proposal s' = (gv_proposal s)(j \<mapsto> q)" "gp_id q = j" "gp_votes_for q = 0"
      "gp_votes_against q = 0" "\<not> gp_executed q" "\<not> gp_cancelled q"
      "j = unwrap_or (gv_next_proposal_id s) FIRST_PROPOSAL_ID"
    using gov_create_proposal_Ok [OF c] by (auto simp: gov_publish_def)
  then show ?thesis using True keeps p by (cases "i = j") (auto simp: gov_get_proposal_def)
qed

theorem gov_proposal_immutable_witness:
  "\<exists>s' p'. gov_exec (gov_demo_env 1060) gov_demo_calls (GvSetQuorumPercentCall ''admin'' 90)
       (gov_demo_state, ()) = Ok (s', ()) \<and>
     gov_get_proposal s' 1 = Some p' \<and> proposal_evolves gov_demo_proposal p'"
proof -
  obtain s' where s': "gov_exec (gov_demo_env 1060) gov_demo_calls (GvSetQuorumPercentCall ''admin'' 90)
       (gov_demo_state, ()) = Ok (s', ())"
    by (auto simp: gov_local_def gov_set_quorum_percent_def gov_require_admin_def gov_demo_defs authorized_def)
  have "gov_get_proposal gov_demo_state 1 = Some gov_demo_proposal"
    by (simp add: gov_get_proposal_def gov_demo_state_def)
  then show ?thesis using gov_proposal_immutable [OF s'] gov_demo_reachable s' by blast
qed

lemma collect_proposals_all:
  "(\<And>i. i \<in> set is \<Longrightarrow> gv_proposal s (of_nat i) \<noteq> None) \<Longrightarrow>
     collect_proposals s b is =
       filter (\<lambda>p. b \<or> (\<not> gp_executed p \<and> \<not> gp_cancelled p)) (map (\<lambda>i. the (gv_proposal s (of_nat i))) is)"
proof (induction "is")
  case (Cons i js)
  then obtain p where "gv_proposal s (of_nat i) = Some p" by fastforce
  then show ?case using Cons by auto
qed simp

text \<open>\<open>list_proposals\<close> from an existing first id returns, in order, exactly the proposals with ids
  from \<open>from_id\<close> up to \<open>min(limit, 20)\<close> further ones, cut at the next unused id, keeping only the open ones
  unless inactive ones are asked for; from beyond the last id, or with limit 0, it is empty.\<close>

theorem gov_list_proposals_exact:
  assumes "gov_reachable (s, w)" and "gv_next_proposal_id s = Some n" and "1 \<le> unat from_id"
  shows "gov_list_proposals s from_id lim b =
    filter (\<lambda>p. b \<or> (\<not> gp_executed p \<and> \<not> gp_cancelled p))
      (map (\<lambda>i. the (gov_get_proposal s (of_nat i)))
         [unat from_id..<min (unat from_id + min (unat lim) 20) (unat n)])"
proof -
  have inv: "gov_inv s" using gov_reachable_inv [OF assms(1)] by simp
  have ex: "gv_proposal s i \<noteq> None" if "1 \<le> unat i" "unat i < unat n" for i
    using inv assms(2) that by (auto simp: gov_inv_def gov_ids_ok_def)
  have cap: "unat (ucast (min lim 20) :: u64) = min (unat lim) 20"
    by (simp add: unat_widen unat_min_word)
  have z: "min lim 20 = 0 \<longleftrightarrow> unat lim = 0"
  proof -
    have "min lim 20 = 0 \<longleftrightarrow> min (unat lim) 20 = 0" by (simp only: word_unat_eq_iff unat_min_word) simp
    then show ?thesis by linarith
  qed
  have end_id: "unat (min (saturating_add from_id (ucast (min lim 20))) n)
      = min (unat from_id + min (unat lim) 20) (unat n)"
    using unat_u64_less [of n] by (simp add: unat_min_word unat_saturating_add cap)
  have "collect_proposals s b [unat from_id..<min (unat from_id + min (unat lim) 20) (unat n)] =
     filter (\<lambda>p. b \<or> (\<not> gp_executed p \<and> \<not> gp_cancelled p))
       (map (\<lambda>i. the (gv_proposal s (of_nat i)))
          [unat from_id..<min (unat from_id + min (unat lim) 20) (unat n)])"
  proof (rule collect_proposals_all)
    fix i
    assume i: "i \<in> set [unat from_id..<min (unat from_id + min (unat lim) 20) (unat n)]"
    then have "i < 2 ^ 64" using unat_u64_less [of n] by simp
    then have "unat (of_nat i :: u64) = i" by (simp add: unsigned_of_nat take_bit_nat_eq_self)
    then show "gv_proposal s (of_nat i) \<noteq> None" using ex [of "of_nat i"] i assms(3) by simp
  qed
  then show ?thesis
    using z end_id assms(2)
    by (auto simp: gov_list_proposals_def Let_def gov_get_proposal_def word_le_nat_alt)
qed

theorem gov_list_proposals_exact_witness:
  "gov_list_proposals gov_demo_state 1 50 False = [gov_demo_proposal]"
proof -
  have "gv_next_proposal_id gov_demo_state = Some 2" by (simp add: gov_demo_state_def)
  from gov_list_proposals_exact [OF gov_demo_reachable this, of 1 50 False] show ?thesis
    by (simp add: gov_get_proposal_def gov_demo_defs upt_rec)
qed

text \<open>A contract that is deployed but not yet initialised accepts proposals from anyone: such a
  proposal is created with quorum zero, survives \<open>initialize\<close> (which resets the id counter to 1),
  can be voted on by the voters registered later with no quorum to meet, and is overwritten by
  the next proposal created, whose tally starts from zero while the weights used on the old one
  still count against its voters.\<close>

theorem gov_preinit_proposal:
  assumes "gov_create_proposal e a x n d gov_new = Ok (i, s1)"
    and "gov_initialize e' adm orc q s1 = Ok s2"
  shows "i = 1 \<and> (\<exists>p. gov_get_proposal s2 1 = Some p \<and> gp_proposed_weights p = x \<and>
            gp_quorum_required p = 0 \<and> \<not> gp_executed p \<and> \<not> gp_cancelled p)
    \<and> gv_next_proposal_id s2 = Some 1
    \<and> (\<forall>s3 e'' b y m k j s4. gv_next_proposal_id s3 = Some 1 \<and>
          gov_create_proposal e'' b y m k s3 = Ok (j, s4) \<longrightarrow>
          j = 1 \<and> (\<exists>p. gov_get_proposal s4 1 = Some p \<and> gp_proposer p = b \<and> gp_votes_for p = 0 \<and>
             gp_votes_against p = 0) \<and>
          (\<forall>v. gov_get_vote_weight_used s4 1 v = gov_get_vote_weight_used s3 1 v))"
proof -
  obtain l r where s1: "i = 1" "quorum_snapshot gov_new = Ok r"
      "gov_get_proposal s1 1 = Some \<lparr>gp_id = 1, gp_proposer = a, gp_proposed_weights = x, gp_votes_for = 0,
        gp_votes_against = 0, gp_expiry_ledger = l, gp_execution_delay_ledgers = d, gp_executed = False,
        gp_cancelled = False, gp_quorum_required = r\<rparr>"
    using gov_create_proposal_Ok [OF assms(1)]
    by (auto simp: gov_new_def FIRST_PROPOSAL_ID_def gov_publish_def gov_get_proposal_def)
  have "r = 0" using s1(2) by (auto simp: quorum_snapshot_def gov_new_def)
  moreover have "gov_get_proposal s2 = gov_get_proposal s1" "gv_next_proposal_id s2 = Some 1"
    using assms(2) by (auto simp: gov_initialize_def gov_publish_def FIRST_PROPOSAL_ID_def
        gov_get_proposal_def fun_eq_iff split: if_splits)
  moreover have "j = 1 \<and> (\<exists>p. gov_get_proposal s4 1 = Some p \<and> gp_proposer p = b \<and> gp_votes_for p = 0 \<and>
             gp_votes_against p = 0) \<and>
          (\<forall>v. gov_get_vote_weight_used s4 1 v = gov_get_vote_weight_used s3 1 v)"
    if "gv_next_proposal_id s3 = Some 1" "gov_create_proposal e'' b y m k s3 = Ok (j, s4)"
    for s3 e'' b y m k j s4
    using gov_create_proposal_Ok [OF that(2)] that(1)
    by (auto simp: gov_publish_def gov_get_proposal_def gov_get_vote_weight_used_def)
  ultimately show ?thesis using s1 by auto
qed

theorem gov_preinit_proposal_witness:
  "\<exists>s1 s2. gov_create_proposal (gov_demo_env 1000) ''alice'' gov_demo_weights 100 0 gov_new = Ok (1, s1) \<and>
     gov_initialize (gov_demo_env 1001) ''admin'' ''credit'' 5 s1 = Ok s2 \<and> gv_next_proposal_id s2 = Some 1"
proof -
  have "is_valid gov_demo_weights = Some True"
    by (simp add: is_valid_iff weights_ok_def gov_demo_weights_def)
  then obtain s1 where s1: "gov_create_proposal (gov_demo_env 1000) ''alice'' gov_demo_weights 100 0 gov_new
      = Ok (1, s1)" and "gv_admin s1 = None"
    by (auto simp: gov_create_proposal_def gov_demo_env_def gov_new_def authorized_def
        quorum_snapshot_def checked_add_def FIRST_PROPOSAL_ID_def gov_publish_def Let_def)
  then obtain s2 where s2: "gov_initialize (gov_demo_env 1001) ''admin'' ''credit'' 5 s1 = Ok s2"
    by (auto simp: gov_initialize_def gov_demo_env_def authorized_def)
  show ?thesis using gov_preinit_proposal [OF s1 s2] s1 s2 by blast
qed

end
