(* ===== verification/Range_Verifier.thy ===== *)
theory Range_Verifier
  imports Interfaces
begin

text \<open>
  \<open>contracts/score-range-verifier/src/lib.rs\<close>: the Groth16 verifier with its embedded
  verification key, the encoding of the public inputs, and the replay-protected entry
  point. SHA-256, the XDR encoding and the BLS12-381 operations belong to the host:
  they are the fields of \<open>bls_host\<close>, over types of points \<open>'g1\<close>, \<open>'g2\<close> and scalars
  \<open>'fr\<close>; an operation that validates its points fails with \<open>None\<close>, which traps.
\<close>

section \<open>Host functions and data\<close>

record ('g1, 'g2, 'fr) bls_host =
  bh_g1_from_bytes :: "bytes \<Rightarrow> 'g1"
  bh_g2_from_bytes :: "bytes \<Rightarrow> 'g2"
  bh_fr_from_bytes :: "bytes \<Rightarrow> 'fr"
  bh_g1_neg :: "'g1 \<Rightarrow> 'g1"
  bh_g1_mul :: "'g1 \<Rightarrow> 'fr \<Rightarrow> 'g1 option"
  bh_g1_add :: "'g1 \<Rightarrow> 'g1 \<Rightarrow> 'g1 option"
  bh_pairing_check :: "'g1 list \<Rightarrow> 'g2 list \<Rightarrow> bool option"
  bh_sha256 :: "bytes \<Rightarrow> bytes"
  bh_to_xdr :: "address \<Rightarrow> bytes"

definition PROOF_SIZE :: nat where "PROOF_SIZE = 384"
definition NUM_PUBLIC_INPUTS :: nat where "NUM_PUBLIC_INPUTS = 6"
definition CIRCUIT_VERSION :: u32 where "CIRCUIT_VERSION = 1"

record score_range_public_inputs =
  pi_threshold :: u32
  pi_subject :: address
  pi_credit_oracle_id :: address
  pi_score_commitment :: bytes
  pi_snapshot_ledger :: u32
  pi_domain_separator :: bytes

record verification_key =
  vk_alpha :: bytes
  vk_beta :: bytes
  vk_gamma :: bytes
  vk_delta :: bytes
  vk_gamma_abc :: "bytes list"

datatype srv_error =
    SrvAlreadyInitialized | SrvNotAuthorized | SrvNotInitialized | InvalidProofSize
  | CircuitVersionMismatch | ProofAlreadyConsumed

datatype srv_event = SrvInit address bytes u32

record srv_state =
  srv_admin :: "address option"
  srv_vk_hash :: "bytes option"
  srv_circuit_version :: "u32 option"
  srv_consumed :: "bytes \<rightharpoonup> bool"
  srv_events :: "srv_event list"

definition srv_new :: srv_state where
  "srv_new = \<lparr>srv_admin = None, srv_vk_hash = None, srv_circuit_version = None,
     srv_consumed = Map.empty, srv_events = []\<rparr>"

section \<open>The embedded verification key\<close>

definition alpha_bytes :: bytes where
  "alpha_bytes = [
     0x01, 0xFB, 0x00, 0xF7, 0x67, 0xE9, 0x9B, 0x6A, 0x77, 0x57, 0x53, 0x8D, 0x1D, 0x99, 0xB6, 0x94,
     0x31, 0xC0, 0x78, 0x40, 0xEF, 0x24, 0x83, 0xFD, 0xE5, 0x54, 0x84, 0x45, 0xDE, 0x60, 0x91, 0x6E,
     0x5A, 0xF8, 0xC2, 0x85, 0xD9, 0x46, 0x83, 0x8C, 0xB5, 0x72, 0x81, 0x65, 0xF9, 0x8A, 0x21, 0x55,
     0x16, 0xC7, 0xB9, 0x98, 0x45, 0xD2, 0xD7, 0x74, 0x8E, 0x42, 0x2C, 0xFF, 0xEE, 0x6D, 0x10, 0x2A,
     0xF5, 0xEE, 0x6C, 0x55, 0x34, 0xB5, 0xC9, 0x77, 0x32, 0xAB, 0x1E, 0x18, 0xAC, 0xD4, 0x1A, 0x42,
     0x7E, 0x23, 0x0A, 0x8E, 0x47, 0x76, 0x7B, 0x6D, 0xB4, 0x22, 0x08, 0x8C, 0x0E, 0x26, 0xC7, 0xE9]"

definition beta_bytes :: bytes where
  "beta_bytes = [
     0x0F, 0xE9, 0xF3, 0x4C, 0x58, 0x6E, 0x46, 0x5B, 0xB8, 0xEB, 0xCC, 0xB1, 0x00, 0x82, 0x9D, 0x7A,
     0x54, 0x71, 0x0E, 0xD3, 0x0F, 0x94, 0x46, 0x16, 0x81, 0x71, 0x80, 0x3B, 0x66, 0x0D, 0xA2, 0x80,
     0xC3, 0x0C, 0x12, 0x8C, 0xAF, 0x5B, 0x78, 0x7B, 0x02, 0xB6, 0x70, 0xA0, 0xF6, 0xD8, 0xBC, 0xE7,
     0x0C, 0x86, 0x9C, 0x1B, 0xCE, 0x0B, 0x97, 0x18, 0x6F, 0xCF, 0xD5, 0x22, 0xFB, 0xAF, 0x43, 0xB1,
     0x0C, 0xB6, 0x52, 0xE2, 0x38, 0x9E, 0x36, 0x97, 0xBB, 0x98, 0x87, 0x9F, 0x4F, 0x38, 0xEC, 0x97,
     0xDA, 0x8C, 0x8E, 0x74, 0xEE, 0x5C, 0x05, 0xBB, 0x19, 0x11, 0x91, 0xF4, 0x95, 0xFB, 0x58, 0xED,
     0x11, 0x17, 0x1B, 0x5C, 0x91, 0x41, 0x9E, 0xAF, 0x77, 0x14, 0x3D, 0x86, 0xCE, 0xB2, 0xD1, 0x50,
     0x19, 0x61, 0x80, 0x2C, 0x23, 0xFE, 0xF3, 0x07, 0x7B, 0x95, 0x88, 0x3D, 0x8A, 0x9A, 0xB4, 0xEB,
     0x9D, 0xDE, 0x5B, 0xE4, 0xE2, 0x6F, 0x64, 0x66, 0xBD, 0xEE, 0x4A, 0x6B, 0xF2, 0xA0, 0x24, 0x7F,
     0x09, 0x6B, 0x0D, 0xD1, 0x73, 0xC1, 0xDD, 0xD2, 0x83, 0x52, 0xFF, 0xC2, 0x0B, 0xEE, 0x8B, 0x9B,
     0xA3, 0x91, 0xCE, 0x14, 0x07, 0x88, 0x34, 0x18, 0xE3, 0xC4, 0xBD, 0x98, 0x89, 0xCB, 0xFB, 0x1C,
     0x89, 0xAC, 0x5F, 0x1D, 0x70, 0x0A, 0xBE, 0x33, 0x98, 0xEB, 0x80, 0xBF, 0xAF, 0xD8, 0xEA, 0x8C]"

definition gamma_bytes :: bytes where
  "gamma_bytes = [
     0x0E, 0x92, 0x81, 0xC8, 0x7F, 0x39, 0x0F, 0x55, 0x67, 0x02, 0xA7, 0x47, 0xDE, 0x72, 0x25, 0x91,
     0x1F, 0xCA, 0xFC, 0x22, 0x29, 0x63, 0xC4, 0xC2, 0x02, 0x18, 0x28, 0xB3, 0x6D, 0x48, 0xC1, 0x45,
     0xF1, 0x73, 0xDF, 0x87, 0x89, 0xAE, 0x90, 0x0D, 0x0A, 0xE1, 0x8B, 0x9F, 0xCD, 0x8C, 0x3E, 0xD8,
     0x04, 0x97, 0x54, 0xEE, 0x8D, 0x1A, 0xFC, 0x22, 0xA2, 0x60, 0xBB, 0x47, 0xE6, 0x9D, 0x25, 0x1F,
     0x18, 0xB0, 0xFD, 0x1A, 0x65, 0x29, 0xAD, 0x4C, 0x20, 0x3A, 0x35, 0xD6, 0xB6, 0x0D, 0x4F, 0x27,
     0x66, 0x4C, 0x23, 0x58, 0x56, 0x90, 0x9D, 0x7D, 0x67, 0xD4, 0x9E, 0x03, 0x39, 0x85, 0x8D, 0xD6,
     0x10, 0x75, 0x20, 0x30, 0x2A, 0xA7, 0x48, 0xC6, 0x7E, 0xE7, 0x8F, 0x55, 0x4A, 0xA3, 0x82, 0xCD,
     0xDA, 0xD1, 0x33, 0xE3, 0x42, 0xDC, 0x2B, 0x04, 0x50, 0xED, 0x42, 0x9E, 0x3A, 0xC9, 0xB1, 0x81,
     0xC4, 0xAE, 0x33, 0xF1, 0xB0, 0x0A, 0x10, 0x2F, 0xA6, 0xDD, 0x83, 0x8F, 0x52, 0x41, 0x1B, 0xBE,
     0x12, 0x21, 0xF4, 0x06, 0x6F, 0xAC, 0x51, 0x31, 0xC5, 0x62, 0x53, 0x9A, 0x69, 0x72, 0xF8, 0x92,
     0xE4, 0x2B, 0x2B, 0xAE, 0xC1, 0xEA, 0xC7, 0x10, 0x9E, 0x38, 0xE4, 0x5E, 0xA6, 0x52, 0x9F, 0xC4,
     0x7C, 0x0B, 0x90, 0xCA, 0x9D, 0xE1, 0x7B, 0x5A, 0xE9, 0x89, 0xF5, 0x88, 0x93, 0x5D, 0x02, 0x8F]"

definition delta_bytes :: bytes where
  "delta_bytes = [
     0x15, 0x19, 0x6C, 0x13, 0xD3, 0x47, 0x8D, 0xDF, 0x21, 0x64, 0x40, 0x4F, 0x53, 0x11, 0x5C, 0x6B,
     0x22, 0x56, 0x93, 0x2C, 0xE5, 0x70, 0x94, 0x63, 0x5D, 0xC3, 0x74, 0xBE, 0xF7, 0xB4, 0xCA, 0xF2,
     0x62, 0x62, 0xBC, 0x2F, 0xE3, 0xF0, 0x7B, 0xDE, 0x59, 0xBC, 0xA0, 0x98, 0xC4, 0xA6, 0x8F, 0x72,
     0x11, 0xA1, 0xDE, 0xC4, 0x2A, 0xE4, 0xE8, 0x97, 0x3E, 0x96, 0x0E, 0xEA, 0x0F, 0x5B, 0x53, 0xF4,
     0x7A, 0x62, 0xCC, 0x84, 0x86, 0x37, 0x8E, 0x89, 0x15, 0xB0, 0x39, 0x93, 0xC4, 0x88, 0x30, 0x59,
     0x0D, 0xAE, 0x62, 0x4F, 0x91, 0xE3, 0xA0, 0xBB, 0x21, 0x56, 0x7F, 0x28, 0x03, 0x2C, 0x7C, 0xC2,
     0x02, 0x38, 0xD4, 0x6A, 0x97, 0x46, 0x29, 0x7D, 0x81, 0x1D, 0xA6, 0x37, 0xF3, 0x59, 0xA1, 0x26,
     0xDF, 0xB5, 0x6E, 0xE7, 0x49, 0x65, 0xA7, 0x4B, 0xDD, 0x5D, 0x8E, 0x21, 0x98, 0x30, 0x06, 0x00,
     0x8F, 0x2C, 0xAC, 0xEF, 0x59, 0x2C, 0xE0, 0x38, 0xB7, 0xC3, 0xCA, 0x95, 0x76, 0x00, 0x24, 0x41,
     0x04, 0x0C, 0x86, 0x22, 0x2F, 0xD5, 0x11, 0x27, 0x6D, 0x95, 0xA1, 0x63, 0x25, 0x55, 0x15, 0xD3,
     0x7B, 0xCE, 0x59, 0xBB, 0x36, 0xDD, 0x2E, 0x02, 0x05, 0x62, 0x39, 0xB0, 0xDB, 0xA0, 0xBA, 0xAE,
     0xDD, 0x58, 0x06, 0x14, 0x86, 0xFB, 0x80, 0xDA, 0xC2, 0xAC, 0x01, 0x7C, 0xF5, 0x39, 0xB6, 0x5A]"

definition gamma_abc_0 :: bytes where
  "gamma_abc_0 = [
     0x06, 0xE9, 0x40, 0x60, 0xEA, 0x72, 0xA3, 0xB9, 0xFC, 0xCA, 0x0D, 0x40, 0xD6, 0x07, 0xE8, 0x88,
     0x36, 0x66, 0x2E, 0x6C, 0x23, 0x98, 0x83, 0x24, 0x34, 0x41, 0xD0, 0x37, 0x0F, 0x78, 0x3B, 0xBB,
     0xDB, 0x25, 0x88, 0xA2, 0x55, 0xEE, 0x11, 0x8E, 0x72, 0x47, 0x2B, 0xD6, 0xD0, 0x30, 0x47, 0xFE,
     0x06, 0xEE, 0x12, 0x71, 0xA0, 0x68, 0xB4, 0x07, 0x48, 0xF6, 0xEC, 0x21, 0xB6, 0x4E, 0x61, 0x3F,
     0x3B, 0xC4, 0x1A, 0x76, 0x7A, 0x3C, 0xCE, 0x02, 0xAE, 0x6D, 0x75, 0xDE, 0x47, 0x1B, 0x10, 0xCC,
     0x09, 0x1E, 0xFE, 0x32, 0xB8, 0x32, 0x3C, 0x54, 0x40, 0x47, 0x8B, 0xBB, 0xB1, 0x76, 0x23, 0xE1]"

definition gamma_abc_1 :: bytes where
  "gamma_abc_1 = [
     0x07, 0xB4, 0xBC, 0xFC, 0xC3, 0xE8, 0xF8, 0x97, 0xE6, 0xAB, 0x3D, 0xED, 0x1E, 0xA2, 0x04, 0x4C,
     0x24, 0xBF, 0x3B, 0x7C, 0x39, 0xA1, 0x0D, 0xAC, 0x2E, 0xE5, 0xD2, 0xAC, 0xA4, 0x28, 0x27, 0xC5,
     0x92, 0xF6, 0x51, 0x6B, 0xD1, 0x80, 0x49, 0xEB, 0x54, 0xC1, 0xF3, 0xAF, 0xE6, 0x14, 0xCB, 0x40,
     0x0C, 0xEC, 0xCE, 0x5D, 0xA8, 0x8D, 0x8D, 0x83, 0x59, 0xE1, 0x42, 0x74, 0x3E, 0x10, 0x26, 0x75,
     0x67, 0xC8, 0xA4, 0x7E, 0x1A, 0x93, 0x93, 0x64, 0x46, 0xCE, 0x02, 0xC5, 0x67, 0xCA, 0x0F, 0xDA,
     0xDF, 0x7A, 0x59, 0x84, 0x42, 0xFA, 0xCE, 0x16, 0xB8, 0xBE, 0x2E, 0xE0, 0x43, 0xDA, 0x32, 0xC9]"

definition gamma_abc_2 :: bytes where
  "gamma_abc_2 = [
     0x09, 0x0D, 0xAB, 0x3F, 0xBA, 0xCF, 0xF9, 0x26, 0x87, 0x3E, 0x5C, 0x4C, 0x28, 0x3F, 0xA9, 0x3F,
     0xC4, 0x6D, 0x82, 0x60, 0xC6, 0x8B, 0x6A, 0xFB, 0xFB, 0x75, 0x60, 0xB2, 0xCE, 0x11, 0x65, 0x65,
     0xFB, 0x51, 0x1A, 0x63, 0x4A, 0x31, 0xFD, 0x44, 0x3C, 0x54, 0xDF, 0x1D, 0x84, 0xCE, 0xF0, 0x9F,
     0x17, 0x99, 0x4A, 0xA9, 0x20, 0xED, 0xBA, 0xF4, 0x81, 0x4D, 0xD0, 0xEB, 0xAC, 0x95, 0x76, 0x64,
     0x18, 0xE5, 0x8F, 0xF1, 0x99, 0xE6, 0x1E, 0xBF, 0xBC, 0xF7, 0xDA, 0x1A, 0x90, 0x30, 0xD0, 0x57,
     0x1E, 0x69, 0x89, 0xA7, 0x5F, 0x6D, 0x99, 0xC2, 0x46, 0x0A, 0x96, 0x8D, 0x9F, 0xC1, 0xF5, 0x6A]"

definition gamma_abc_3 :: bytes where
  "gamma_abc_3 = [
     0x02, 0xDA, 0x87, 0xF6, 0x1F, 0xC4, 0x12, 0xF1, 0xA7, 0x89, 0x84, 0xE3, 0x52, 0xAA, 0xD5, 0x8F,
     0x3E, 0x2A, 0x07, 0x71, 0x16, 0x39, 0x07, 0xDD, 0x7C, 0xCB, 0xA5, 0x8C, 0xB6, 0x7B, 0x61, 0xEE,
     0xB2, 0x10, 0xBC, 0xE8, 0x8A, 0x09, 0x3D, 0xD4, 0xA4, 0x59, 0x1A, 0x12, 0xD0, 0x00, 0x79, 0x08,
     0x06, 0x8D, 0xF0, 0xE7, 0x38, 0x93, 0x1A, 0xD8, 0xB2, 0x1C, 0x93, 0xED, 0x9D, 0xA4, 0x44, 0x28,
     0x8C, 0x38, 0x11, 0x8C, 0xA4, 0xF7, 0x6F, 0x90, 0xFA, 0x98, 0xDA, 0x01, 0xE9, 0x73, 0xC4, 0x73,
     0x07, 0x45, 0x9B, 0xA1, 0x31, 0x50, 0xC8, 0x5A, 0xA5, 0x8A, 0x2F, 0x65, 0x17, 0x2C, 0x07, 0xD3]"

definition gamma_abc_4 :: bytes where
  "gamma_abc_4 = [
     0x15, 0x08, 0x7C, 0xEF, 0x4C, 0x19, 0x7A, 0x70, 0x65, 0xE4, 0xDD, 0x5F, 0xC5, 0x4B, 0xA3, 0x9E,
     0xA1, 0x1C, 0x23, 0x53, 0xB7, 0xE8, 0xB9, 0xE7, 0xA8, 0xCA, 0x6A, 0xE7, 0x45, 0x2E, 0x6A, 0x7A,
     0x5E, 0x07, 0x83, 0x16, 0xDE, 0x36, 0x1F, 0xCB, 0xC7, 0x8F, 0xBF, 0x92, 0xA7, 0x8C, 0x1F, 0x9F,
     0x18, 0xF6, 0xD1, 0x94, 0x96, 0x5D, 0x4F, 0x6D, 0x57, 0x15, 0x50, 0x9E, 0x19, 0x7D, 0x89, 0x96,
     0xF0, 0x9B, 0x77, 0x1B, 0x1C, 0x25, 0xB5, 0x21, 0x9D, 0x53, 0xF9, 0x2B, 0xE5, 0xCF, 0xC8, 0xC5,
     0x7C, 0xA9, 0xDD, 0x9C, 0xA3, 0x8D, 0xF9, 0x8B, 0xE3, 0x76, 0xCB, 0x89, 0x06, 0x74, 0x8D, 0x7D]"

definition gamma_abc_5 :: bytes where
  "gamma_abc_5 = [
     0x15, 0x72, 0x09, 0xBB, 0x02, 0x8C, 0x1E, 0x3B, 0x42, 0xB7, 0x7F, 0x68, 0xBD, 0x99, 0x26, 0xC1,
     0x5E, 0x6A, 0xD6, 0xA4, 0x1F, 0x79, 0x9D, 0x7C, 0x50, 0x9D, 0x02, 0xF1, 0x73, 0xC0, 0x9F, 0x70,
     0x0C, 0x02, 0x2E, 0xE7, 0xBB, 0xBE, 0xA0, 0xE5, 0x07, 0x82, 0xB4, 0xF8, 0x93, 0x19, 0x2C, 0xFC,
     0x19, 0x92, 0x14, 0x98, 0xDF, 0xF3, 0xF5, 0x8B, 0x9D, 0xAF, 0xF2, 0xD1, 0xC2, 0xF0, 0x5A, 0xD6,
     0xB5, 0xE4, 0x37, 0xC7, 0x87, 0xBF, 0x4F, 0xF2, 0x66, 0x87, 0x05, 0xA1, 0x3A, 0xE6, 0x52, 0x9A,
     0xFB, 0xB4, 0xF7, 0xE1, 0x5F, 0x42, 0x98, 0xBE, 0x65, 0xAA, 0x6C, 0x48, 0xD8, 0xAC, 0x05, 0x8C]"

definition gamma_abc_6 :: bytes where
  "gamma_abc_6 = [
     0x13, 0x82, 0x8C, 0x86, 0x20, 0xA2, 0x9F, 0xD5, 0xC6, 0x81, 0x28, 0x6B, 0x46, 0x13, 0xA6, 0xDA,
     0x65, 0x05, 0x0E, 0xB8, 0x5B, 0x1E, 0x2B, 0xB1, 0x76, 0xA8, 0xF4, 0x10, 0x60, 0x34, 0xD9, 0xBD,
     0xAB, 0xAC, 0x62, 0x5D, 0xAB, 0xB9, 0xCB, 0x19, 0xCF, 0xF0, 0x81, 0xC7, 0xB7, 0x13, 0xA1, 0x61,
     0x14, 0x0B, 0xE6, 0xC2, 0x75, 0x82, 0x7A, 0x6C, 0x80, 0x10, 0x1E, 0xBF, 0x48, 0x68, 0x52, 0xBE,
     0xA2, 0x02, 0x7F, 0xA6, 0x10, 0x1F, 0xC4, 0x07, 0x46, 0x0C, 0xA1, 0xA7, 0xDD, 0x59, 0xEC, 0xA9,
     0x04, 0x9B, 0xD1, 0x2B, 0xD3, 0xDE, 0x89, 0x72, 0xE5, 0xDA, 0x5B, 0xEE, 0x36, 0x72, 0xD9, 0xF9]"

definition embedded_verification_key :: verification_key where
  "embedded_verification_key =
     \<lparr>vk_alpha = alpha_bytes, vk_beta = beta_bytes, vk_gamma = gamma_bytes, vk_delta = delta_bytes,
      vk_gamma_abc = [gamma_abc_0, gamma_abc_1, gamma_abc_2, gamma_abc_3, gamma_abc_4, gamma_abc_5,
                      gamma_abc_6]\<rparr>"

section \<open>Public inputs\<close>

text \<open>The four bytes of the value, least significant first, then 28 zeros.\<close>

definition u32_to_field :: "u32 \<Rightarrow> bytes" where
  "u32_to_field v =
     [ucast (and v 0xFF), ucast (and (drop_bit 8 v) 0xFF), ucast (and (drop_bit 16 v) 0xFF),
      ucast (and (drop_bit 24 v) 0xFF)] @ replicate 28 0"

definition address_to_field :: "('g1, 'g2, 'fr) bls_host \<Rightarrow> address \<Rightarrow> bytes" where
  "address_to_field h a = bh_sha256 h (bh_to_xdr h a)"

definition public_inputs_to_fields :: "('g1, 'g2, 'fr) bls_host \<Rightarrow> score_range_public_inputs \<Rightarrow> bytes list"
  where
  "public_inputs_to_fields h inputs =
     [u32_to_field (pi_threshold inputs), address_to_field h (pi_subject inputs),
      address_to_field h (pi_credit_oracle_id inputs), pi_score_commitment inputs,
      u32_to_field (pi_snapshot_ledger inputs), pi_domain_separator inputs]"

text \<open>
  The loop over the inputs with their index; a missing \<open>gamma_abc\<close> entry would panic
  (\<open>unwrap\<close>), as does a host operation that rejects a point.
\<close>

fun combine_inputs ::
  "('g1, 'g2, 'fr) bls_host \<Rightarrow> bytes list \<Rightarrow> bytes list \<Rightarrow> nat \<Rightarrow> 'g1 \<Rightarrow> 'g1 option" where
  "combine_inputs h abc [] i combined = Some combined"
| "combine_inputs h abc (input # inputs) i combined =
     (if i + 1 < length abc
      then (case bh_g1_mul h (bh_g1_from_bytes h (abc ! (i + 1))) (bh_fr_from_bytes h input) of
              None \<Rightarrow> None
            | Some summand \<Rightarrow>
                (case bh_g1_add h combined summand of
                   None \<Rightarrow> None
                 | Some combined' \<Rightarrow> combine_inputs h abc inputs (i + 1) combined'))
      else None)"

definition compute_public_inputs_combined ::
  "('g1, 'g2, 'fr) bls_host \<Rightarrow> verification_key \<Rightarrow> bytes list \<Rightarrow> 'g1 option" where
  "compute_public_inputs_combined h vk inputs =
     (case vk_gamma_abc vk of
        [] \<Rightarrow> None
      | g0 # _ \<Rightarrow> combine_inputs h (vk_gamma_abc vk) inputs 0 (bh_g1_from_bytes h g0))"

definition groth16_verify ::
  "('g1, 'g2, 'fr) bls_host \<Rightarrow> bytes \<Rightarrow> score_range_public_inputs \<Rightarrow> bool option" where
  "groth16_verify h proof_bytes inputs =
     (if length proof_bytes \<noteq> PROOF_SIZE then Some False
      else
        let vk = embedded_verification_key;
            a = bh_g1_from_bytes h (take 96 proof_bytes);
            b = bh_g2_from_bytes h (take 192 (drop 96 proof_bytes));
            c = bh_g1_from_bytes h (take 96 (drop 288 proof_bytes));
            fields = public_inputs_to_fields h inputs
        in case compute_public_inputs_combined h vk fields of
             None \<Rightarrow> None
           | Some combined \<Rightarrow>
               bh_pairing_check h
                 [bh_g1_neg h a, bh_g1_from_bytes h (vk_alpha vk), combined, c]
                 [b, bh_g2_from_bytes h (vk_beta vk), bh_g2_from_bytes h (vk_gamma vk),
                  bh_g2_from_bytes h (vk_delta vk)])"

section \<open>Entry points\<close>

definition srv_initialize ::
  "env \<Rightarrow> address \<Rightarrow> bytes \<Rightarrow> u32 \<Rightarrow> srv_state \<Rightarrow> (srv_error, srv_state) outcome" where
  "srv_initialize e adm vk_hash version s =
     (if srv_admin s \<noteq> None then Err SrvAlreadyInitialized
      else if \<not> authorized e adm then Trap
      else Ok (s\<lparr>srv_admin := Some adm, srv_vk_hash := Some vk_hash,
                 srv_circuit_version := Some version,
                 srv_events := srv_events s @ [SrvInit adm vk_hash version]\<rparr>))"

definition srv_verify_score_range ::
  "('g1, 'g2, 'fr) bls_host \<Rightarrow> srv_state \<Rightarrow> bytes \<Rightarrow> score_range_public_inputs \<Rightarrow> bool option" where
  "srv_verify_score_range h s proof_bytes inputs =
     (if length proof_bytes \<noteq> PROOF_SIZE then Some False
      else if srv_admin s = None then Some False
      else if unwrap_or (srv_circuit_version s) 0 \<noteq> CIRCUIT_VERSION then Some False
      else groth16_verify h proof_bytes inputs)"

text \<open>\<open>u32::to_be_bytes\<close>.\<close>

definition to_be_bytes :: "u32 \<Rightarrow> bytes" where
  "to_be_bytes v =
     [ucast (drop_bit 24 v), ucast (drop_bit 16 v), ucast (drop_bit 8 v), ucast v]"

definition replay_preimage ::
  "('g1, 'g2, 'fr) bls_host \<Rightarrow> bytes \<Rightarrow> score_range_public_inputs \<Rightarrow> bytes \<Rightarrow> bytes" where
  "replay_preimage h proof_bytes inputs nonce =
     proof_bytes @ to_be_bytes (pi_threshold inputs) @ bh_to_xdr h (pi_subject inputs)
       @ bh_to_xdr h (pi_credit_oracle_id inputs) @ pi_score_commitment inputs
       @ to_be_bytes (pi_snapshot_ledger inputs) @ pi_domain_separator inputs @ nonce"

definition srv_verify_and_consume ::
  "env \<Rightarrow> ('g1, 'g2, 'fr) bls_host \<Rightarrow> address \<Rightarrow> bytes \<Rightarrow> score_range_public_inputs \<Rightarrow> bytes
     \<Rightarrow> srv_state \<Rightarrow> (srv_error, bool \<times> srv_state) outcome" where
  "srv_verify_and_consume e h consumer proof_bytes inputs nonce s =
     (if \<not> authorized e consumer then Trap
      else if srv_admin s = None then Err SrvNotInitialized
      else if length proof_bytes \<noteq> PROOF_SIZE then Err InvalidProofSize
      else
        let key = bh_sha256 h (replay_preimage h proof_bytes inputs nonce)
        in if srv_consumed s key \<noteq> None then Err ProofAlreadyConsumed
           else outcome_bind (expect (groth16_verify h proof_bytes inputs)) (\<lambda>valid.
                  if \<not> valid then Ok (False, s)
                  else Ok (True, s\<lparr>srv_consumed := (srv_consumed s)(key \<mapsto> True)\<rparr>)))"

definition srv_get_vk_hash :: "srv_state \<Rightarrow> bytes option" where
  "srv_get_vk_hash s = srv_vk_hash s"

definition srv_get_circuit_version :: "srv_state \<Rightarrow> u32 option" where
  "srv_get_circuit_version s = srv_circuit_version s"

definition srv_get_admin :: "srv_state \<Rightarrow> address option" where
  "srv_get_admin s = srv_admin s"

datatype srv_call =
    SrvInitializeCall address bytes u32
  | SrvConsumeCall address bytes score_range_public_inputs bytes

fun srv_exec ::
  "env \<Rightarrow> ('g1, 'g2, 'fr) bls_host \<Rightarrow> srv_call \<Rightarrow> srv_state \<Rightarrow> (srv_error, srv_state) outcome" where
  "srv_exec e h (SrvInitializeCall a x v) s = srv_initialize e a x v s"
| "srv_exec e h (SrvConsumeCall a p i n) s =
     outcome_bind (srv_verify_and_consume e h a p i n s) (\<lambda>(_, s'). Ok s')"

text \<open>Later states: any successful calls, in any environments, on the same host.\<close>

inductive srv_later :: "('g1, 'g2, 'fr) bls_host \<Rightarrow> srv_state \<Rightarrow> srv_state \<Rightarrow> bool" for h where
  srv_refl: "srv_later h s s"
| srv_step: "srv_later h s s1 \<Longrightarrow> srv_exec e h c s1 = Ok s2 \<Longrightarrow> srv_later h s s2"

interpretation srv_init: one_shot_init srv_admin "\<lambda>e (a, x, v). srv_initialize e a x v"
  by unfold_locales (auto simp: srv_initialize_def split: if_splits)

section \<open>Lemmas\<close>

lemma srv_consume_Ok:
  assumes "srv_verify_and_consume e h a p i n s = Ok (b, s')"
  defines "key \<equiv> bh_sha256 h (replay_preimage h p i n)"
  shows "authorized e a \<and> srv_admin s \<noteq> None \<and> length p = 384 \<and> srv_consumed s key = None \<and>
    groth16_verify h p i = Some b \<and>
    s' = (if b then s\<lparr>srv_consumed := (srv_consumed s)(key \<mapsto> True)\<rparr> else s)"
  using assms by (auto simp: srv_verify_and_consume_def PROOF_SIZE_def Let_def split: if_splits)

lemma srv_exec_keeps:
  assumes "srv_exec e h c s = Ok s'"
  shows "(srv_admin s \<noteq> None \<longrightarrow> srv_admin s' = srv_admin s) \<and>
    (srv_consumed s k \<noteq> None \<longrightarrow> srv_consumed s' k \<noteq> None)"
proof (cases c)
  case (SrvConsumeCall a p i n)
  then obtain b where "srv_verify_and_consume e h a p i n s = Ok (b, s')" using assms by auto
  from srv_consume_Ok [OF this] show ?thesis by auto
qed (use assms in \<open>auto simp: srv_initialize_def split: if_splits\<close>)

lemma srv_later_keeps:
  "srv_later h s s' \<Longrightarrow> (srv_admin s \<noteq> None \<longrightarrow> srv_admin s' = srv_admin s) \<and>
    (srv_consumed s k \<noteq> None \<longrightarrow> srv_consumed s' k \<noteq> None)"
proof (induction rule: srv_later.induct)
  case (srv_step s s1 e c s2)
  then show ?case using srv_exec_keeps [of e h c s1 s2 k] by auto
qed simp

lemma byte_of_u32: "unat (ucast (and (drop_bit n (v :: u32)) 0xFF) :: u8) = unat v div 2 ^ n mod 256"
proof -
  have m: "and (drop_bit n v) 0xFF = take_bit 8 (drop_bit n v)"
    by (simp add: take_bit_eq_mask mask_eq_exp_minus_1)
  have "unat (ucast (take_bit 8 (drop_bit n v)) :: u8) = take_bit 8 (take_bit 8 (drop_bit n (unat v)))"
    using unat_u32_less [of v]
    by (simp only: unsigned_ucast_eq unsigned_take_bit_eq unsigned_drop_bit_eq)
      (simp add: take_bit_nat_eq_self)
  then show ?thesis unfolding m by (simp add: take_bit_eq_mod drop_bit_eq_div)
qed

lemma le_value_u32: "le_value (u32_to_field v) = unat v"
proof -
  have v: "unat v < 2 ^ 32" using unat_u32_less [of v] by simp
  have b0: "unat (ucast (and v 0xFF) :: u8) = unat v mod 256"
    using byte_of_u32 [of 0 v] by simp
  have d: "x mod 256 + 256 * (x div 256 mod 256 + 256 * (x div 65536 mod 256 + 256 * (x div 16777216))) = x
    \<and> x div 16777216 < 256"
    if "x < 2 ^ 32" for x :: nat
  proof -
    have q: "x div 65536 = x div 256 div 256" "x div 16777216 = x div 256 div 256 div 256"
      by (simp_all add: div_mult2_eq [symmetric])
    have "x div 256 div 256 div 256 < 256" using that unfolding q(2) [symmetric]
      by (simp add: less_mult_imp_div_less)
    then show ?thesis unfolding q by simp
  qed
  show ?thesis
    using d [OF v] unfolding u32_to_field_def le_value_append
    by (simp add: b0 byte_of_u32)
qed

section \<open>Properties\<close>

text \<open>A host to evaluate on: points are integers, scalars numbers, the pairing multiplication.\<close>

definition srv_demo_host :: "(int, int, nat) bls_host" where
  "srv_demo_host = \<lparr>bh_g1_from_bytes = (\<lambda>bs. 1), bh_g2_from_bytes = (\<lambda>bs. 1),
     bh_fr_from_bytes = be_value, bh_g1_neg = uminus, bh_g1_mul = (\<lambda>x k. Some (x * int k)),
     bh_g1_add = (\<lambda>x y. Some (x + y)),
     bh_pairing_check = (\<lambda>xs ys. Some (0 \<le> sum_list (map2 (*) xs ys))),
     bh_sha256 = (\<lambda>bs. [of_nat (length bs), last bs]), bh_to_xdr = (\<lambda>a. [1])\<rparr>"

definition srv_demo_inputs :: score_range_public_inputs where
  "srv_demo_inputs = \<lparr>pi_threshold = 700, pi_subject = ''bob'', pi_credit_oracle_id = ''credit'',
     pi_score_commitment = replicate 32 1, pi_snapshot_ledger = 12345, pi_domain_separator = replicate 32 2\<rparr>"

definition srv_demo_env :: env where
  "srv_demo_env = \<lparr>ledger_sequence = 1000, ledger_timestamp = 5000, signers = {''admin'', ''lender''},
     invoker = None, current_contract = ''verifier'', call_stack = []\<rparr>"

definition srv_demo_state :: "u32 \<Rightarrow> srv_state" where
  "srv_demo_state v = srv_new\<lparr>srv_admin := Some ''admin'', srv_vk_hash := Some [0], srv_circuit_version := Some v\<rparr>"

definition srv_demo_proof :: bytes where
  "srv_demo_proof = replicate 384 0"

lemma srv_demo_verifies: "groth16_verify srv_demo_host srv_demo_proof srv_demo_inputs = Some True"
proof -
  have nn: "\<exists>y. combine_inputs srv_demo_host abc fs i x = Some y \<and> 0 \<le> y"
    if "0 \<le> x" "i + length fs < length abc" for abc fs i x
    using that by (induction fs arbitrary: i x) (auto simp: srv_demo_host_def)
  have "length (public_inputs_to_fields srv_demo_host srv_demo_inputs) = 6"
    by (simp add: public_inputs_to_fields_def)
  then obtain y where y: "compute_public_inputs_combined srv_demo_host embedded_verification_key
      (public_inputs_to_fields srv_demo_host srv_demo_inputs) = Some y" "0 \<le> y"
    using nn [of 1 0 "public_inputs_to_fields srv_demo_host srv_demo_inputs"
        "vk_gamma_abc embedded_verification_key"]
    by (auto simp: compute_public_inputs_combined_def embedded_verification_key_def srv_demo_host_def)
  have l: "length srv_demo_proof = PROOF_SIZE" by (simp add: srv_demo_proof_def PROOF_SIZE_def)
  show ?thesis
    using y by (simp add: groth16_verify_def l Let_def) (simp add: srv_demo_host_def)
qed

text \<open>C8: A consumed proof stays consumed: after \<open>verify_and_consume\<close> accepted a proof with its inputs
  and nonce, which needs the consumer's authorisation and a valid proof, every later call with the same
  three is refused in every later state, whoever makes it. The nonce is the caller's: the same
  proof with a nonce whose hash is new is accepted again.\<close>

theorem srv_no_replay:
  assumes "srv_verify_and_consume e h a p i n s = Ok (True, s1)" and "srv_later h s1 s2"
  shows "authorized e a \<and> groth16_verify h p i = Some True
    \<and> (\<forall>e' a'. authorized e' a' \<longrightarrow>
         srv_verify_and_consume e' h a' p i n s2 = Err ProofAlreadyConsumed
         \<and> (\<forall>n'. srv_consumed s2 (bh_sha256 h (replay_preimage h p i n')) = None \<longrightarrow>
              (\<exists>s3. srv_verify_and_consume e' h a' p i n' s2 = Ok (True, s3))))"
proof -
  let ?key = "bh_sha256 h (replay_preimage h p i n)"
  note ok = srv_consume_Ok [OF assms(1)]
  have s1: "srv_admin s1 \<noteq> None" "srv_consumed s1 ?key \<noteq> None" using ok by auto
  have s2: "srv_admin s2 \<noteq> None" "srv_consumed s2 ?key \<noteq> None"
    using srv_later_keeps [OF assms(2), of ?key] s1 by auto
  show ?thesis
    using ok s2 by (auto simp: srv_verify_and_consume_def PROOF_SIZE_def Let_def)
qed

theorem srv_no_replay_witness:
  "\<exists>s1. srv_verify_and_consume srv_demo_env srv_demo_host ''lender'' srv_demo_proof srv_demo_inputs [9]
       (srv_demo_state 1) = Ok (True, s1) \<and>
     srv_verify_and_consume srv_demo_env srv_demo_host ''lender'' srv_demo_proof srv_demo_inputs [9] s1
       = Err ProofAlreadyConsumed"
proof -
  have auth: "authorized srv_demo_env ''lender''" by (simp add: srv_demo_env_def authorized_def)
  have len: "length srv_demo_proof = PROOF_SIZE" by (simp add: srv_demo_proof_def PROOF_SIZE_def)
  obtain s1 where s1: "srv_verify_and_consume srv_demo_env srv_demo_host ''lender'' srv_demo_proof
      srv_demo_inputs [9] (srv_demo_state 1) = Ok (True, s1)"
    using auth len srv_demo_verifies
    by (simp add: srv_verify_and_consume_def Let_def) (simp add: srv_demo_state_def srv_new_def)
  then show ?thesis using srv_no_replay [OF s1 srv_refl] auth by blast
qed

text \<open>One more public input: its key point is multiplied by it and added; the host may reject either.\<close>

definition add_input ::
  "('g1, 'g2, 'fr) bls_host \<Rightarrow> bytes \<Rightarrow> bytes \<Rightarrow> 'g1 option \<Rightarrow> 'g1 option" where
  "add_input h point input acc =
     Option.bind acc (\<lambda>a. Option.bind (bh_g1_mul h (bh_g1_from_bytes h point) (bh_fr_from_bytes h input)) (bh_g1_add h a))"

lemma add_input_None [simp]: "fold (\<lambda>(g, f). add_input h g f) xs None = None"
  by (induction xs) (auto simp: add_input_def)

lemma combine_inputs_fold:
  "n + length fs < length abc \<Longrightarrow> combine_inputs h abc fs n acc =
     fold (\<lambda>(g, f). add_input h g f) (zip (drop (n + 1) abc) fs) (Some acc)"
proof (induction fs arbitrary: n acc)
  case (Cons f fs)
  then have "drop (n + 1) abc = abc ! (n + 1) # drop (n + 2) abc"
    using Cons_nth_drop_Suc [of "n + 1" abc] by simp
  moreover have "combine_inputs h abc (f # fs) n acc = (case add_input h (abc ! (n + 1)) f (Some acc) of
      None \<Rightarrow> None | Some c \<Rightarrow> combine_inputs h abc fs (n + 1) c)"
    using Cons.prems by (auto simp: add_input_def split: option.splits)
  ultimately show ?case using Cons by (cases "add_input h (abc ! (n + 1)) f (Some acc)") simp_all
qed simp

text \<open>C31: What a proof is checked against, on any host. A proof that has not 384 bytes, and every proof on an
  uninitialised contract or one of a circuit version but 1, is answered false. Any other is answered by the
  pairing check of \<open>(-A, B)\<close>, \<open>(alpha, beta)\<close>, \<open>(IC, gamma)\<close>, \<open>(C, delta)\<close>, where \<open>IC\<close> adds to the first key
  point, in this order, the points of threshold, subject hash, oracle hash, commitment, snapshot
  ledger and domain separator times those values; and when the host rejects one of the points, in an
  addition, a multiplication or the pairing, the invocation fails.\<close>

theorem srv_verify_exact:
  "srv_verify_score_range h s p i =
    (if length p = 384 \<and> srv_admin s \<noteq> None \<and> srv_circuit_version s = Some 1 then Option.bind
       (add_input h gamma_abc_6 (pi_domain_separator i)
         (add_input h gamma_abc_5 (u32_to_field (pi_snapshot_ledger i))
           (add_input h gamma_abc_4 (pi_score_commitment i)
             (add_input h gamma_abc_3 (bh_sha256 h (bh_to_xdr h (pi_credit_oracle_id i)))
               (add_input h gamma_abc_2 (bh_sha256 h (bh_to_xdr h (pi_subject i)))
                 (add_input h gamma_abc_1 (u32_to_field (pi_threshold i))
                   (Some (bh_g1_from_bytes h gamma_abc_0))))))))
       (\<lambda>ic. bh_pairing_check h
          [bh_g1_neg h (bh_g1_from_bytes h (take 96 p)), bh_g1_from_bytes h alpha_bytes, ic,
           bh_g1_from_bytes h (drop 288 p)]
          [bh_g2_from_bytes h (take 192 (drop 96 p)), bh_g2_from_bytes h beta_bytes,
           bh_g2_from_bytes h gamma_bytes, bh_g2_from_bytes h delta_bytes])
     else Some False)"
proof (cases "length p = 384 \<and> srv_admin s \<noteq> None \<and> srv_circuit_version s = Some 1")
  case False
  then show ?thesis
    by (cases "srv_circuit_version s") (auto simp: srv_verify_score_range_def PROOF_SIZE_def CIRCUIT_VERSION_def)
next
  case True
  have "srv_verify_score_range h s p i = groth16_verify h p i"
    using True by (auto simp: srv_verify_score_range_def PROOF_SIZE_def CIRCUIT_VERSION_def)
  moreover have "compute_public_inputs_combined h embedded_verification_key (public_inputs_to_fields h i) =
      add_input h gamma_abc_6 (pi_domain_separator i)
         (add_input h gamma_abc_5 (u32_to_field (pi_snapshot_ledger i))
           (add_input h gamma_abc_4 (pi_score_commitment i)
             (add_input h gamma_abc_3 (bh_sha256 h (bh_to_xdr h (pi_credit_oracle_id i)))
               (add_input h gamma_abc_2 (bh_sha256 h (bh_to_xdr h (pi_subject i)))
                 (add_input h gamma_abc_1 (u32_to_field (pi_threshold i))
                   (Some (bh_g1_from_bytes h gamma_abc_0)))))))"
    by (simp add: compute_public_inputs_combined_def embedded_verification_key_def combine_inputs_fold
        public_inputs_to_fields_def address_to_field_def del: combine_inputs.simps)
  ultimately show ?thesis
    using True by (auto simp: groth16_verify_def PROOF_SIZE_def Let_def embedded_verification_key_def split: option.splits)
qed

text \<open>The two entry points disagree about the circuit version: on a contract initialised for any
  version but 1, \<open>verify_score_range\<close> rejects every proof of the right size while
  \<open>verify_and_consume\<close> accepts and records each fresh one that passes the pairing check, never
  returning \<open>CircuitVersionMismatch\<close>.\<close>

theorem srv_version_unchecked:
  assumes "srv_circuit_version s \<noteq> Some 1" and "srv_admin s \<noteq> None" and "authorized e a"
    and "length p = 384" and "groth16_verify h p i = Some True"
    and "srv_consumed s (bh_sha256 h (replay_preimage h p i n)) = None"
  shows "srv_verify_score_range h s p i = Some False
    \<and> (\<exists>s'. srv_verify_and_consume e h a p i n s = Ok (True, s'))"
proof -
  have "unwrap_or (srv_circuit_version s) 0 \<noteq> CIRCUIT_VERSION"
    using assms(1) by (cases "srv_circuit_version s") (auto simp: CIRCUIT_VERSION_def)
  then show ?thesis
    using assms(2-6)
    by (simp add: srv_verify_score_range_def srv_verify_and_consume_def PROOF_SIZE_def Let_def)
qed

theorem srv_version_unchecked_witness:
  "\<exists>s'. srv_verify_and_consume srv_demo_env srv_demo_host ''lender'' srv_demo_proof srv_demo_inputs [9]
     (srv_demo_state 2) = Ok (True, s')"
proof -
  have "srv_circuit_version (srv_demo_state 2) \<noteq> Some 1" "srv_admin (srv_demo_state 2) \<noteq> None"
    "authorized srv_demo_env ''lender''" "length srv_demo_proof = 384"
    "srv_consumed (srv_demo_state 2) k = None" for k
    by (simp_all add: srv_demo_state_def srv_demo_env_def srv_demo_proof_def srv_new_def authorized_def)
  then show ?thesis using srv_version_unchecked srv_demo_verifies by metis
qed

text \<open>Read most significant byte first, the four bytes of the value stand at the top of 32.\<close>

lemma be_value_u32_to_field:
  obtains k where "be_value (u32_to_field v) = 2 ^ 224 * k" and "k = 0 \<longleftrightarrow> v = 0"
proof
  let ?bs = "take 4 (u32_to_field v)"
  have split: "u32_to_field v = ?bs @ replicate 28 0" by (simp add: u32_to_field_def)
  have "be_value (bs @ replicate 28 0) = 2 ^ 224 * be_value bs"
    "le_value (bs @ replicate 28 0) = le_value bs" for bs :: bytes
    by (simp_all add: be_value_def le_value_append)
  from this [of ?bs] show "be_value (u32_to_field v) = 2 ^ 224 * be_value ?bs"
    by (simp only: split [symmetric])
  have le: "le_value ?bs = unat v"
    using le_value_u32 [of v] split \<open>le_value (?bs @ replicate 28 0) = le_value ?bs\<close> by simp
  have zero: "le_value xs = 0 \<longleftrightarrow> set xs \<subseteq> {0}" for xs :: bytes
    by (induction xs) (auto simp: word_unat_eq_iff)
  show "be_value ?bs = 0 \<longleftrightarrow> v = 0"
    using le zero [of ?bs] zero [of "rev ?bs"] by (simp add: be_value_def word_unat_eq_iff)
qed

text \<open>The field encoding of a 32-bit public input is 32 bytes that read least significant first
  give the value back, so it is injective; but read most significant first, as the host's scalar
  constructor and the prover's byte conversions do, they give the value only for zero: any
  other threshold or ledger is encoded as at least 2^224.\<close>

theorem srv_u32_encoding:
  "length (u32_to_field v) = 32 \<and> le_value (u32_to_field v) = unat v
   \<and> (u32_to_field v = u32_to_field u \<longleftrightarrow> v = u)
   \<and> (be_value (u32_to_field v) = unat v \<longleftrightarrow> v = 0)
   \<and> (v \<noteq> 0 \<longrightarrow> 2 ^ 224 \<le> be_value (u32_to_field v))"
proof -
  have inj: "u32_to_field v = u32_to_field u \<longleftrightarrow> v = u"
    by (metis le_value_u32 word_unat_eq_iff)
  obtain k where k: "be_value (u32_to_field v) = 2 ^ 224 * k" "k = 0 \<longleftrightarrow> v = 0"
    by (rule be_value_u32_to_field)
  then have pos: "v \<noteq> 0 \<longrightarrow> 2 ^ 224 \<le> be_value (u32_to_field v)" "v = 0 \<longrightarrow> be_value (u32_to_field v) = 0"
    by auto
  have "unat v < 2 ^ 32" using unat_u32_less [of v] by simp
  then have "v \<noteq> 0 \<longrightarrow> be_value (u32_to_field v) \<noteq> unat v" using pos by auto
  then show ?thesis using inj pos le_value_u32 by (auto simp: u32_to_field_def)
qed

theorem srv_u32_encoding_witness:
  "2 ^ 224 \<le> be_value (u32_to_field 600) \<and> le_value (u32_to_field 600) = 600"
  using srv_u32_encoding [of 600] by simp

end
