(* ===== verification/Zk_Circuit.thy ===== *)
theory Zk_Circuit
  imports Scoring
begin

text \<open>
  The zero-knowledge side: the range gadgets (\<open>zk/circuit/src/range.rs\<close>), the vector
  commitment (\<open>commitment.rs\<close>) and the constraint system of the score-above-threshold circuit
  (\<open>score_circuit.rs\<close>), what its constraints mean on numbers and which statements they
  leave unproved.

  An \<open>FpVar\<close> is an integer, read modulo the order of the scalar field; \<open>enforce_equal\<close>
  and \<open>to_bits_le\<close> are where the reduction shows. The field (its order and bit size) and
  SHA-256 belong to third-party crates: they are parameters. Groth16 proving and
  verifying over the constraint system are not modelled: a proof exists for the public
  inputs when some assignment of the wires satisfies the constraints.
\<close>

section \<open>The scalar field\<close>

type_synonym fp = int

record fr_field =
  fr_modulus :: int
  fr_bits :: nat

text \<open>All the circuit needs of the field: its order is above \<open>2^100\<close> and fits its bit size.\<close>

definition fr_field_ok :: "fr_field \<Rightarrow> bool" where
  "fr_field_ok f \<longleftrightarrow> 2 ^ 100 < fr_modulus f \<and> fr_modulus f \<le> 2 ^ fr_bits f"

definition fp_eq :: "fr_field \<Rightarrow> fp \<Rightarrow> fp \<Rightarrow> bool" where
  "fp_eq f x y \<longleftrightarrow> x mod fr_modulus f = y mod fr_modulus f"

definition fp_to_bits_le :: "fr_field \<Rightarrow> fp \<Rightarrow> bool list" where
  "fp_to_bits_le f x = map (bit (x mod fr_modulus f)) [0..<fr_bits f]"

definition uint_to_bits_le :: "'a::len word \<Rightarrow> bool list" where
  "uint_to_bits_le w = map (bit w) [0..<LENGTH('a)]"

text \<open>\<open>for b in bits.iter().skip(k) { b.enforce_equal(false) }\<close>.\<close>

definition zero_from :: "nat \<Rightarrow> bool list \<Rightarrow> bool" where
  "zero_from k bs \<longleftrightarrow> list_all Not (drop k bs)"

section \<open>Range gadgets\<close>

fun fp_from_bits_loop :: "fp \<Rightarrow> fp \<Rightarrow> bool list \<Rightarrow> fp" where
  "fp_from_bits_loop acc pow [] = acc"
| "fp_from_bits_loop acc pow (b # bs) = fp_from_bits_loop (acc + of_bool b * pow) (pow * 2) bs"

definition fp_from_bits :: "bool list \<Rightarrow> fp" where
  "fp_from_bits bs = fp_from_bits_loop 0 1 bs"

definition uint32_to_fp :: "u32 \<Rightarrow> fp" where
  "uint32_to_fp v = fp_from_bits (uint_to_bits_le v)"

definition uint64_to_fp :: "u64 \<Rightarrow> fp" where
  "uint64_to_fp v = fp_from_bits (uint_to_bits_le v)"

definition boolean_to_fp :: "bool \<Rightarrow> fp" where
  "boolean_to_fp b = of_bool b"

definition enforce_u32_less_than :: "fr_field \<Rightarrow> u32 \<Rightarrow> u32 \<Rightarrow> bool" where
  "enforce_u32_less_than f v bound =
     (let bound_minus_one = saturating_sub bound 1;
          diff = uint bound_minus_one - uint32_to_fp v
      in zero_from 32 (fp_to_bits_le f diff))"

definition enforce_u32_gte :: "fr_field \<Rightarrow> u32 \<Rightarrow> u32 \<Rightarrow> bool" where
  "enforce_u32_gte f v bound =
     (let diff = uint32_to_fp v - uint bound in zero_from 32 (fp_to_bits_le f diff))"

definition enforce_u32_gt :: "fr_field \<Rightarrow> u32 \<Rightarrow> u32 \<Rightarrow> bool" where
  "enforce_u32_gt f v bound = enforce_u32_gte f v (saturating_add bound 1)"

definition enforce_u32_gt_fp :: "fr_field \<Rightarrow> u32 \<Rightarrow> fp \<Rightarrow> bool" where
  "enforce_u32_gt_fp f v bound =
     (let diff = uint32_to_fp v - bound - 1 in zero_from 32 (fp_to_bits_le f diff))"

definition enforce_u32_range :: "u32 \<Rightarrow> nat \<Rightarrow> bool" where
  "enforce_u32_range v k = zero_from k (uint_to_bits_le v)"

definition enforce_u64_range :: "u64 \<Rightarrow> nat \<Rightarrow> bool" where
  "enforce_u64_range v k = zero_from k (uint_to_bits_le v)"

subsection \<open>What the gadgets mean\<close>

lemma fp_from_bits_loop_horner:
  "fp_from_bits_loop acc pow bs = acc + pow * horner_sum of_bool 2 bs"
  by (induction bs arbitrary: acc pow) (simp_all add: algebra_simps)

lemma uint_bits: "uint_to_bits_le (w :: 'a::len word) = map (bit (uint w)) [0..<LENGTH('a)]"
  by (simp add: uint_to_bits_le_def bit_uint_iff)

lemma fp_from_bits_uint: "fp_from_bits (uint_to_bits_le (w :: 'a::len word)) = uint w"
proof -
  have "fp_from_bits (uint_to_bits_le w) = take_bit LENGTH('a) (uint w)"
    unfolding fp_from_bits_def fp_from_bits_loop_horner uint_bits horner_sum_bit_eq_take_bit by simp
  also have "\<dots> = uint w" by (rule take_bit_int_eq_self) simp_all
  finally show ?thesis .
qed

lemma uint_to_fp [simp]: "uint32_to_fp v = uint v" "uint64_to_fp u = uint u"
  by (simp_all add: uint32_to_fp_def uint64_to_fp_def fp_from_bits_uint)

lemma zero_from_map_bit:
  assumes "0 \<le> y" and "y < 2 ^ n" and "k \<le> n"
  shows "zero_from k (map (bit (y :: int)) [0..<n]) \<longleftrightarrow> y < 2 ^ k"
proof -
  have "zero_from k (map (bit y) [0..<n]) \<longleftrightarrow> (\<forall>i. k \<le> i \<and> i < n \<longrightarrow> \<not> bit y i)"
    by (auto simp: zero_from_def drop_map list_all_iff)
  also have "\<dots> \<longleftrightarrow> take_bit k y = y"
  proof -
    have "take_bit n y = y" using assms by (simp add: take_bit_int_eq_self)
    then have "bit y i \<Longrightarrow> i < n" for i by (metis bit_take_bit_iff)
    then show ?thesis by (metis bit_eq_iff bit_take_bit_iff not_le)
  qed
  also have "\<dots> \<longleftrightarrow> y < 2 ^ k"
    using assms(1) by (simp add: take_bit_int_eq_self_iff)
  finally show ?thesis .
qed

lemma zero_from_uint:
  assumes "k \<le> LENGTH('a)"
  shows "zero_from k (uint_to_bits_le (w :: 'a::len word)) \<longleftrightarrow> uint w < 2 ^ k"
  unfolding uint_bits by (rule zero_from_map_bit) (use assms in auto)

lemma fr_order: "fr_field_ok f \<Longrightarrow> 2 ^ 100 < fr_modulus f"
  by (simp add: fr_field_ok_def)

lemma fr_bits_large: assumes "fr_field_ok f" shows "100 \<le> fr_bits f"
proof -
  have "(2 :: int) ^ 100 < 2 ^ fr_bits f"
    using assms unfolding fr_field_ok_def by (elim conjE) (rule less_le_trans)
  then show ?thesis using power_less_imp_less_exp [of "2 :: int" 100 "fr_bits f"] by simp
qed

lemma fp_small_mod:
  assumes "fr_field_ok f" and "- (2 ^ 90) < x" and "x < 2 ^ 90" and "k \<le> 64"
  shows "x mod fr_modulus f < 2 ^ k \<longleftrightarrow> 0 \<le> x \<and> x < 2 ^ k"
proof (cases "0 \<le> x")
  case True
  then have "x mod fr_modulus f = x"
    using assms fr_order [OF assms(1)] by (intro mod_pos_pos_trivial) simp_all
  then show ?thesis using True by simp
next
  case False
  have k: "(2 :: int) ^ k \<le> 2 ^ 64" using assms(4) by (intro power_increasing) auto
  have "x mod fr_modulus f = (x + fr_modulus f) mod fr_modulus f" by simp
  also have "\<dots> = x + fr_modulus f"
    using False assms fr_order [OF assms(1)] by (intro mod_pos_pos_trivial) simp_all
  finally have "2 ^ 64 \<le> x mod fr_modulus f"
    using assms fr_order [OF assms(1)] by simp
  then show ?thesis using False k by simp
qed

lemma fp_fits:
  assumes "fr_field_ok f" and "- (2 ^ 90) < x" and "x < 2 ^ 90" and "k \<le> 64"
  shows "zero_from k (fp_to_bits_le f x) \<longleftrightarrow> 0 \<le> x \<and> x < 2 ^ k"
proof -
  have pos: "0 < fr_modulus f" using fr_order [OF assms(1)] by simp
  have "x mod fr_modulus f < 2 ^ fr_bits f"
    using pos_mod_bound [OF pos, of x] assms(1) unfolding fr_field_ok_def by linarith
  then show ?thesis
    unfolding fp_to_bits_le_def
    using zero_from_map_bit [of "x mod fr_modulus f" "fr_bits f" k] pos fr_bits_large [OF assms(1)]
      assms(4) fp_small_mod [OF assms]
    by simp
qed

lemma fp_eq_small:
  assumes "fr_field_ok f" and "- (2 ^ 90) < x - y" and "x - y < 2 ^ 90"
  shows "fp_eq f x y \<longleftrightarrow> x = y"
proof
  assume "fp_eq f x y"
  then have "fr_modulus f dvd x - y" by (simp add: fp_eq_def mod_eq_dvd_iff)
  moreover have "\<bar>x - y\<bar> < fr_modulus f" using assms fr_order [OF assms(1)] by simp
  ultimately have "x - y = 0" using dvd_imp_le_int [of "x - y" "fr_modulus f"] by linarith
  then show "x = y" by simp
qed (simp add: fp_eq_def)

lemma uint_u32_bounds: "0 \<le> uint (v :: u32)" "uint v < 2 ^ 32"
  using uint_lt2p [of v] by simp_all

lemma uint_u64_bounds: "0 \<le> uint (v :: u64)" "uint v < 2 ^ 64"
  using uint_lt2p [of v] by simp_all

section \<open>The vector commitment\<close>

definition COMMIT_FIELDS :: nat where "COMMIT_FIELDS = 8"

definition ascii :: "string \<Rightarrow> bytes" where
  "ascii s = map of_char s"

definition u32_to_le_bytes :: "u32 \<Rightarrow> bytes" where
  "u32_to_le_bytes v = [ucast v, ucast (drop_bit 8 v), ucast (drop_bit 16 v), ucast (drop_bit 24 v)]"

text \<open>\<open>from_le_bytes_mod_order\<close> and \<open>from_be_bytes_mod_order\<close>.\<close>

definition fr_from_le_bytes :: "fr_field \<Rightarrow> bytes \<Rightarrow> fp" where
  "fr_from_le_bytes f bs = int (le_value bs) mod fr_modulus f"

definition fr_from_be_bytes :: "fr_field \<Rightarrow> bytes \<Rightarrow> fp" where
  "fr_from_be_bytes f bs = int (be_value bs) mod fr_modulus f"

definition CIRCUIT_DOMAIN :: bytes where
  "CIRCUIT_DOMAIN = ascii ''stellar-did-credit::score-gt-threshold::v1''"

text \<open>\<open>PedersenCommitment::new\<close>: one coefficient per field, hashed from the domain.\<close>

definition pedersen_new :: "fr_field \<Rightarrow> (bytes \<Rightarrow> bytes) \<Rightarrow> bytes \<Rightarrow> fp list" where
  "pedersen_new f sha256 domain_separator =
     map (\<lambda>i. fr_from_le_bytes f
            (sha256 (domain_separator @ ascii ''::pedersen_coeff::'' @ u32_to_le_bytes (of_nat i))))
         [0..<COMMIT_FIELDS]"

definition pedersen_commit :: "fr_field \<Rightarrow> fp list \<Rightarrow> fp list \<Rightarrow> fp \<Rightarrow> fp" where
  "pedersen_commit f coefficients values blinding =
     (foldl (\<lambda>acc (coeff, field). (acc + coeff * field) mod fr_modulus f) 0 (zip coefficients values)
      + blinding) mod fr_modulus f"

section \<open>Inputs, witness and wires of the circuit\<close>

record score_public_inputs =
  zp_threshold :: u32
  zp_subject :: fp
  zp_credit_oracle_id :: fp
  zp_score_commitment :: fp
  zp_snapshot_ledger :: u32
  zp_domain_separator :: fp

record score_witness =
  sw_score :: u32
  sw_vc_count :: u32
  sw_tx_volume_30d :: i128
  sw_avg_counterparties :: u32
  sw_repayment_rate :: u32
  sw_last_updated :: u64
  sw_computed_at_ledger :: u32
  sw_stale :: bool
  sw_vc_points :: u32
  sw_on_time_count :: u32
  sw_total_count :: u32
  sw_total_repaid :: i128
  sw_vc_weight :: u32
  sw_tx_weight :: u32
  sw_repayment_weight :: u32
  sw_vc_score :: u32
  sw_volume_score :: u32
  sw_counterparty_bonus :: u32
  sw_tx_score :: u32
  sw_repayment_rate_score :: u32
  sw_repayment_volume_score :: u32
  sw_repay_score :: u32
  sw_composite :: u32
  sw_q_volume :: u32
  sw_q_cp :: u32
  sw_q_rv :: u32
  sw_total_count_is_zero :: bool
  sw_total_count_inv :: u32
  sw_blinding :: fp

definition score_witness_default :: score_witness where
  "score_witness_default = \<lparr>sw_score = 300, sw_vc_count = 0, sw_tx_volume_30d = 0, sw_avg_counterparties = 0,
     sw_repayment_rate = 0, sw_last_updated = 0, sw_computed_at_ledger = 0, sw_stale = False,
     sw_vc_points = 0, sw_on_time_count = 0, sw_total_count = 0, sw_total_repaid = 0,
     sw_vc_weight = 60, sw_tx_weight = 0, sw_repayment_weight = 40, sw_vc_score = 0,
     sw_volume_score = 0, sw_counterparty_bonus = 0, sw_tx_score = 0,
     sw_repayment_rate_score = 0, sw_repayment_volume_score = 0, sw_repay_score = 0,
     sw_composite = 0, sw_q_volume = 0, sw_q_cp = 0, sw_q_rv = 0,
     sw_total_count_is_zero = False, sw_total_count_inv = 0, sw_blinding = 0\<rparr>"

text \<open>
  The private wires the circuit allocates: an unsigned gadget is its bits, so a value of
  the width; the two volumes are 64 bits wide. The fields \<open>total_count_is_zero\<close> and
  \<open>total_count_inv\<close> of the witness have no wire.
\<close>

record score_wires =
  wr_score :: u32
  wr_vc_count :: u32
  wr_tx_volume_30d :: u64
  wr_avg_counterparties :: u32
  wr_repayment_rate :: u32
  wr_last_updated :: u64
  wr_computed_at_ledger :: u32
  wr_stale :: bool
  wr_vc_points :: u32
  wr_on_time_count :: u32
  wr_total_count :: u32
  wr_total_repaid :: u64
  wr_vc_weight :: u32
  wr_tx_weight :: u32
  wr_repayment_weight :: u32
  wr_vc_score :: u32
  wr_volume_score :: u32
  wr_counterparty_bonus :: u32
  wr_tx_score :: u32
  wr_repayment_rate_score :: u32
  wr_repayment_volume_score :: u32
  wr_repay_score :: u32
  wr_composite :: u32
  wr_q_volume :: u32
  wr_q_cp :: u32
  wr_q_rv :: u32
  wr_blinding :: fp

text \<open>\<open>v.max(0) as u64\<close>, and the wires a witness assigns; without a witness they are zero.\<close>

definition volume_wire :: "i128 \<Rightarrow> u64" where
  "volume_wire v = ucast (i128_max v 0)"

definition wires_of_witness :: "score_witness \<Rightarrow> score_wires" where
  "wires_of_witness w = \<lparr>wr_score = sw_score w, wr_vc_count = sw_vc_count w,
     wr_tx_volume_30d = volume_wire (sw_tx_volume_30d w),
     wr_avg_counterparties = sw_avg_counterparties w, wr_repayment_rate = sw_repayment_rate w,
     wr_last_updated = sw_last_updated w, wr_computed_at_ledger = sw_computed_at_ledger w,
     wr_stale = sw_stale w, wr_vc_points = sw_vc_points w,
     wr_on_time_count = sw_on_time_count w, wr_total_count = sw_total_count w,
     wr_total_repaid = volume_wire (sw_total_repaid w), wr_vc_weight = sw_vc_weight w,
     wr_tx_weight = sw_tx_weight w, wr_repayment_weight = sw_repayment_weight w,
     wr_vc_score = sw_vc_score w, wr_volume_score = sw_volume_score w,
     wr_counterparty_bonus = sw_counterparty_bonus w, wr_tx_score = sw_tx_score w,
     wr_repayment_rate_score = sw_repayment_rate_score w,
     wr_repayment_volume_score = sw_repayment_volume_score w, wr_repay_score = sw_repay_score w,
     wr_composite = sw_composite w, wr_q_volume = sw_q_volume w, wr_q_cp = sw_q_cp w,
     wr_q_rv = sw_q_rv w, wr_blinding = sw_blinding w\<rparr>"

definition zero_wires :: score_wires where
  "zero_wires = \<lparr>wr_score = 0, wr_vc_count = 0, wr_tx_volume_30d = 0, wr_avg_counterparties = 0,
     wr_repayment_rate = 0, wr_last_updated = 0, wr_computed_at_ledger = 0, wr_stale = False,
     wr_vc_points = 0, wr_on_time_count = 0, wr_total_count = 0, wr_total_repaid = 0,
     wr_vc_weight = 0, wr_tx_weight = 0, wr_repayment_weight = 0, wr_vc_score = 0,
     wr_volume_score = 0, wr_counterparty_bonus = 0, wr_tx_score = 0,
     wr_repayment_rate_score = 0, wr_repayment_volume_score = 0, wr_repay_score = 0,
     wr_composite = 0, wr_q_volume = 0, wr_q_cp = 0, wr_q_rv = 0, wr_blinding = 0\<rparr>"

definition assigned_wires :: "score_witness option \<Rightarrow> score_wires" where
  "assigned_wires w = (case w of Some w \<Rightarrow> wires_of_witness w | None \<Rightarrow> zero_wires)"

section \<open>The constraints\<close>

text \<open>\<open>(x - a) * (x - b) == 0\<close> in the field.\<close>

definition one_of :: "fr_field \<Rightarrow> fp \<Rightarrow> fp \<Rightarrow> fp \<Rightarrow> bool" where
  "one_of f x a b = fp_eq f ((x - a) * (x - b)) 0"

definition c1_score_above :: "fr_field \<Rightarrow> score_public_inputs \<Rightarrow> score_wires \<Rightarrow> bool" where
  "c1_score_above f pub w = enforce_u32_gt_fp f (wr_score w) (uint (zp_threshold pub))"

definition c2_vc_score :: "fr_field \<Rightarrow> score_wires \<Rightarrow> bool" where
  "c2_vc_score f w \<longleftrightarrow>
     zero_from 7 (uint_to_bits_le (wr_vc_score w))
   \<and> one_of f (uint32_to_fp (wr_vc_score w)) (uint32_to_fp (wr_vc_points w)) 100"

definition c3_volume_score :: "fr_field \<Rightarrow> score_wires \<Rightarrow> bool" where
  "c3_volume_score f w \<longleftrightarrow>
     (let vol_diff = uint64_to_fp (wr_tx_volume_30d w) - uint32_to_fp (wr_q_volume w) * 100000000
      in zero_from 27 (fp_to_bits_le f vol_diff))
   \<and> zero_from 7 (uint_to_bits_le (wr_volume_score w))
   \<and> one_of f (uint32_to_fp (wr_volume_score w)) (uint32_to_fp (wr_q_volume w)) 80"

definition c4_counterparty_bonus :: "fr_field \<Rightarrow> score_wires \<Rightarrow> bool" where
  "c4_counterparty_bonus f w \<longleftrightarrow>
     (let cp_diff = uint32_to_fp (wr_avg_counterparties w) - uint32_to_fp (wr_q_cp w) * 5
      in zero_from 3 (fp_to_bits_le f cp_diff))
   \<and> zero_from 5 (uint_to_bits_le (wr_counterparty_bonus w))
   \<and> one_of f (uint32_to_fp (wr_counterparty_bonus w)) (uint32_to_fp (wr_q_cp w)) 20"

definition c5_tx_score :: "fr_field \<Rightarrow> score_wires \<Rightarrow> bool" where
  "c5_tx_score f w \<longleftrightarrow>
     zero_from 7 (uint_to_bits_le (wr_tx_score w))
   \<and> one_of f (uint32_to_fp (wr_tx_score w))
       (uint32_to_fp (wr_volume_score w) + uint32_to_fp (wr_counterparty_bonus w)) 100"

definition c6_repayment_rate :: "fr_field \<Rightarrow> score_wires \<Rightarrow> bool" where
  "c6_repayment_rate f w \<longleftrightarrow>
     zero_from 7 (uint_to_bits_le (wr_repayment_rate_score w))
   \<and> (let rr_diff = uint32_to_fp (wr_on_time_count w) * 100
                     - uint32_to_fp (wr_repayment_rate_score w) * uint32_to_fp (wr_total_count w);
          total_minus_rr = uint32_to_fp (wr_total_count w) - rr_diff
      in zero_from 32 (fp_to_bits_le f rr_diff) \<and> zero_from 32 (fp_to_bits_le f total_minus_rr))"

definition c7_repayment_volume :: "fr_field \<Rightarrow> score_wires \<Rightarrow> bool" where
  "c7_repayment_volume f w \<longleftrightarrow>
     (let rv_diff = uint64_to_fp (wr_total_repaid w) - uint32_to_fp (wr_q_rv w) * 100000000
      in zero_from 27 (fp_to_bits_le f rv_diff))
   \<and> zero_from 7 (uint_to_bits_le (wr_repayment_volume_score w))
   \<and> one_of f (uint32_to_fp (wr_repayment_volume_score w)) (uint32_to_fp (wr_q_rv w)) 100"

definition c8_repay_score :: "fr_field \<Rightarrow> score_wires \<Rightarrow> bool" where
  "c8_repay_score f w \<longleftrightarrow>
     fp_eq f (uint32_to_fp (wr_repay_score w) * 2)
       (uint32_to_fp (wr_repayment_rate_score w) + uint32_to_fp (wr_repayment_volume_score w))"

definition c9_composite :: "fr_field \<Rightarrow> score_wires \<Rightarrow> bool" where
  "c9_composite f w \<longleftrightarrow>
     (let numerator = uint32_to_fp (wr_vc_score w) * uint32_to_fp (wr_vc_weight w)
                    + uint32_to_fp (wr_tx_score w) * uint32_to_fp (wr_tx_weight w)
                    + uint32_to_fp (wr_repay_score w) * uint32_to_fp (wr_repayment_weight w);
          comp_diff = numerator - uint32_to_fp (wr_composite w) * 100
      in zero_from 7 (fp_to_bits_le f comp_diff))
   \<and> zero_from 7 (uint_to_bits_le (wr_composite w))"

definition c10_score :: "fr_field \<Rightarrow> score_wires \<Rightarrow> bool" where
  "c10_score f w \<longleftrightarrow>
     (let score_diff = uint32_to_fp (wr_composite w) * 550 - (uint32_to_fp (wr_score w) - 300) * 100
      in zero_from 7 (fp_to_bits_le f score_diff))
   \<and> zero_from 10 (uint_to_bits_le (wr_score w))"

text \<open>The fields the circuit commits to, and the commitment it opens.\<close>

definition committed_fields :: "score_wires \<Rightarrow> fp list" where
  "committed_fields w =
     [uint32_to_fp (wr_score w), uint32_to_fp (wr_vc_count w), uint64_to_fp (wr_tx_volume_30d w),
      uint32_to_fp (wr_avg_counterparties w), uint32_to_fp (wr_repayment_rate w),
      uint64_to_fp (wr_last_updated w), uint32_to_fp (wr_computed_at_ledger w),
      boolean_to_fp (wr_stale w)]"

definition c11_commitment ::
  "fr_field \<Rightarrow> (bytes \<Rightarrow> bytes) \<Rightarrow> score_public_inputs \<Rightarrow> score_wires \<Rightarrow> bool" where
  "c11_commitment f sha256 pub w \<longleftrightarrow>
     fp_eq f (foldl (\<lambda>acc (coeff, field). acc + field * coeff) 0
               (zip (pedersen_new f sha256 CIRCUIT_DOMAIN) (committed_fields w)) + wr_blinding w)
       (zp_score_commitment pub)"

definition circuit_sat ::
  "fr_field \<Rightarrow> (bytes \<Rightarrow> bytes) \<Rightarrow> score_public_inputs \<Rightarrow> score_wires \<Rightarrow> bool" where
  "circuit_sat f sha256 pub w \<longleftrightarrow>
     c1_score_above f pub w \<and> c2_vc_score f w \<and> c3_volume_score f w
   \<and> c4_counterparty_bonus f w \<and> c5_tx_score f w \<and> c6_repayment_rate f w
   \<and> c7_repayment_volume f w \<and> c8_repay_score f w \<and> c9_composite f w
   \<and> c10_score f w \<and> c11_commitment f sha256 pub w"

text \<open>The public inputs in the order the circuit allocates them (\<open>verify_proof\<close>).\<close>

definition public_input_vector :: "score_public_inputs \<Rightarrow> fp list" where
  "public_input_vector pub =
     [uint (zp_threshold pub), zp_subject pub, zp_credit_oracle_id pub, zp_score_commitment pub,
      uint (zp_snapshot_ledger pub), zp_domain_separator pub]"

section \<open>What the circuit accepts, on numbers\<close>

lemmas fp_fits_num = fp_fits [simplified]
lemmas fp_eq_num = fp_eq_small [simplified]
lemmas u32_num = unat_u32_less [simplified]
lemmas u64_num = unat_u64_less [simplified]

lemma uint_eq_unat: "uint (v :: 'a::len word) = int (unat v)"
  by simp

lemma enforce_gte_iff:
  assumes "fr_field_ok f"
  shows "enforce_u32_gte f v b \<longleftrightarrow> b \<le> v"
  unfolding enforce_u32_gte_def Let_def uint_to_fp uint_eq_unat word_le_nat_alt
  by (subst fp_fits_num [OF assms]) (use u32_num [of v] u32_num [of b] in \<open>auto simp del: of_nat_unat\<close>)

lemma enforce_gt_fp_iff:
  assumes "fr_field_ok f"
  shows "enforce_u32_gt_fp f v (uint (b :: u32)) \<longleftrightarrow> b < v"
  unfolding enforce_u32_gt_fp_def Let_def uint_to_fp uint_eq_unat word_less_nat_alt
  by (subst fp_fits_num [OF assms]) (use u32_num [of v] u32_num [of b] in \<open>auto simp del: of_nat_unat\<close>)

lemma enforce_less_than_iff:
  assumes "fr_field_ok f"
  shows "enforce_u32_less_than f v b \<longleftrightarrow> unat v < max 1 (unat b)"
proof -
  have s: "uint (saturating_sub b 1) = int (unat b - 1)"
    unfolding uint_eq_unat unat_saturating_sub by simp
  have "enforce_u32_less_than f v b \<longleftrightarrow> int (unat v) \<le> int (unat b - 1)"
    unfolding enforce_u32_less_than_def Let_def uint_to_fp s uint_eq_unat [of v]
    by (subst fp_fits_num [OF assms]) (use u32_num [of v] u32_num [of b] in \<open>auto simp del: of_nat_unat\<close>)
  then show ?thesis by (auto simp: max_def simp del: of_nat_unat)
qed

lemma zero_from_range: "zero_from k (uint_to_bits_le (w :: 'a::len word)) \<longleftrightarrow> unat w < 2 ^ k"
proof (cases "k \<le> LENGTH('a)")
  case True
  have "uint w < 2 ^ k \<longleftrightarrow> int (unat w) < int (2 ^ k)" by simp
  then show ?thesis using zero_from_uint [OF True, of w] by (simp only: of_nat_less_iff)
next
  case False
  have "unat w < 2 ^ LENGTH('a)" by simp
  also have "\<dots> \<le> 2 ^ k" using False by (intro power_increasing) auto
  finally show ?thesis using False by (simp add: zero_from_def uint_to_bits_le_def)
qed

text \<open>The range gadgets, exactly, over any field large enough: \<open>enforce_u32_gte\<close>, the comparison with a
  public input and the bit ranges are what they say; but \<open>enforce_u32_less_than\<close> accepts the value 0
  for the bound 0, and \<open>enforce_u32_gt\<close> accepts the largest value for the largest bound, because the
  bounds saturate.\<close>

theorem zk_gadgets_exact:
  assumes "fr_field_ok f"
  shows "(enforce_u32_gte f v b \<longleftrightarrow> unat b \<le> unat v)
    \<and> (enforce_u32_gt_fp f v (uint b) \<longleftrightarrow> unat b < unat v)
    \<and> (enforce_u32_less_than f v b \<longleftrightarrow> unat v < unat b \<or> unat v = 0 \<and> unat b = 0)
    \<and> (enforce_u32_gt f v b \<longleftrightarrow> unat b < unat v \<or> unat v = 2 ^ 32 - 1 \<and> unat b = 2 ^ 32 - 1)
    \<and> (enforce_u32_range v k \<longleftrightarrow> unat v < 2 ^ k)
    \<and> (enforce_u64_range u k \<longleftrightarrow> unat u < 2 ^ k)"
proof -
  have "saturating_add b 1 \<le> v \<longleftrightarrow> min (unat b + 1) (2 ^ 32 - 1) \<le> unat v"
    by (simp add: word_le_nat_alt unat_saturating_add)
  also have "\<dots> \<longleftrightarrow> unat b < unat v \<or> unat v = 2 ^ 32 - 1 \<and> unat b = 2 ^ 32 - 1"
    using unat_u32_less [of v] unat_u32_less [of b] by (auto simp: min_def)
  finally have gt: "enforce_u32_gt f v b \<longleftrightarrow> unat b < unat v \<or> unat v = 2 ^ 32 - 1 \<and> unat b = 2 ^ 32 - 1"
    by (simp add: enforce_u32_gt_def enforce_gte_iff [OF assms])
  have "enforce_u32_less_than f v b \<longleftrightarrow> unat v < unat b \<or> unat v = 0 \<and> unat b = 0"
    unfolding enforce_less_than_iff [OF assms] by (auto simp: max_def)
  then show ?thesis
    using gt enforce_gte_iff [OF assms, of v b] enforce_gt_fp_iff [OF assms, of v b]
    by (simp add: enforce_u32_range_def enforce_u64_range_def zero_from_range word_le_nat_alt word_less_nat_alt)
qed

text \<open>The field of BLS12-381 scalars, and a stand-in for SHA-256.\<close>

definition zk_demo_field :: fr_field where
  "zk_demo_field = \<lparr>fr_modulus = 52435875175126190479447740508185965837690552500527637822603658699938581184513,
     fr_bits = 255\<rparr>"

definition zk_demo_sha :: "bytes \<Rightarrow> bytes" where
  "zk_demo_sha bs = [of_nat (length bs)]"

lemma zk_demo_field_ok: "fr_field_ok zk_demo_field"
  by (simp add: fr_field_ok_def zk_demo_field_def)

theorem zk_gadgets_exact_witness:
  "enforce_u32_less_than zk_demo_field 0 0 \<and> enforce_u32_gt zk_demo_field (- 1) (- 1)
   \<and> \<not> enforce_u32_gt zk_demo_field 600 600 \<and> enforce_u32_range 127 7"
proof -
  have "unat (- 1 :: u32) = 2 ^ 32 - 1" by (simp add: unat_max_word)
  then show ?thesis
    using zk_gadgets_exact [OF zk_demo_field_ok, of 0 0 7 0] zk_gadgets_exact [OF zk_demo_field_ok, of "- 1" "- 1" 7 0]
      zk_gadgets_exact [OF zk_demo_field_ok, of 600 600 7 0] zk_gadgets_exact [OF zk_demo_field_ok, of 127 127 7 0]
    by simp
qed

subsection \<open>The constraint system\<close>

definition either_of :: "nat \<Rightarrow> nat \<Rightarrow> nat \<Rightarrow> nat \<Rightarrow> bool" where
  "either_of bound x a b \<longleftrightarrow> x < bound \<and> (x = a \<or> x = b)"

definition quotient_within :: "nat \<Rightarrow> nat \<Rightarrow> nat \<Rightarrow> nat \<Rightarrow> bool" where
  "quotient_within slack x q d \<longleftrightarrow> q * d \<le> x \<and> x < q * d + slack"

text \<open>The statement the constraints make about the values on the wires, without a field.\<close>

definition circuit_meaning ::
  "fr_field \<Rightarrow> (bytes \<Rightarrow> bytes) \<Rightarrow> score_public_inputs \<Rightarrow> score_wires \<Rightarrow> bool" where
  "circuit_meaning f sha256 pub w \<longleftrightarrow>
     unat (zp_threshold pub) < unat (wr_score w)
   \<and> either_of 128 (unat (wr_vc_score w)) (unat (wr_vc_points w)) 100
   \<and> quotient_within (2 ^ 27) (unat (wr_tx_volume_30d w)) (unat (wr_q_volume w)) 100000000
   \<and> either_of 128 (unat (wr_volume_score w)) (unat (wr_q_volume w)) 80
   \<and> quotient_within 8 (unat (wr_avg_counterparties w)) (unat (wr_q_cp w)) 5
   \<and> either_of 32 (unat (wr_counterparty_bonus w)) (unat (wr_q_cp w)) 20
   \<and> either_of 128 (unat (wr_tx_score w)) (unat (wr_volume_score w) + unat (wr_counterparty_bonus w)) 100
   \<and> unat (wr_repayment_rate_score w) < 128
   \<and> unat (wr_repayment_rate_score w) * unat (wr_total_count w) \<le> unat (wr_on_time_count w) * 100
   \<and> unat (wr_on_time_count w) * 100
        \<le> unat (wr_repayment_rate_score w) * unat (wr_total_count w) + unat (wr_total_count w)
   \<and> quotient_within (2 ^ 27) (unat (wr_total_repaid w)) (unat (wr_q_rv w)) 100000000
   \<and> either_of 128 (unat (wr_repayment_volume_score w)) (unat (wr_q_rv w)) 100
   \<and> 2 * unat (wr_repay_score w) = unat (wr_repayment_rate_score w) + unat (wr_repayment_volume_score w)
   \<and> quotient_within 128
       (unat (wr_vc_score w) * unat (wr_vc_weight w) + unat (wr_tx_score w) * unat (wr_tx_weight w)
        + unat (wr_repay_score w) * unat (wr_repayment_weight w)) (unat (wr_composite w)) 100
   \<and> unat (wr_composite w) < 128
   \<and> quotient_within 128 (unat (wr_composite w) * 550 + 30000) (unat (wr_score w)) 100
   \<and> unat (wr_score w) < 1024
   \<and> c11_commitment f sha256 pub w"

lemma one_of_iff:
  assumes "fr_field_ok f" and "x < 2 ^ 40" and "a < 2 ^ 40" and "b < 2 ^ 40"
  shows "one_of f (int x) (int a) (int b) \<longleftrightarrow> x = a \<or> x = b"
proof -
  have "\<bar>int x - int a\<bar> \<le> 2 ^ 40" "\<bar>int x - int b\<bar> \<le> 2 ^ 40"
    using assms by (simp_all add: abs_le_iff)
  then have "\<bar>(int x - int a) * (int x - int b)\<bar> \<le> 2 ^ 40 * 2 ^ 40"
    unfolding abs_mult by (intro mult_mono) simp_all
  then have "- (2 ^ 90) < (int x - int a) * (int x - int b) - 0" "(int x - int a) * (int x - int b) - 0 < 2 ^ 90"
    by (simp_all add: abs_le_iff)
  from fp_eq_small [OF assms(1) this] show ?thesis
    by (auto simp: one_of_def)
qed

lemma product_u32: "int (unat (x :: u32)) * int (unat (y :: u32)) < 2 ^ 64"
proof -
  have "unat x * unat y < 2 ^ 32 * 2 ^ 32"
    using unat_u32_less [of x] unat_u32_less [of y] by (intro mult_strict_mono') simp_all
  then have "int (unat x * unat y) < int (2 ^ 64)" by (simp only: of_nat_less_iff) simp
  then show ?thesis by simp
qed

lemmas product_num = product_u32 [simplified]

lemma fits_quotient:
  assumes "fr_field_ok f" and "x < 2 ^ 70" and "q * d < 2 ^ 70" and "k \<le> 64"
  shows "zero_from k (fp_to_bits_le f (int x - int q * int d)) \<longleftrightarrow> quotient_within (2 ^ k) x q d"
proof -
  have l: "int x < 2 ^ 70" "int q * int d < 2 ^ 70"
    using assms(2,3) by (simp_all flip: of_nat_mult)
  have nn: "0 \<le> int x" "0 \<le> int q * int d" by simp_all
  have p: "(2 :: int) ^ 70 < 2 ^ 90" by simp
  have "- (2 ^ 90) < int x - int q * int d" using l nn p by linarith
  moreover have "int x - int q * int d < 2 ^ 90" using l nn p by linarith
  ultimately have "zero_from k (fp_to_bits_le f (int x - int q * int d))
      \<longleftrightarrow> 0 \<le> int x - int q * int d \<and> int x - int q * int d < 2 ^ k"
    using fp_fits [OF assms(1) _ _ assms(4)] by blast
  also have "\<dots> \<longleftrightarrow> int (q * d) \<le> int x \<and> int x < int (q * d + 2 ^ k)" by auto
  also have "\<dots> \<longleftrightarrow> quotient_within (2 ^ k) x q d"
    unfolding quotient_within_def by (simp only: of_nat_le_iff of_nat_less_iff)
  finally show ?thesis .
qed

lemma unat_num: "unat (v :: u32) < 2 ^ 40" "unat (u :: u64) < 2 ^ 70"
  using unat_u32_less [of v] unat_u64_less [of u] by simp_all

lemma one_of_words:
  assumes "fr_field_ok f" and "b < 2 ^ 40"
  shows "one_of f (uint32_to_fp x) (uint32_to_fp a) (int b) \<longleftrightarrow> unat x = unat a \<or> unat x = b"
  unfolding uint_to_fp uint_eq_unat by (rule one_of_iff [OF assms(1) unat_num(1) unat_num(1) assms(2)])

lemma c2_meaning:
  assumes "fr_field_ok f"
  shows "c2_vc_score f w \<longleftrightarrow> either_of 128 (unat (wr_vc_score w)) (unat (wr_vc_points w)) 100"
  using one_of_words [OF assms, of 100 "wr_vc_score w" "wr_vc_points w"]
  by (simp add: c2_vc_score_def either_of_def zero_from_range)

lemma volume_meaning:
  assumes "fr_field_ok f"
  shows "zero_from 27 (fp_to_bits_le f (uint64_to_fp v - uint32_to_fp q * 100000000))
    \<longleftrightarrow> quotient_within (2 ^ 27) (unat v) (unat q) 100000000"
proof -
  have "unat q * 100000000 < 2 ^ 70" using unat_u32_less [of q] by simp
  from fits_quotient [OF assms unat_num(2) this, of 27 v] show ?thesis
    by (simp add: uint_eq_unat del: of_nat_unat)
qed

lemma c3_meaning:
  assumes "fr_field_ok f"
  shows "c3_volume_score f w \<longleftrightarrow>
    quotient_within (2 ^ 27) (unat (wr_tx_volume_30d w)) (unat (wr_q_volume w)) 100000000
    \<and> either_of 128 (unat (wr_volume_score w)) (unat (wr_q_volume w)) 80"
  using one_of_words [OF assms, of 80 "wr_volume_score w" "wr_q_volume w"]
  by (simp add: c3_volume_score_def either_of_def zero_from_range volume_meaning [OF assms, simplified] Let_def)

lemma c7_meaning:
  assumes "fr_field_ok f"
  shows "c7_repayment_volume f w \<longleftrightarrow>
    quotient_within (2 ^ 27) (unat (wr_total_repaid w)) (unat (wr_q_rv w)) 100000000
    \<and> either_of 128 (unat (wr_repayment_volume_score w)) (unat (wr_q_rv w)) 100"
  using one_of_words [OF assms, of 100 "wr_repayment_volume_score w" "wr_q_rv w"]
  by (simp add: c7_repayment_volume_def either_of_def zero_from_range volume_meaning [OF assms, simplified] Let_def)

lemma c4_meaning:
  assumes "fr_field_ok f"
  shows "c4_counterparty_bonus f w \<longleftrightarrow>
    quotient_within 8 (unat (wr_avg_counterparties w)) (unat (wr_q_cp w)) 5
    \<and> either_of 32 (unat (wr_counterparty_bonus w)) (unat (wr_q_cp w)) 20"
proof -
  have "unat (wr_q_cp w) * 5 < 2 ^ 70" "unat (wr_avg_counterparties w) < 2 ^ 70"
    using unat_u32_less [of "wr_q_cp w"] unat_u32_less [of "wr_avg_counterparties w"] by simp_all
  from fits_quotient [OF assms this(2,1), of 3]
  have "zero_from 3 (fp_to_bits_le f (uint32_to_fp (wr_avg_counterparties w) - uint32_to_fp (wr_q_cp w) * 5))
    \<longleftrightarrow> quotient_within 8 (unat (wr_avg_counterparties w)) (unat (wr_q_cp w)) 5" by simp
  then show ?thesis
    using one_of_words [OF assms, of 20 "wr_counterparty_bonus w" "wr_q_cp w"]
    by (simp add: c4_counterparty_bonus_def either_of_def zero_from_range Let_def)
qed

lemma c5_meaning:
  assumes "fr_field_ok f"
  shows "c5_tx_score f w \<longleftrightarrow>
    either_of 128 (unat (wr_tx_score w)) (unat (wr_volume_score w) + unat (wr_counterparty_bonus w)) 100"
proof -
  have "unat (wr_volume_score w) + unat (wr_counterparty_bonus w) < 2 ^ 40"
    using unat_u32_less [of "wr_volume_score w"] unat_u32_less [of "wr_counterparty_bonus w"] by simp
  from one_of_iff [OF assms unat_num(1) this, of 100 "wr_tx_score w"] show ?thesis
    by (simp add: c5_tx_score_def either_of_def zero_from_range)
qed

lemma c6_meaning:
  assumes "fr_field_ok f"
  shows "c6_repayment_rate f w \<longleftrightarrow>
    unat (wr_repayment_rate_score w) < 128
    \<and> unat (wr_repayment_rate_score w) * unat (wr_total_count w) \<le> unat (wr_on_time_count w) * 100
    \<and> unat (wr_on_time_count w) * 100
        \<le> unat (wr_repayment_rate_score w) * unat (wr_total_count w) + unat (wr_total_count w)"
proof -
  define r n t where "r = unat (wr_repayment_rate_score w)" and "n = unat (wr_on_time_count w)"
    and "t = unat (wr_total_count w)"
  have t: "t < 2 ^ 32" and on: "n < 2 ^ 32"
    unfolding t_def n_def using unat_u32_less by simp_all
  define k where "k = r * t"
  have kk: "int r * int t = int k" by (simp add: k_def)
  have k: "int k < 2 ^ 64" using product_u32 [of "wr_repayment_rate_score w" "wr_total_count w"]
    unfolding kk [symmetric] r_def t_def .
  let ?d = "int n * 100 - int r * int t"
  have d: "- (2 ^ 90) < ?d" "?d < 2 ^ 90" "- (2 ^ 90) < int t - ?d" "int t - ?d < 2 ^ 90"
    unfolding kk using k t on by simp_all
  have "c6_repayment_rate f w \<longleftrightarrow> r < 128 \<and> (0 \<le> ?d \<and> ?d < 2 ^ 32) \<and> (0 \<le> int t - ?d \<and> int t - ?d < 2 ^ 32)"
    using fp_fits [OF assms d(1,2), of 32] fp_fits [OF assms d(3,4), of 32]
    unfolding c6_repayment_rate_def Let_def uint_to_fp uint_eq_unat zero_from_range r_def n_def t_def
    by (simp del: of_nat_unat)
  also have "\<dots> \<longleftrightarrow> r < 128 \<and> int (r * t) \<le> int (n * 100) \<and> int (n * 100) \<le> int (r * t + t)"
    using t by auto
  also have "\<dots> \<longleftrightarrow> r < 128 \<and> r * t \<le> n * 100 \<and> n * 100 \<le> r * t + t"
    by (simp only: of_nat_le_iff)
  finally show ?thesis unfolding r_def n_def t_def .
qed

lemma c8_meaning:
  assumes "fr_field_ok f"
  shows "c8_repay_score f w \<longleftrightarrow>
    2 * unat (wr_repay_score w) = unat (wr_repayment_rate_score w) + unat (wr_repayment_volume_score w)"
  unfolding c8_repay_score_def uint_to_fp uint_eq_unat
  by (subst fp_eq_num [OF assms])
    (use u32_num [of "wr_repay_score w"] u32_num [of "wr_repayment_rate_score w"]
       u32_num [of "wr_repayment_volume_score w"] in \<open>auto simp del: of_nat_unat\<close>)

lemma c9_meaning:
  assumes "fr_field_ok f"
  shows "c9_composite f w \<longleftrightarrow>
    quotient_within 128
      (unat (wr_vc_score w) * unat (wr_vc_weight w) + unat (wr_tx_score w) * unat (wr_tx_weight w)
       + unat (wr_repay_score w) * unat (wr_repayment_weight w)) (unat (wr_composite w)) 100
    \<and> unat (wr_composite w) < 128"
proof -
  let ?n = "unat (wr_vc_score w) * unat (wr_vc_weight w) + unat (wr_tx_score w) * unat (wr_tx_weight w)
       + unat (wr_repay_score w) * unat (wr_repayment_weight w)"
  have "int ?n < int (2 ^ 70)"
    using product_u32 [of "wr_vc_score w" "wr_vc_weight w"] product_u32 [of "wr_tx_score w" "wr_tx_weight w"]
      product_u32 [of "wr_repay_score w" "wr_repayment_weight w"] by simp
  then have n: "?n < 2 ^ 70" by (simp only: of_nat_less_iff)
  have q: "unat (wr_composite w) * 100 < 2 ^ 70" using unat_u32_less [of "wr_composite w"] by simp
  show ?thesis
    using fits_quotient [OF assms n q, of 7] by (simp add: c9_composite_def zero_from_range Let_def)
qed

lemma c10_meaning:
  assumes "fr_field_ok f"
  shows "c10_score f w \<longleftrightarrow>
    quotient_within 128 (unat (wr_composite w) * 550 + 30000) (unat (wr_score w)) 100
    \<and> unat (wr_score w) < 1024"
proof -
  have "unat (wr_composite w) * 550 + 30000 < 2 ^ 70" "unat (wr_score w) * 100 < 2 ^ 70"
    using unat_u32_less [of "wr_composite w"] unat_u32_less [of "wr_score w"] by simp_all
  from fits_quotient [OF assms this, of 7] show ?thesis
    by (simp add: c10_score_def zero_from_range Let_def algebra_simps)
qed

lemmas constraint_meanings = c2_meaning c3_meaning c4_meaning c5_meaning c6_meaning c7_meaning c8_meaning
  c9_meaning c10_meaning

lemma sat_meaning:
  assumes "fr_field_ok f"
  shows "circuit_sat f sha pub w \<longleftrightarrow> circuit_meaning f sha pub w"
  unfolding circuit_sat_def circuit_meaning_def constraint_meanings [OF assms]
    c1_score_above_def enforce_gt_fp_iff [OF assms] word_less_nat_alt
  by blast

subsection \<open>The commitment\<close>

lemma foldl_mod:
  "foldl (\<lambda>acc (c, v). (acc + c * v) mod m) x xs mod m = foldl (\<lambda>acc (c, v). acc + v * c) (x :: int) xs mod m"
proof (induction xs arbitrary: x rule: rev_induct)
  case (snoc y ys)
  obtain c v where y: "y = (c, v)" by (cases y)
  let ?a = "foldl (\<lambda>acc (c, v). (acc + c * v) mod m) x ys" and ?b = "foldl (\<lambda>acc (c, v). acc + v * c) x ys"
  have "(?a + c * v) mod m = (?b + c * v) mod m"
    using snoc.IH [of x] by (rule mod_add_cong) (rule refl)
  then show ?case by (simp add: y mult.commute)
qed simp

text \<open>The commitment is the sum of fields times coefficients plus the blinding: any value can be
  opened to any fields.\<close>

definition field_sum :: "fr_field \<Rightarrow> (bytes \<Rightarrow> bytes) \<Rightarrow> score_wires \<Rightarrow> fp" where
  "field_sum f sha256 w = foldl (\<lambda>acc (coeff, v). acc + v * coeff) 0
     (zip (pedersen_new f sha256 CIRCUIT_DOMAIN) (committed_fields w))"

lemma c11_iff:
  "c11_commitment f sha pub w \<longleftrightarrow> fp_eq f (field_sum f sha w + wr_blinding w) (zp_score_commitment pub)"
  by (simp add: c11_commitment_def field_sum_def)

lemma field_sum_cong:
  "committed_fields w = committed_fields w' \<Longrightarrow> field_sum f sha w = field_sum f sha w'"
  by (simp add: field_sum_def)

lemma commitment_openable:
  "c11_commitment f sha pub (w\<lparr>wr_blinding := zp_score_commitment pub - field_sum f sha w\<rparr>)"
  unfolding c11_iff
  by (subst field_sum_cong [of _ w]) (simp_all add: committed_fields_def fp_eq_def)

subsection \<open>Equivalence and forgery\<close>

text \<open>Public inputs for the witnesses.\<close>

definition zk_demo_public :: score_public_inputs where
  "zk_demo_public = \<lparr>zp_threshold = 900, zp_subject = 1, zp_credit_oracle_id = 2, zp_score_commitment = 12345,
     zp_snapshot_ledger = 12345, zp_domain_separator = 3\<rparr>"

text \<open>C33: The constraint system over the scalar field says the same as its reading on the natural numbers
  of the wires, whatever field above \<open>2^100\<close> it is compiled for: no difference or product wraps around
  the modulus. The quotients and minima are only bounded by powers of two and by one of two
  values, as \<open>circuit_meaning\<close> spells out.\<close>

theorem zk_circuit_meaning:
  assumes "fr_field_ok f"
  shows "circuit_sat f sha pub w \<longleftrightarrow> circuit_meaning f sha pub w"
  by (rule sat_meaning [OF assms])

theorem zk_circuit_meaning_witness:
  "\<not> circuit_sat zk_demo_field zk_demo_sha zk_demo_public (zero_wires\<lparr>wr_score := 1024\<rparr>)"
  unfolding zk_circuit_meaning [OF zk_demo_field_ok] by (simp add: circuit_meaning_def)

text \<open>The assignment that claims the highest score with nothing to show for it.\<close>

definition forged_wires :: "fr_field \<Rightarrow> (bytes \<Rightarrow> bytes) \<Rightarrow> score_public_inputs \<Rightarrow> score_wires" where
  "forged_wires f sha256 pub =
     (let w = zero_wires\<lparr>wr_score := 998, wr_vc_weight := 127, wr_vc_score := 100, wr_composite := 127\<rparr>
      in w\<lparr>wr_blinding := zp_score_commitment pub - field_sum f sha256 w\<rparr>)"

lemma forged_meaning:
  "circuit_meaning f sha pub (forged_wires f sha pub) \<longleftrightarrow> unat (zp_threshold pub) < 998"
  unfolding circuit_meaning_def
  by (simp add: forged_wires_def Let_def commitment_openable)
    (simp add: zero_wires_def either_of_def quotient_within_def)

lemma meaning_score_le:
  assumes "circuit_meaning f sha pub w"
  shows "unat (zp_threshold pub) < unat (wr_score w) \<and> unat (wr_score w) \<le> 998"
proof -
  have "unat (wr_score w) * 100 \<le> unat (wr_composite w) * 550 + 30000" "unat (wr_composite w) < 128"
    "unat (zp_threshold pub) < unat (wr_score w)"
    using assms by (simp_all add: circuit_meaning_def quotient_within_def)
  then show ?thesis by linarith
qed

text \<open>The circuit does not prove what it claims: for every commitment, subject and oracle, a satisfying
  assignment exists exactly when the threshold is below 998, and then there is one whose credential
  points, volume, counterparties, repayments and repaid amount are all zero. The score itself
  is bounded by 998 only, above the maximum of 850.\<close>

theorem zk_circuit_forgeable:
  assumes "fr_field_ok f"
  shows "((\<exists>w. circuit_sat f sha pub w) \<longleftrightarrow> unat (zp_threshold pub) < 998)
    \<and> (unat (zp_threshold pub) < 998 \<longleftrightarrow>
        circuit_sat f sha pub (forged_wires f sha pub) \<and> unat (wr_score (forged_wires f sha pub)) = 998
        \<and> wr_vc_points (forged_wires f sha pub) = 0 \<and> wr_tx_volume_30d (forged_wires f sha pub) = 0
        \<and> wr_avg_counterparties (forged_wires f sha pub) = 0 \<and> wr_on_time_count (forged_wires f sha pub) = 0
        \<and> wr_total_count (forged_wires f sha pub) = 0 \<and> wr_total_repaid (forged_wires f sha pub) = 0)
    \<and> (circuit_sat f sha pub w \<longrightarrow> unat (zp_threshold pub) < unat (wr_score w) \<and> unat (wr_score w) \<le> 998)"
proof -
  have vals: "unat (wr_score (forged_wires f sha pub)) = 998" "wr_vc_points (forged_wires f sha pub) = 0"
    "wr_tx_volume_30d (forged_wires f sha pub) = 0" "wr_avg_counterparties (forged_wires f sha pub) = 0"
    "wr_on_time_count (forged_wires f sha pub) = 0" "wr_total_count (forged_wires f sha pub) = 0"
    "wr_total_repaid (forged_wires f sha pub) = 0"
    by (simp_all add: forged_wires_def zero_wires_def Let_def)
  have le: "circuit_sat f sha pub w \<Longrightarrow> unat (zp_threshold pub) < unat (wr_score w) \<and> unat (wr_score w) \<le> 998"
    for w using meaning_score_le unfolding sat_meaning [OF assms] by blast
  have ex: "circuit_sat f sha pub (forged_wires f sha pub) \<longleftrightarrow> unat (zp_threshold pub) < 998"
    unfolding sat_meaning [OF assms] by (rule forged_meaning)
  then have "(\<exists>w. circuit_sat f sha pub w) \<longleftrightarrow> unat (zp_threshold pub) < 998"
    using le by (meson order_less_le_trans)
  then show ?thesis using ex vals le [of w] by blast
qed

theorem zk_circuit_forgeable_witness:
  "\<exists>w. circuit_sat zk_demo_field zk_demo_sha zk_demo_public w \<and> unat (zp_threshold zk_demo_public) = 900"
proof -
  have "unat (zp_threshold zk_demo_public) = 900" by (simp add: zk_demo_public_def)
  then show ?thesis using zk_circuit_forgeable [OF zk_demo_field_ok, of zk_demo_sha zk_demo_public] by simp
qed

end
