(* ===== verification/Zk_Prover.thy ===== *)
theory Zk_Prover
  imports Zk_Circuit
begin

text \<open>
  The honest prover of the circuit: the reference score of the circuit crate
  (\<open>zk/circuit/src/score.rs\<close>), the witness generator (\<open>packages/zk-wasm/src/lib.rs\<close>) up to the
  call of the Groth16 crate, and for which inputs the witness satisfies the circuit.
\<close>

section \<open>The reference score\<close>

definition zk_compute_score_pure ::
  "u32 \<Rightarrow> i128 \<Rightarrow> u32 \<Rightarrow> u32 \<Rightarrow> u32 \<Rightarrow> i128 \<Rightarrow> u32 \<Rightarrow> u32 \<Rightarrow> u32 \<Rightarrow> u32" where
  "zk_compute_score_pure vc_points volume_30d avg_counterparties on_time_count total_count
       total_repaid w_vc w_tx w_repayment =
     (let vc_score = (ucast (min vc_points 100) :: u128);
          volume_score = min (i128_max (i128_div volume_30d 100000000) 0 :: u128) 80;
          counterparty_bonus = ucast (min (avg_counterparties div 5) 20);
          tx_score = min (volume_score + counterparty_bonus) 100;
          repayment_rate_score =
            unwrap_or (map_option (\<lambda>r. r div 100)
              (checked_div (saturating_mul (ucast on_time_count) 10000) (ucast total_count))) 0;
          repayment_volume_score = min (i128_max (i128_div total_repaid 100000000) 0) 100;
          repay_score = (repayment_rate_score + repayment_volume_score) div 2;
          composite = (vc_score * ucast w_vc + tx_score * ucast w_tx
                       + repay_score * ucast w_repayment) div 100;
          score = ucast (300 :: u32) + saturating_mul composite 550 div 100
      in ucast (max (min score (ucast (850 :: u32))) (ucast (300 :: u32))))"

section \<open>The witness generator\<close>

text \<open>
  The arguments of \<open>generate_score_proof\<close>; the two volumes arrive as floats and are cast
  to \<open>i128\<close> first, here they are the cast values.
\<close>

record score_proof_args =
  sa_vc_points :: u32
  sa_tx_volume_30d :: i128
  sa_avg_counterparties :: u32
  sa_on_time_count :: u32
  sa_total_count :: u32
  sa_total_repaid :: i128
  sa_vc_weight :: u32
  sa_tx_weight :: u32
  sa_repayment_weight :: u32
  sa_vc_count :: u32
  sa_last_updated :: u64
  sa_computed_at_ledger :: u32
  sa_stale :: bool
  sa_blinding :: u32
  sa_threshold :: u32
  sa_subject :: bytes
  sa_credit_oracle_id :: bytes
  sa_snapshot_ledger :: u32
  sa_domain_separator :: bytes

definition zk_rate :: "u32 \<Rightarrow> u32 \<Rightarrow> u64" where
  "zk_rate on_time_count total_count = ucast on_time_count * 10000 div ucast total_count"

definition zk_quotient :: "i128 \<Rightarrow> u32" where
  "zk_quotient v = ucast (i128_max (i128_div v 100000000) 0)"

definition zk_composite :: "u32 \<Rightarrow> u32 \<Rightarrow> u32 \<Rightarrow> u32 \<Rightarrow> u32 \<Rightarrow> u32 \<Rightarrow> ('e, u32) outcome" where
  "zk_composite vc w_vc tx w_tx repay w_repay =
     outcome_bind (expect (checked_mul vc w_vc)) (\<lambda>a.
     outcome_bind (expect (checked_mul tx w_tx)) (\<lambda>b.
     outcome_bind (expect (checked_add a b)) (\<lambda>ab.
     outcome_bind (expect (checked_mul repay w_repay)) (\<lambda>c.
     outcome_bind (expect (checked_add ab c)) (\<lambda>n. Ok (n div 100))))))"

definition zk_final :: "u32 \<Rightarrow> ('e, u32) outcome" where
  "zk_final composite =
     outcome_bind (expect (checked_mul composite 550)) (\<lambda>p.
     outcome_bind (expect (checked_add 300 (p div 100))) (\<lambda>s.
     Ok (max 300 (min s 850))))"

definition zk_witness :: "score_proof_args \<Rightarrow> ('e, score_witness) outcome" where
  "zk_witness a =
     (let vc = min (sa_vc_points a) 100;
          qv = zk_quotient (sa_tx_volume_30d a);
          vs = min qv 80;
          qc = sa_avg_counterparties a div 5;
          cb = min qc 20;
          rrs = (if 0 < sa_total_count a
                 then ucast (zk_rate (sa_on_time_count a) (sa_total_count a) div 100) else 0);
          rr = (if 0 < sa_total_count a
                then ucast (zk_rate (sa_on_time_count a) (sa_total_count a)) else 0);
          qr = zk_quotient (sa_total_repaid a);
          rvs = min qr 100
      in outcome_bind (expect (checked_add vs cb)) (\<lambda>vscb.
         outcome_bind (expect (checked_add rrs rvs)) (\<lambda>rs.
         outcome_bind (zk_composite vc (sa_vc_weight a) (min vscb 100) (sa_tx_weight a)
                         (rs div 2) (sa_repayment_weight a)) (\<lambda>comp.
         outcome_bind (zk_final comp) (\<lambda>sc.
         Ok \<lparr>sw_score = sc, sw_vc_count = sa_vc_count a, sw_tx_volume_30d = sa_tx_volume_30d a,
             sw_avg_counterparties = sa_avg_counterparties a, sw_repayment_rate = rr,
             sw_last_updated = sa_last_updated a, sw_computed_at_ledger = sa_computed_at_ledger a,
             sw_stale = sa_stale a, sw_vc_points = sa_vc_points a,
             sw_on_time_count = sa_on_time_count a, sw_total_count = sa_total_count a,
             sw_total_repaid = sa_total_repaid a, sw_vc_weight = sa_vc_weight a,
             sw_tx_weight = sa_tx_weight a, sw_repayment_weight = sa_repayment_weight a,
             sw_vc_score = vc, sw_volume_score = vs, sw_counterparty_bonus = cb,
             sw_tx_score = min vscb 100, sw_repayment_rate_score = rrs, sw_repayment_volume_score = rvs,
             sw_repay_score = rs div 2, sw_composite = comp, sw_q_volume = qv, sw_q_cp = qc,
             sw_q_rv = qr, sw_total_count_is_zero = (sa_total_count a = 0),
             sw_total_count_inv = (if sa_total_count a = 0 then 0 else 1),
             sw_blinding = uint (sa_blinding a)\<rparr>)))))"

text \<open>\<open>&bytes[0..32]\<close> panics on a shorter slice.\<close>

definition first_32 :: "bytes \<Rightarrow> bytes option" where
  "first_32 bs = (if 32 \<le> length bs then Some (take 32 bs) else None)"

definition zk_prepare ::
  "fr_field \<Rightarrow> (bytes \<Rightarrow> bytes) \<Rightarrow> score_proof_args
     \<Rightarrow> ('e, score_witness \<times> score_public_inputs) outcome" where
  "zk_prepare f sha256 a =
     outcome_bind (zk_witness a) (\<lambda>w.
       (let commitment = pedersen_commit f (pedersen_new f sha256 CIRCUIT_DOMAIN)
              [uint (sw_score w), uint (sw_vc_count w), uint (volume_wire (sw_tx_volume_30d w)),
               uint (sw_avg_counterparties w), uint (sw_repayment_rate w), uint (sw_last_updated w),
               uint (sw_computed_at_ledger w), of_bool (sw_stale w)] (sw_blinding w)
        in outcome_bind (expect (first_32 (sa_subject a))) (\<lambda>subject_buf.
           outcome_bind (expect (first_32 (sa_credit_oracle_id a))) (\<lambda>oracle_buf.
           outcome_bind (expect (first_32 (sa_domain_separator a))) (\<lambda>domain_buf.
           Ok (w, \<lparr>zp_threshold = sa_threshold a,
                   zp_subject = fr_from_be_bytes f subject_buf,
                   zp_credit_oracle_id = fr_from_be_bytes f oracle_buf,
                   zp_score_commitment = commitment,
                   zp_snapshot_ledger = sa_snapshot_ledger a,
                   zp_domain_separator = fr_from_be_bytes f domain_buf\<rparr>))))))"

section \<open>The honest prover\<close>

text \<open>Inputs as the oracle holds them, with volumes the circuit's 32-bit quotients can represent.\<close>

definition honest_args :: "score_proof_args \<Rightarrow> bool" where
  "honest_args a \<longleftrightarrow>
     is_valid \<lparr>vc_weight = sa_vc_weight a, tx_weight = sa_tx_weight a, repayment_weight = sa_repayment_weight a\<rparr>
       = Some True
   \<and> sa_on_time_count a \<le> sa_total_count a
   \<and> sint (sa_tx_volume_30d a) < 429496729600000000 \<and> sint (sa_total_repaid a) < 429496729600000000"

lemma nat_scaled: "nat (v div 100000000) = nat v div 100000000"
proof (cases "0 \<le> v")
  case True
  then show ?thesis by (simp add: nat_div_distrib)
next
  case False
  then have "v div 100000000 \<le> 0" by linarith
  then show ?thesis using False by simp
qed

lemma unat_zk_quotient:
  assumes "sint v < 429496729600000000"
  shows "unat (zk_quotient v) = nat (sint v) div 100000000"
proof -
  have "sint v div 100000000 < 4294967296" using assms by linarith
  then have "nat (sint v div 100000000) < 2 ^ LENGTH(32)" by simp
  then show ?thesis
    unfolding zk_quotient_def by (subst unat_narrow) (simp_all add: i128_scale_down nat_scaled)
qed

lemma unat_volume_wire:
  assumes "sint v < 429496729600000000"
  shows "unat (volume_wire v) = nat (sint v)"
proof -
  have "0 \<le> sint (i128_max v 0)" by (simp add: sint_i128_max)
  from unat_of_nonneg [OF this] have u: "unat (i128_max v 0) = nat (sint v)"
    by (simp add: sint_i128_max max_def)
  have "nat (sint v) < 2 ^ LENGTH(64)" using assms by simp
  then show ?thesis unfolding volume_wire_def by (subst unat_narrow) (simp_all add: u)
qed

lemma unat_zk_rate: "unat (zk_rate n t) = unat n * 10000 div unat t"
proof -
  have "unat (ucast n :: u64) * unat (10000 :: u64) < 2 ^ LENGTH(64)"
    using unat_u32_less [of n] by simp
  from unat_mult_nowrap [OF this] show ?thesis by (simp add: zk_rate_def unat_div_word)
qed

lemma rate_le:
  assumes "n \<le> (t :: nat)"
  shows "n * 10000 div t \<le> 10000"
proof (cases "t = 0")
  case False
  have "n * 10000 div t \<le> t * 10000 div t" using assms by (intro div_le_mono) simp
  then show ?thesis using False by simp
qed simp

lemma unat_rate_score:
  assumes "n \<le> t"
  shows "unat (if 0 < t then ucast (zk_rate n t div 100) else 0 :: u32) = rate_spec (unat n) (unat t)"
proof -
  have "unat (zk_rate n t div 100) \<le> 100"
    using rate_le [of "unat n" "unat t"] assms by (simp add: unat_div_word unat_zk_rate word_le_nat_alt)
  then have "unat (zk_rate n t div 100) < 2 ^ LENGTH(32)" by simp
  from unat_narrow [OF this] show ?thesis
    by (simp add: rate_spec_def unat_div_word unat_zk_rate word_less_nat_alt)
qed

lemma checked_add_small:
  assumes "unat x + unat y < 2 ^ 32"
  shows "checked_add (x :: u32) y = Some (x + y)" and "unat (x + y) = unat x + unat y"
  using assms by (simp_all add: checked_add_def unat_word_ariths)

lemma checked_mul_small:
  assumes "unat x * unat y < 2 ^ 32"
  shows "checked_mul (x :: u32) y = Some (x * y)" and "unat (x * y) = unat x * unat y"
  using assms by (simp_all add: checked_mul_def unat_word_ariths)

lemma zk_composite_total:
  assumes "unat vc \<le> 100" and "unat tx \<le> 100" and "unat rp \<le> 100" and "unat a + unat b + unat c = 100"
  obtains n where "zk_composite vc a tx b rp c = Ok n"
    and "unat n = composite_spec (unat vc) (unat tx) (unat rp) (unat a) (unat b) (unat c)"
    and "unat n \<le> 100"
proof -
  have le: "unat a \<le> 100" "unat b \<le> 100" "unat c \<le> 100" using assms(4) by simp_all
  have p: "unat vc * unat a \<le> 100 * unat a" "unat tx * unat b \<le> 100 * unat b" "unat rp * unat c \<le> 100 * unat c"
    using assms(1-3) by simp_all
  then have s: "unat vc * unat a + unat tx * unat b + unat rp * unat c \<le> 10000" using assms(4) by linarith
  then have m: "unat vc * unat a < 2 ^ 32" "unat tx * unat b < 2 ^ 32" "unat rp * unat c < 2 ^ 32" by simp_all
  note mul = checked_mul_small [OF m(1)] checked_mul_small [OF m(2)] checked_mul_small [OF m(3)]
  have "unat (vc * a) + unat (tx * b) < 2 ^ 32" using s mul by simp
  note add1 = checked_add_small [OF this]
  have "unat (vc * a + tx * b) + unat (rp * c) < 2 ^ 32" using s mul add1 by simp
  note add2 = checked_add_small [OF this]
  let ?n = "(vc * a + tx * b + rp * c) div 100"
  have "zk_composite vc a tx b rp c = Ok ?n"
    by (simp add: zk_composite_def mul add1 add2)
  moreover have n: "unat ?n = composite_spec (unat vc) (unat tx) (unat rp) (unat a) (unat b) (unat c)"
    by (simp add: unat_div_word composite_spec_def mul add1 add2)
  moreover have "unat ?n \<le> 100" using s unfolding n composite_spec_def by linarith
  ultimately show thesis using that by blast
qed

lemma zk_final_total:
  assumes "unat n \<le> 100"
  obtains s where "zk_final n = Ok s" and "unat s = 300 + unat n * 550 div 100" and "unat s = final_spec (unat n)"
proof -
  have "unat n * unat (550 :: u32) < 2 ^ 32" using assms by simp
  note mul = checked_mul_small [OF this]
  have p: "unat (n * 550 div 100) = unat n * 550 div 100" using mul by (simp add: unat_div_word)
  have b: "unat n * 550 div 100 \<le> 550" using assms by linarith
  have "unat (300 :: u32) + unat (n * 550 div 100) < 2 ^ 32" unfolding p using b by simp
  note add = checked_add_small [OF this]
  let ?s = "max 300 (min (300 + n * 550 div 100) 850)"
  have "zk_final n = Ok ?s" by (simp add: zk_final_def mul add)
  moreover have u: "unat ?s = final_spec (unat n)"
    by (simp add: unat_max_of_words unat_min_word add p final_spec_def max.commute)
  moreover have "unat ?s = 300 + unat n * 550 div 100" unfolding u final_spec_def using b by simp
  ultimately show thesis using that by blast
qed

text \<open>What the generated witness holds, in the published terms.\<close>

definition honest_values :: "score_proof_args \<Rightarrow> score_witness \<Rightarrow> bool" where
  "honest_values a w \<longleftrightarrow>
     sw_vc_points w = sa_vc_points a \<and> sw_tx_volume_30d w = sa_tx_volume_30d a
   \<and> sw_avg_counterparties w = sa_avg_counterparties a \<and> sw_on_time_count w = sa_on_time_count a
   \<and> sw_total_count w = sa_total_count a \<and> sw_total_repaid w = sa_total_repaid a
   \<and> sw_vc_weight w = sa_vc_weight a \<and> sw_tx_weight w = sa_tx_weight a
   \<and> sw_repayment_weight w = sa_repayment_weight a
   \<and> unat (sw_vc_score w) = min (unat (sa_vc_points a)) 100
   \<and> unat (sw_q_volume w) = nat (sint (sa_tx_volume_30d a)) div 100000000
   \<and> unat (sw_volume_score w) = min (unat (sw_q_volume w)) 80
   \<and> unat (sw_q_cp w) = unat (sa_avg_counterparties a) div 5
   \<and> unat (sw_counterparty_bonus w) = min (unat (sw_q_cp w)) 20
   \<and> unat (sw_tx_score w) = min (unat (sw_volume_score w) + unat (sw_counterparty_bonus w)) 100
   \<and> unat (sw_repayment_rate_score w) = rate_spec (unat (sa_on_time_count a)) (unat (sa_total_count a))
   \<and> unat (sw_q_rv w) = nat (sint (sa_total_repaid a)) div 100000000
   \<and> unat (sw_repayment_volume_score w) = min (unat (sw_q_rv w)) 100
   \<and> unat (sw_repay_score w) = (unat (sw_repayment_rate_score w) + unat (sw_repayment_volume_score w)) div 2
   \<and> unat (sw_composite w) = composite_spec (unat (sw_vc_score w)) (unat (sw_tx_score w)) (unat (sw_repay_score w))
        (unat (sa_vc_weight a)) (unat (sa_tx_weight a)) (unat (sa_repayment_weight a))
   \<and> unat (sw_composite w) \<le> 100
   \<and> unat (sw_score w) = 300 + unat (sw_composite w) * 550 div 100
   \<and> unat (sw_score w) = final_spec (unat (sw_composite w))"

lemma zk_pure_eq: "zk_compute_score_pure = compute_score_pure"
  by (intro ext)
    (simp add: zk_compute_score_pure_def compute_score_pure_def Let_def MIN_SCORE_def MAX_SCORE_def
      unwrap_or_def option.case_eq_if map_option_case)

lemma zk_witness_honest:
  assumes "honest_args a"
  obtains w where "(zk_witness a :: ('e, score_witness) outcome) = Ok w" and "honest_values a w"
proof -
  have wt: "unat (sa_vc_weight a) + unat (sa_tx_weight a) + unat (sa_repayment_weight a) = 100"
    and nt: "sa_on_time_count a \<le> sa_total_count a"
    and vol: "sint (sa_tx_volume_30d a) < 429496729600000000" "sint (sa_total_repaid a) < 429496729600000000"
    using assms by (auto simp: honest_args_def is_valid_iff weights_ok_def)
  define vc vs cb rvs where "vc = min (sa_vc_points a) 100" and "vs = min (zk_quotient (sa_tx_volume_30d a)) 80"
    and "cb = min (sa_avg_counterparties a div 5) 20" and "rvs = min (zk_quotient (sa_total_repaid a)) 100"
  define rrs :: u32 where "rrs = (if 0 < sa_total_count a
      then ucast (zk_rate (sa_on_time_count a) (sa_total_count a) div 100) else 0)"
  have u: "unat vc = min (unat (sa_vc_points a)) 100" "unat vs = min (unat (zk_quotient (sa_tx_volume_30d a))) 80"
    "unat cb = min (unat (sa_avg_counterparties a) div 5) 20" "unat rvs = min (unat (zk_quotient (sa_total_repaid a))) 100"
    by (simp_all add: vc_def vs_def cb_def rvs_def unat_min_word unat_div_word)
  have rr: "unat rrs = rate_spec (unat (sa_on_time_count a)) (unat (sa_total_count a))"
    unfolding rrs_def by (rule unat_rate_score [OF nt])
  then have rr100: "unat rrs \<le> 100"
    using rate_spec_le_100 [of "unat (sa_on_time_count a)" "unat (sa_total_count a)"] nt by (simp add: word_le_nat_alt)
  have "unat vs + unat cb < 2 ^ 32" using u by simp
  note add1 = checked_add_small [OF this]
  have "unat rrs + unat rvs < 2 ^ 32" using u rr100 by simp
  note add2 = checked_add_small [OF this]
  have tx: "unat (min (vs + cb) 100) = min (unat vs + unat cb) 100" by (simp add: unat_min_word add1)
  have rp: "unat ((rrs + rvs) div 2) = (unat rrs + unat rvs) div 2" by (simp add: unat_div_word add2)
  have le: "unat vc \<le> 100" "unat (min (vs + cb) 100) \<le> 100" "unat ((rrs + rvs) div 2) \<le> 100"
    unfolding tx rp using u rr100 by simp_all
  obtain n where n: "(zk_composite vc (sa_vc_weight a) (min (vs + cb) 100) (sa_tx_weight a) ((rrs + rvs) div 2)
        (sa_repayment_weight a) :: ('e, u32) outcome) = Ok n"
    "unat n = composite_spec (unat vc) (unat (min (vs + cb) 100)) (unat ((rrs + rvs) div 2))
        (unat (sa_vc_weight a)) (unat (sa_tx_weight a)) (unat (sa_repayment_weight a))" "unat n \<le> 100"
    using zk_composite_total [OF le wt] by blast
  obtain s where s: "(zk_final n :: ('e, u32) outcome) = Ok s" "unat s = 300 + unat n * 550 div 100" "unat s = final_spec (unat n)"
    using zk_final_total [OF n(3)] by blast
  define w where "w = \<lparr>sw_score = s, sw_vc_count = sa_vc_count a, sw_tx_volume_30d = sa_tx_volume_30d a,
      sw_avg_counterparties = sa_avg_counterparties a, sw_repayment_rate = (if 0 < sa_total_count a then ucast (zk_rate (sa_on_time_count a) (sa_total_count a)) else 0),
      sw_last_updated = sa_last_updated a, sw_computed_at_ledger = sa_computed_at_ledger a,
      sw_stale = sa_stale a, sw_vc_points = sa_vc_points a,
      sw_on_time_count = sa_on_time_count a, sw_total_count = sa_total_count a,
      sw_total_repaid = sa_total_repaid a, sw_vc_weight = sa_vc_weight a,
      sw_tx_weight = sa_tx_weight a, sw_repayment_weight = sa_repayment_weight a,
      sw_vc_score = vc, sw_volume_score = vs, sw_counterparty_bonus = cb,
      sw_tx_score = min (vs + cb) 100, sw_repayment_rate_score = rrs, sw_repayment_volume_score = rvs,
      sw_repay_score = (rrs + rvs) div 2, sw_composite = n, sw_q_volume = zk_quotient (sa_tx_volume_30d a), sw_q_cp = sa_avg_counterparties a div 5,
      sw_q_rv = zk_quotient (sa_total_repaid a), sw_total_count_is_zero = (sa_total_count a = 0),
      sw_total_count_inv = (if sa_total_count a = 0 then 0 else 1),
      sw_blinding = uint (sa_blinding a)\<rparr>"
  have w: "(zk_witness a :: ('e, score_witness) outcome) = Ok w"
    unfolding zk_witness_def Let_def vc_def [symmetric] vs_def [symmetric] cb_def [symmetric] rvs_def [symmetric]
      rrs_def [symmetric] add1(1) add2(1) expect_simps outcome_bind.simps n(1) s(1) w_def
    by (rule refl)
  have cp: "unat (sa_avg_counterparties a div 5) = unat (sa_avg_counterparties a) div 5"
    "unat cb = min (unat (sa_avg_counterparties a div 5)) 20"
    using u(3) by (simp_all add: unat_div_word)
  have "honest_values a w"
    unfolding honest_values_def w_def score_witness.simps
    by (intro conjI)
      (rule refl u(1,2,4) cp rr tx rp n(2,3) s(2,3) unat_zk_quotient [OF vol(1)] unat_zk_quotient [OF vol(2)])+
  with w show thesis by (rule that)
qed


lemma quotient_exact: "d \<le> slack \<Longrightarrow> 0 < d \<Longrightarrow> quotient_within slack x (x div d) d"
  unfolding quotient_within_def
  using div_mult_mod_eq [of x d] mod_less_divisor [of d x] by linarith

lemma rate_quotient:
  assumes "n \<le> (t :: nat)"
  shows "rate_spec n t * t \<le> n * 100 \<and> n * 100 \<le> rate_spec n t * t + t"
proof (cases "t = 0")
  case False
  have "n * 10000 div t div 100 = n * 10000 div (100 * t)"
    by (simp add: div_mult2_eq [symmetric] mult.commute)
  also have "\<dots> = n * 100 div t"
    using div_mult_mult1 [of 100 "n * 100" t] by (simp add: mult.commute)
  finally have r: "rate_spec n t = n * 100 div t" using False by (simp add: rate_spec_def)
  show ?thesis
    unfolding r using False div_mult_mod_eq [of "n * 100" t] mod_less_divisor [of t "n * 100"] by linarith
qed (use assms in \<open>simp add: rate_spec_def\<close>)

lemma quotient_hundreds:
  assumes "s = 300 + c * 550 div (100 :: nat)"
  shows "quotient_within 128 (c * 550 + 30000) s 100"
proof -
  define q r where "q = c * 550 div 100" and "r = c * 550 mod 100"
  have "q * 100 + r = c * 550" unfolding q_def r_def by (rule div_mult_mod_eq)
  moreover have "r < 100" unfolding r_def by (rule mod_less_divisor) simp
  ultimately show ?thesis
    unfolding quotient_within_def assms q_def [symmetric] add_mult_distrib by simp
qed

text \<open>The generated assignment meets every constraint but the halving one for free.\<close>

lemma honest_meaning:
  assumes "honest_args a" and "honest_values a w" and "c11_commitment f sha pub (wires_of_witness w)"
  shows "circuit_meaning f sha pub (wires_of_witness w) \<longleftrightarrow>
    unat (zp_threshold pub) < unat (sw_score w)
    \<and> even (unat (sw_repayment_rate_score w) + unat (sw_repayment_volume_score w))"
proof -
  have nt: "unat (sa_on_time_count a) \<le> unat (sa_total_count a)"
    and vol: "sint (sa_tx_volume_30d a) < 429496729600000000" "sint (sa_total_repaid a) < 429496729600000000"
    using assms(1) by (auto simp: honest_args_def word_le_nat_alt)
  note v = assms(2) [unfolded honest_values_def]
  have raw: "sw_vc_points w = sa_vc_points a" "sw_tx_volume_30d w = sa_tx_volume_30d a"
      "sw_avg_counterparties w = sa_avg_counterparties a" "sw_on_time_count w = sa_on_time_count a"
      "sw_total_count w = sa_total_count a" "sw_total_repaid w = sa_total_repaid a"
      "sw_vc_weight w = sa_vc_weight a" "sw_tx_weight w = sa_tx_weight a"
      "sw_repayment_weight w = sa_repayment_weight a"
    by (insert v, (elim conjE, assumption)+)
  have parts: "unat (sw_vc_score w) = min (unat (sa_vc_points a)) 100"
      "unat (sw_volume_score w) = min (unat (sw_q_volume w)) 80"
      "unat (sw_counterparty_bonus w) = min (unat (sw_q_cp w)) 20"
      "unat (sw_tx_score w) = min (unat (sw_volume_score w) + unat (sw_counterparty_bonus w)) 100"
      "unat (sw_repayment_volume_score w) = min (unat (sw_q_rv w)) 100"
    by (insert v, (elim conjE, assumption)+)
  have quots: "unat (sw_q_volume w) = nat (sint (sa_tx_volume_30d a)) div 100000000"
      "unat (sw_q_cp w) = unat (sa_avg_counterparties a) div 5"
      "unat (sw_q_rv w) = nat (sint (sa_total_repaid a)) div 100000000"
    by (insert v, (elim conjE, assumption)+)
  have rates: "unat (sw_repayment_rate_score w) = rate_spec (unat (sa_on_time_count a)) (unat (sa_total_count a))"
      "unat (sw_repay_score w) = (unat (sw_repayment_rate_score w) + unat (sw_repayment_volume_score w)) div 2"
    by (insert v, (elim conjE, assumption)+)
  have final: "unat (sw_composite w) = composite_spec (unat (sw_vc_score w)) (unat (sw_tx_score w))
        (unat (sw_repay_score w)) (unat (sa_vc_weight a)) (unat (sa_tx_weight a)) (unat (sa_repayment_weight a))"
      "unat (sw_composite w) \<le> 100" "unat (sw_score w) = 300 + unat (sw_composite w) * 550 div 100"
      "unat (sw_score w) = final_spec (unat (sw_composite w))"
    by (insert v, (elim conjE, assumption)+)
  have r100: "unat (sw_repayment_rate_score w) \<le> 100" unfolding rates(1) by (rule rate_spec_le_100 [OF nt])
  have f850: "final_spec c \<le> 850" for c by (simp add: final_spec_def)
  have sc: "unat (sw_score w) < 1024" unfolding final(4) using f850 [of "unat (sw_composite w)"] by linarith
  have wires: "unat (volume_wire (sw_tx_volume_30d w)) = nat (sint (sa_tx_volume_30d a))"
      "unat (volume_wire (sw_total_repaid w)) = nat (sint (sa_total_repaid a))"
    unfolding raw by (rule unat_volume_wire [OF vol(1)] unat_volume_wire [OF vol(2)])+
  have q: "quotient_within (2 ^ 27) (nat x) (nat x div 100000000) 100000000"
      "quotient_within 8 m (m div 5) 5" "quotient_within 128 m (m div 100) 100" for x m
    by (rule quotient_exact; simp)+
  have half: "2 * (m div 2) = m \<longleftrightarrow> even (m :: nat)" for m by presburger
  have sel: "wr_score (wires_of_witness w) = sw_score w" "wr_vc_score (wires_of_witness w) = sw_vc_score w"
    "wr_vc_points (wires_of_witness w) = sw_vc_points w"
    "wr_tx_volume_30d (wires_of_witness w) = volume_wire (sw_tx_volume_30d w)"
    "wr_q_volume (wires_of_witness w) = sw_q_volume w" "wr_volume_score (wires_of_witness w) = sw_volume_score w"
    "wr_avg_counterparties (wires_of_witness w) = sw_avg_counterparties w" "wr_q_cp (wires_of_witness w) = sw_q_cp w"
    "wr_counterparty_bonus (wires_of_witness w) = sw_counterparty_bonus w"
    "wr_tx_score (wires_of_witness w) = sw_tx_score w"
    "wr_repayment_rate_score (wires_of_witness w) = sw_repayment_rate_score w"
    "wr_total_count (wires_of_witness w) = sw_total_count w" "wr_on_time_count (wires_of_witness w) = sw_on_time_count w"
    "wr_total_repaid (wires_of_witness w) = volume_wire (sw_total_repaid w)" "wr_q_rv (wires_of_witness w) = sw_q_rv w"
    "wr_repayment_volume_score (wires_of_witness w) = sw_repayment_volume_score w"
    "wr_repay_score (wires_of_witness w) = sw_repay_score w" "wr_composite (wires_of_witness w) = sw_composite w"
    "wr_vc_weight (wires_of_witness w) = sw_vc_weight w" "wr_tx_weight (wires_of_witness w) = sw_tx_weight w"
    "wr_repayment_weight (wires_of_witness w) = sw_repayment_weight w"
    by (simp_all add: wires_of_witness_def)
  have caps: "either_of 128 (min m 100) m 100" "either_of 128 (min m 80) m 80" "either_of 32 (min m 20) m 20" for m
    by (auto simp: either_of_def min_def)
  have rate: "unat (sw_repayment_rate_score w) * unat (sa_total_count a) \<le> unat (sa_on_time_count a) * 100"
      "unat (sa_on_time_count a) * 100 \<le> unat (sw_repayment_rate_score w) * unat (sa_total_count a)
         + unat (sa_total_count a)"
    unfolding rates(1) using rate_quotient [OF nt] by blast+
  have e1: "either_of 128 (unat (sw_vc_score w)) (unat (sw_vc_points w)) 100"
      "either_of 128 (unat (sw_volume_score w)) (unat (sw_q_volume w)) 80"
      "either_of 32 (unat (sw_counterparty_bonus w)) (unat (sw_q_cp w)) 20"
      "either_of 128 (unat (sw_tx_score w)) (unat (sw_volume_score w) + unat (sw_counterparty_bonus w)) 100"
      "either_of 128 (unat (sw_repayment_volume_score w)) (unat (sw_q_rv w)) 100"
    unfolding raw parts by (rule caps)+
  have e2: "quotient_within (2 ^ 27) (unat (volume_wire (sw_tx_volume_30d w))) (unat (sw_q_volume w)) 100000000"
      "quotient_within (2 ^ 27) (unat (volume_wire (sw_total_repaid w))) (unat (sw_q_rv w)) 100000000"
      "quotient_within 8 (unat (sw_avg_counterparties w)) (unat (sw_q_cp w)) 5"
    unfolding wires unfolding quots raw by (rule q)+
  have e3: "quotient_within 128 (unat (sw_vc_score w) * unat (sw_vc_weight w) + unat (sw_tx_score w) * unat (sw_tx_weight w)
        + unat (sw_repay_score w) * unat (sw_repayment_weight w)) (unat (sw_composite w)) 100"
    unfolding raw final(1) composite_spec_def by (rule q(3))
  have e4: "quotient_within 128 (unat (sw_composite w) * 550 + 30000) (unat (sw_score w)) 100"
    by (rule quotient_hundreds [OF final(3)])
  have "2 * unat (sw_repay_score w) = unat (sw_repayment_rate_score w) + unat (sw_repayment_volume_score w)
      \<longleftrightarrow> even (unat (sw_repayment_rate_score w) + unat (sw_repayment_volume_score w))"
    unfolding rates(2) by (rule half)
  moreover have "unat (sw_composite w) < 128" "unat (sw_repayment_rate_score w) < 128" using final(2) r100 by linarith+
  ultimately show ?thesis
    unfolding circuit_meaning_def sel using e1 e2 e3 e4 rate [folded raw] sc assms(3) by blast
qed

lemma commitment_opens:
  assumes "fr_modulus f = m"
  shows "fp_eq f (foldl (\<lambda>acc (c, v). acc + v * c) 0 (zip cs vs) + b) (pedersen_commit f cs vs b)"
proof -
  have "(foldl (\<lambda>acc (c, v). (acc + c * v) mod m) 0 (zip cs vs) + b) mod m
      = (foldl (\<lambda>acc (c, v). acc + v * c) 0 (zip cs vs) + b) mod m"
    by (rule mod_add_cong [OF foldl_mod refl])
  then show ?thesis by (simp add: fp_eq_def pedersen_commit_def assms)
qed

lemma prepare_opens:
  assumes "zp_score_commitment pub = pedersen_commit f (pedersen_new f sha CIRCUIT_DOMAIN)
      [uint (sw_score w), uint (sw_vc_count w), uint (volume_wire (sw_tx_volume_30d w)),
       uint (sw_avg_counterparties w), uint (sw_repayment_rate w), uint (sw_last_updated w),
       uint (sw_computed_at_ledger w), of_bool (sw_stale w)] (sw_blinding w)"
  shows "c11_commitment f sha pub (wires_of_witness w)"
proof -
  have "committed_fields (wires_of_witness w) =
      [uint (sw_score w), uint (sw_vc_count w), uint (volume_wire (sw_tx_volume_30d w)),
       uint (sw_avg_counterparties w), uint (sw_repayment_rate w), uint (sw_last_updated w),
       uint (sw_computed_at_ledger w), of_bool (sw_stale w)]"
    "wr_blinding (wires_of_witness w) = sw_blinding w"
    by (simp_all add: committed_fields_def wires_of_witness_def boolean_to_fp_def)
  then show ?thesis
    unfolding c11_iff field_sum_def assms by (simp only: commitment_opens [OF refl])
qed

lemma honest_score:
  assumes "honest_values a w"
  shows "sw_score w = compute_score_pure (sa_vc_points a) (sa_tx_volume_30d a) (sa_avg_counterparties a)
      (sa_on_time_count a) (sa_total_count a) (sa_total_repaid a) (sa_vc_weight a) (sa_tx_weight a)
      (sa_repayment_weight a)"
proof -
  note v = assms [unfolded honest_values_def]
  have parts: "unat (sw_vc_score w) = min (unat (sa_vc_points a)) 100"
      "unat (sw_q_volume w) = nat (sint (sa_tx_volume_30d a)) div 100000000"
      "unat (sw_volume_score w) = min (unat (sw_q_volume w)) 80"
      "unat (sw_q_cp w) = unat (sa_avg_counterparties a) div 5"
      "unat (sw_counterparty_bonus w) = min (unat (sw_q_cp w)) 20"
      "unat (sw_tx_score w) = min (unat (sw_volume_score w) + unat (sw_counterparty_bonus w)) 100"
      "unat (sw_repayment_rate_score w) = rate_spec (unat (sa_on_time_count a)) (unat (sa_total_count a))"
      "unat (sw_q_rv w) = nat (sint (sa_total_repaid a)) div 100000000"
      "unat (sw_repayment_volume_score w) = min (unat (sw_q_rv w)) 100"
      "unat (sw_repay_score w) = (unat (sw_repayment_rate_score w) + unat (sw_repayment_volume_score w)) div 2"
      "unat (sw_composite w) = composite_spec (unat (sw_vc_score w)) (unat (sw_tx_score w)) (unat (sw_repay_score w))
         (unat (sa_vc_weight a)) (unat (sa_tx_weight a)) (unat (sa_repayment_weight a))"
      "unat (sw_score w) = final_spec (unat (sw_composite w))"
    by (insert v, (elim conjE, assumption)+)
  have "unat (sw_score w) = score_spec (unat (sa_vc_points a)) (sint (sa_tx_volume_30d a))
      (unat (sa_avg_counterparties a)) (unat (sa_on_time_count a)) (unat (sa_total_count a))
      (sint (sa_total_repaid a)) (unat (sa_vc_weight a)) (unat (sa_tx_weight a)) (unat (sa_repayment_weight a))"
    unfolding parts score_spec_def tx_spec_def repay_spec_def capped_volume_def nat_scaled by (rule refl)
  then show ?thesis by (simp only: word_unat_eq_iff unat_compute_score_pure)
qed

lemma honest_prover_run:
  fixes r :: "('e, score_witness \<times> score_public_inputs) outcome"
  assumes "fr_field_ok f" and "honest_args a" and "32 \<le> length (sa_subject a)"
    and "32 \<le> length (sa_credit_oracle_id a)" and "32 \<le> length (sa_domain_separator a)"
    and "r = zk_prepare f sha a"
  shows "\<exists>w pub. r = Ok (w, pub) \<and> zp_threshold pub = sa_threshold a \<and>
    sw_score w = compute_score_pure (sa_vc_points a) (sa_tx_volume_30d a) (sa_avg_counterparties a)
      (sa_on_time_count a) (sa_total_count a) (sa_total_repaid a) (sa_vc_weight a) (sa_tx_weight a)
      (sa_repayment_weight a) \<and>
    sw_score w = zk_compute_score_pure (sa_vc_points a) (sa_tx_volume_30d a) (sa_avg_counterparties a)
      (sa_on_time_count a) (sa_total_count a) (sa_total_repaid a) (sa_vc_weight a) (sa_tx_weight a)
      (sa_repayment_weight a) \<and>
    (circuit_sat f sha pub (wires_of_witness w) \<longleftrightarrow>
       unat (sa_threshold a) < unat (sw_score w) \<and>
       even (rate_spec (unat (sa_on_time_count a)) (unat (sa_total_count a))
             + capped_volume (sint (sa_total_repaid a)) 100))"
proof -
  obtain w where w: "(zk_witness a :: ('e, score_witness) outcome) = Ok w" and h: "honest_values a w"
    using zk_witness_honest [OF assms(2)] by blast
  obtain pub where p: "r = Ok (w, pub)" and t: "zp_threshold pub = sa_threshold a"
    and c: "zp_score_commitment pub = pedersen_commit f (pedersen_new f sha CIRCUIT_DOMAIN)
      [uint (sw_score w), uint (sw_vc_count w), uint (volume_wire (sw_tx_volume_30d w)),
       uint (sw_avg_counterparties w), uint (sw_repayment_rate w), uint (sw_last_updated w),
       uint (sw_computed_at_ledger w), of_bool (sw_stale w)] (sw_blinding w)"
    using assms(3-6) w by (simp add: zk_prepare_def first_32_def Let_def)
  have odd: "unat (sw_repayment_rate_score w) = rate_spec (unat (sa_on_time_count a)) (unat (sa_total_count a))"
      "unat (sw_repayment_volume_score w) = capped_volume (sint (sa_total_repaid a)) 100"
    using h unfolding honest_values_def capped_volume_def nat_scaled by simp_all
  have "circuit_sat f sha pub (wires_of_witness w) \<longleftrightarrow> unat (sa_threshold a) < unat (sw_score w)
      \<and> even (rate_spec (unat (sa_on_time_count a)) (unat (sa_total_count a))
             + capped_volume (sint (sa_total_repaid a)) 100)"
    unfolding sat_meaning [OF assms(1)] honest_meaning [OF assms(2) h prepare_opens [OF c]] t odd ..
  then show ?thesis using p t honest_score [OF h] zk_pure_eq by metis
qed

text \<open>
  From \<open>2 ^ 32\<close> units on (in stroops, \<open>2 ^ 32 * 10 ^ 8\<close>) the \<open>as u32\<close> of the quotient loses its high bits, so the
  assignment does not satisfy the circuit, whose volume wire still has them.
\<close>

definition truncated_volume :: "i128 \<Rightarrow> bool" where
  "truncated_volume v \<longleftrightarrow> 429496729600000000 \<le> sint v \<and> sint v < 2 ^ 64"

lemma truncated_quotient:
  assumes "truncated_volume v"
  shows "\<not> quotient_within (2 ^ 27) (unat (volume_wire v)) (unat (zk_quotient v)) 100000000"
proof -
  have v: "429496729600000000 \<le> sint v" "sint v < 2 ^ 64" using assms by (simp_all add: truncated_volume_def)
  define n where "n = nat (sint v)"
  have n: "429496729600000000 \<le> n" "n < 2 ^ 64" using v by (simp_all add: n_def le_nat_iff nat_less_iff)
  have "0 \<le> sint (i128_max v 0)" by (simp add: sint_i128_max)
  from unat_of_nonneg [OF this] have "unat (i128_max v 0) = n"
    using v by (simp add: sint_i128_max n_def max_def)
  then have w: "unat (volume_wire v) = n"
    unfolding volume_wire_def using n by (subst unat_narrow) simp_all
  have "unat (zk_quotient v) = n div 100000000 mod 4294967296"
    by (simp add: zk_quotient_def unsigned_ucast_eq take_bit_eq_mod i128_scale_down nat_scaled n_def)
  moreover have "n div 100000000 mod 4294967296 + 4294967296 \<le> n div 100000000"
  proof -
    have "4294967296 \<le> n div 100000000" using n(1) by (simp add: less_eq_div_iff_mult_less_eq)
    then have "1 \<le> n div 100000000 div 4294967296" by (simp add: less_eq_div_iff_mult_less_eq)
    then show ?thesis using div_mult_mod_eq [of "n div 100000000" 4294967296] by linarith
  qed
  then have "(n div 100000000 mod 4294967296) * 100000000 + 429496729600000000 \<le> n"
    using div_mult_mod_eq [of n 100000000] by linarith
  ultimately show ?thesis by (simp add: quotient_within_def w)
qed

lemma truncated_unsat:
  assumes "fr_field_ok f" and "(zk_prepare f sha a :: ('e, score_witness \<times> score_public_inputs) outcome) = Ok (w, pub)"
    and "truncated_volume (sa_tx_volume_30d a) \<or> truncated_volume (sa_total_repaid a)"
  shows "\<not> circuit_sat f sha pub (wires_of_witness w)"
proof -
  have "(zk_witness a :: ('e, score_witness) outcome) = Ok w" using assms(2) by (auto simp: zk_prepare_def Let_def)
  then have "sw_tx_volume_30d w = sa_tx_volume_30d a" "sw_q_volume w = zk_quotient (sa_tx_volume_30d a)"
      "sw_total_repaid w = sa_total_repaid a" "sw_q_rv w = zk_quotient (sa_total_repaid a)"
    by (auto simp: zk_witness_def Let_def)
  then have "wr_tx_volume_30d (wires_of_witness w) = volume_wire (sa_tx_volume_30d a)"
      "wr_q_volume (wires_of_witness w) = zk_quotient (sa_tx_volume_30d a)"
      "wr_total_repaid (wires_of_witness w) = volume_wire (sa_total_repaid a)"
      "wr_q_rv (wires_of_witness w) = zk_quotient (sa_total_repaid a)"
    by (simp_all add: wires_of_witness_def)
  then show ?thesis
    using truncated_quotient assms(3) unfolding sat_meaning [OF assms(1)] circuit_meaning_def by metis
qed


text \<open>The data of the circuit's own test, with the number of on-time repayments free: a proof exists for
  50 of 100, none for 51.\<close>

definition zk_demo_args :: "u32 \<Rightarrow> score_proof_args" where
  "zk_demo_args on_time = \<lparr>sa_vc_points = 50, sa_tx_volume_30d = 50000000000, sa_avg_counterparties = 10,
     sa_on_time_count = on_time, sa_total_count = 100, sa_total_repaid = 20000000000,
     sa_vc_weight = 40, sa_tx_weight = 30, sa_repayment_weight = 30, sa_vc_count = 10,
     sa_last_updated = 1700000000, sa_computed_at_ledger = 1234567, sa_stale = False, sa_blinding = 42,
     sa_threshold = 600, sa_subject = replicate 32 1, sa_credit_oracle_id = replicate 32 2,
     sa_snapshot_ledger = 12345, sa_domain_separator = replicate 32 3\<rparr>"

lemma zk_demo_args_ok:
  "n \<le> 100 \<Longrightarrow> honest_args (zk_demo_args n)" "32 \<le> length (sa_subject (zk_demo_args n))"
  "32 \<le> length (sa_credit_oracle_id (zk_demo_args n))" "32 \<le> length (sa_domain_separator (zk_demo_args n))"
  by (simp_all add: zk_demo_args_def honest_args_def is_valid_iff weights_ok_def)

lemma zk_demo_args_sel:
  "sa_vc_points (zk_demo_args n) = 50" "sa_tx_volume_30d (zk_demo_args n) = 50000000000"
  "sa_avg_counterparties (zk_demo_args n) = 10" "sa_on_time_count (zk_demo_args n) = n"
  "sa_total_count (zk_demo_args n) = 100" "sa_total_repaid (zk_demo_args n) = 20000000000"
  "sa_vc_weight (zk_demo_args n) = 40" "sa_tx_weight (zk_demo_args n) = 30"
  "sa_repayment_weight (zk_demo_args n) = 30" "sa_threshold (zk_demo_args n) = 600"
  by (simp_all add: zk_demo_args_def)

lemma zk_demo_score:
  "rate_spec 50 100 = 50" "rate_spec 51 100 = 51" "capped_volume 20000000000 100 = 100"
  "unat (compute_score_pure 50 50000000000 10 50 100 20000000000 40 30 30) = 668"
  by (simp_all add: unat_compute_score_pure score_spec_def final_spec_def composite_spec_def tx_spec_def
      repay_spec_def rate_spec_def capped_volume_def)


end
