(* ===== verification/Zk_Api.thy ===== *)
theory Zk_Api
  imports Zk_Prover Range_Verifier
begin

text \<open>
  The proof pipeline end to end: the API of the circuit crate (\<open>zk/circuit/src/lib.rs\<close>), the whole of
  \<open>generate_score_proof\<close> (\<open>packages/zk-wasm\<close>), the key printer (\<open>bin/generate_vk.rs\<close>) and how
  the on-chain verifier reads what they produce. Groth16 itself is a third-party crate: its three
  algorithms are the fields of \<open>groth16\<close>, over types of generators, keys, proofs and
  errors, and what is documented of them and used here (completeness) is a named hypothesis.
\<close>

section \<open>The algorithms the crates provide\<close>

text \<open>\<open>ScoreCircuit\<close>, and its constructor.\<close>

record score_circuit =
  sc_witness :: "score_witness option"
  sc_public_inputs :: score_public_inputs

definition score_circuit_new :: "score_witness option \<Rightarrow> score_public_inputs \<Rightarrow> score_circuit" where
  "score_circuit_new w pub = \<lparr>sc_witness = w, sc_public_inputs = pub\<rparr>"

text \<open>
  \<open>circuit_specific_setup\<close> and \<open>prove\<close> advance the generator; \<open>verify\<close> is deterministic. The last
  six fields are \<open>serialize_uncompressed\<close> on the components of a proof and of a verification key,
  \<open>from_seed\<close> of the generator and \<open>Fr::rand\<close>.
\<close>

record ('rng, 'pk, 'vk, 'proof, 'err) groth16 =
  g16_setup :: "score_circuit \<Rightarrow> 'rng \<Rightarrow> ('err, 'pk \<times> 'vk) outcome \<times> 'rng"
  g16_prove :: "'pk \<Rightarrow> score_circuit \<Rightarrow> 'rng \<Rightarrow> ('err, 'proof) outcome \<times> 'rng"
  g16_verify :: "'vk \<Rightarrow> fp list \<Rightarrow> 'proof \<Rightarrow> ('err, bool) outcome"
  g16_proof_bytes :: "'proof \<Rightarrow> bytes \<times> bytes \<times> bytes"
  g16_vk_bytes :: "'vk \<Rightarrow> verification_key"
  g16_from_seed :: "bytes \<Rightarrow> 'rng"
  g16_fr_rand :: "'rng \<Rightarrow> fp \<times> 'rng"

definition random_blinding :: "('rng, 'pk, 'vk, 'proof, 'err) groth16 \<Rightarrow> 'rng \<Rightarrow> fp \<times> 'rng" where
  "random_blinding g rng = g16_fr_rand g rng"

section \<open>The API of the circuit crate\<close>

definition generate_proof ::
  "('rng, 'pk, 'vk, 'proof, 'err) groth16 \<Rightarrow> score_witness \<Rightarrow> score_public_inputs \<Rightarrow> 'pk \<Rightarrow> 'rng
     \<Rightarrow> ('err, 'proof) outcome \<times> 'rng" where
  "generate_proof g w pub pk rng = g16_prove g pk (score_circuit_new (Some w) pub) rng"

definition verify_proof ::
  "('rng, 'pk, 'vk, 'proof, 'err) groth16 \<Rightarrow> 'proof \<Rightarrow> score_public_inputs \<Rightarrow> 'vk \<Rightarrow> ('err, bool) outcome" where
  "verify_proof g proof pub vk = g16_verify g vk (public_input_vector pub) proof"

definition generate_test_keys ::
  "('rng, 'pk, 'vk, 'proof, 'err) groth16 \<Rightarrow> 'rng \<Rightarrow> ('err, 'pk \<times> 'vk) outcome \<times> 'rng" where
  "generate_test_keys g rng =
     g16_setup g (score_circuit_new None
       \<lparr>zp_threshold = 0, zp_subject = 0, zp_credit_oracle_id = 0, zp_score_commitment = 0,
        zp_snapshot_ledger = 0, zp_domain_separator = 0\<rparr>) rng"

section \<open>The browser prover\<close>

text \<open>\<open>generate_score_proof\<close>: an error of the crate becomes its text, the bytes are those of A, B and C.\<close>

definition generate_score_proof ::
  "fr_field \<Rightarrow> (bytes \<Rightarrow> bytes) \<Rightarrow> ('rng, 'pk, 'vk, 'proof, 'err) groth16 \<Rightarrow> ('err \<Rightarrow> string)
     \<Rightarrow> score_proof_args \<Rightarrow> (string, bytes) outcome" where
  "generate_score_proof f sha256 g err_text a =
     outcome_bind (zk_prepare f sha256 a) (\<lambda>(w, pub).
       case generate_test_keys g (g16_from_seed g (replicate 32 0)) of
         (Err e, rng) \<Rightarrow> Err (err_text e)
       | (Trap, rng) \<Rightarrow> Trap
       | (Ok (pk, vk), rng) \<Rightarrow>
           (case generate_proof g w pub pk rng of
              (Err e, rng') \<Rightarrow> Err (err_text e)
            | (Trap, rng') \<Rightarrow> Trap
            | (Ok proof, rng') \<Rightarrow>
                (case g16_proof_bytes g proof of (a, b, c) \<Rightarrow> Ok (a @ b @ c))))"

section \<open>The key printer\<close>

definition hex_digit :: "nat \<Rightarrow> char" where
  "hex_digit n = (if n < 10 then char_of (48 + n) else char_of (55 + n))"

text \<open>\<open>{:02X}\<close> with its prefix and separator, and the line break after sixteen bytes.\<close>

definition print_byte :: "u8 \<Rightarrow> string" where
  "print_byte b = ''0x'' @ [hex_digit (unat b div 16), hex_digit (unat b mod 16)] @ '', ''"

definition newline :: string where "newline = [CHR 0x0A]"

fun print_bytes :: "nat \<Rightarrow> bytes \<Rightarrow> string" where
  "print_bytes i [] = ''''"
| "print_bytes i (b # bs) =
     print_byte b @ (if i mod 16 = 15 then newline @ ''    '' else '''') @ print_bytes (i + 1) bs"

definition print_array :: "string \<Rightarrow> bytes \<Rightarrow> string" where
  "print_array name bs =
     ''let '' @ name @ '' = ['' @ newline @ ''    '' @ print_bytes 0 bs @ ''];'' @ newline @ newline"

fun show_nat :: "nat \<Rightarrow> string" where
  "show_nat n = (if n < 10 then [char_of (48 + n)] else show_nat (n div 10) @ [char_of (48 + n mod 10)])"

text \<open>
  \<open>serialize_uncompressed\<close> into a buffer of \<open>n\<close> zeros, and its \<open>unwrap\<close>: it fails when the bytes do not fit, and
  leaves zeros behind them when they are fewer.
\<close>

definition padded :: "nat \<Rightarrow> bytes \<Rightarrow> bytes" where
  "padded n bs = bs @ replicate (n - length bs) 0"

definition serialize_into :: "nat \<Rightarrow> bytes \<Rightarrow> ('err, bytes) outcome" where
  "serialize_into n bs = (if length bs \<le> n then Ok (padded n bs) else Trap)"

fun print_gamma_abc :: "nat \<Rightarrow> bytes list \<Rightarrow> ('err, string) outcome" where
  "print_gamma_abc i [] = Ok ''''"
| "print_gamma_abc i (g # gs) =
     outcome_bind (serialize_into 96 g) (\<lambda>g_bytes.
     outcome_bind (print_gamma_abc (i + 1) gs) (\<lambda>rest.
       Ok (print_array (''gamma_abc_'' @ show_nat i) g_bytes @ rest)))"

text \<open>\<open>main\<close>, as the text it prints; what was printed before a panic is not kept.\<close>

definition generate_vk :: "('rng, 'pk, 'vk, 'proof, 'err) groth16 \<Rightarrow> ('err, string) outcome" where
  "generate_vk g =
     (case generate_test_keys g (g16_from_seed g (replicate 32 0)) of
        (Ok (pk, vk), rng) \<Rightarrow>
          (let k = g16_vk_bytes g vk
           in outcome_bind (serialize_into 96 (vk_alpha k)) (\<lambda>alpha.
              outcome_bind (serialize_into 192 (vk_beta k)) (\<lambda>beta.
              outcome_bind (serialize_into 192 (vk_gamma k)) (\<lambda>gamma.
              outcome_bind (serialize_into 192 (vk_delta k)) (\<lambda>delta.
              outcome_bind (print_gamma_abc 0 (vk_gamma_abc k)) (\<lambda>rest.
                Ok (print_array ''alpha_bytes'' alpha @ print_array ''beta_bytes'' beta
                  @ print_array ''gamma_bytes'' gamma @ print_array ''delta_bytes'' delta @ rest)))))))
      | _ \<Rightarrow> Trap)"

section \<open>What is documented of Groth16\<close>

text \<open>Completeness: under keys of the setup, an assignment that satisfies the circuit has a proof that verifies.\<close>

definition g16_complete ::
  "fr_field \<Rightarrow> (bytes \<Rightarrow> bytes) \<Rightarrow> ('rng, 'pk, 'vk, 'proof, 'err) groth16 \<Rightarrow> bool" where
  "g16_complete f sha256 g \<longleftrightarrow>
     (\<forall>rng pk vk rng1 w pub rng2. generate_test_keys g rng = (Ok (pk, vk), rng1) \<longrightarrow>
        circuit_sat f sha256 pub (wires_of_witness w) \<longrightarrow>
        (\<exists>p rng3. g16_prove g pk (score_circuit_new (Some w) pub) rng2 = (Ok p, rng3) \<and>
           g16_verify g vk (public_input_vector pub) p = Ok True))"

section \<open>Lemmas\<close>

text \<open>The forged assignment of the wires as a witness the API accepts.\<close>

definition forged_witness :: "fr_field \<Rightarrow> (bytes \<Rightarrow> bytes) \<Rightarrow> score_public_inputs \<Rightarrow> score_witness" where
  "forged_witness f sha256 pub = score_witness_default
     \<lparr>sw_score := 998, sw_vc_weight := 127, sw_repayment_weight := 0, sw_vc_score := 100,
      sw_composite := 127, sw_blinding := wr_blinding (forged_wires f sha256 pub)\<rparr>"

lemma wires_of_forged: "wires_of_witness (forged_witness f sha pub) = forged_wires f sha pub"
proof -
  have "volume_wire 0 = 0" by (simp add: volume_wire_def i128_max_def)
  then show ?thesis
    by (simp add: forged_witness_def forged_wires_def wires_of_witness_def score_witness_default_def
        zero_wires_def Let_def)
qed

lemma forged_sat:
  assumes "fr_field_ok f"
  shows "circuit_sat f sha pub (wires_of_witness (forged_witness f sha pub)) \<longleftrightarrow> unat (zp_threshold pub) < 998"
  unfolding wires_of_forged sat_meaning [OF assms] by (rule forged_meaning)

lemma sat_threshold:
  assumes "fr_field_ok f" and "circuit_sat f sha pub w"
  shows "unat (zp_threshold pub) < 998"
  using meaning_score_le assms(2) unfolding sat_meaning [OF assms(1)] by fastforce

text \<open>The printed array read back: every \<open>0xHH\<close> is a byte.\<close>

definition hex_value :: "char \<Rightarrow> nat" where
  "hex_value c = (if of_char c < (58 :: nat) then of_char c - 48 else of_char c - 55)"

fun read_bytes :: "string \<Rightarrow> bytes" where
  "read_bytes (a # b # h # l # s) =
     (if a = CHR ''0'' \<and> b = CHR ''x'' then of_nat (16 * hex_value h + hex_value l) # read_bytes s
      else read_bytes (b # h # l # s))"
| "read_bytes s = []"

lemma hex_digit_value: "n < 16 \<Longrightarrow> hex_value (hex_digit n) = n"
  by (auto simp: hex_value_def hex_digit_def)

lemma read_skip:
  assumes "a \<noteq> CHR ''0'' \<or> (\<forall>b t. s = b # t \<longrightarrow> b \<noteq> CHR ''x'')"
  shows "read_bytes (a # s) = read_bytes s"
  using assms by (cases s rule: read_bytes.cases) (auto elim: read_bytes.elims)

lemma read_skip_text:
  assumes "CHR ''x'' \<notin> set xs" and "\<forall>b t. s = b # t \<longrightarrow> b \<noteq> CHR ''x''"
  shows "read_bytes (xs @ s) = read_bytes s"
  using assms(1)
proof (induction xs)
  case (Cons a xs)
  have "\<forall>b t. xs @ s = b # t \<longrightarrow> b \<noteq> CHR ''x''"
    using Cons.prems assms(2) by (cases xs) auto
  then show ?case using Cons read_skip [of a "xs @ s"] by simp
qed simp

lemma read_print_byte: "read_bytes (print_byte b @ s) = b # read_bytes s"
proof -
  have "unat b < 256" using unsigned_less [of b, where ?'a = nat] by simp
  then have "hex_value (hex_digit (unat b div 16)) = unat b div 16"
    "hex_value (hex_digit (unat b mod 16)) = unat b mod 16"
    by (simp_all add: hex_digit_value)
  then show ?thesis by (simp add: print_byte_def read_skip word_unat_eq_iff)
qed

lemma read_print_bytes: "read_bytes (print_bytes i bs @ s) = bs @ read_bytes s"
  by (induction bs arbitrary: i) (simp_all add: read_print_byte newline_def read_skip)

lemma show_nat_digits: "CHR ''x'' \<notin> set (show_nat n)"
proof (induction n rule: show_nat.induct)
  case (1 n)
  have digit: "char_of (48 + k) \<noteq> CHR ''x''" if "k < 10" for k :: nat
    using that by (auto dest: arg_cong [of _ _ "of_char :: char \<Rightarrow> nat"])
  show ?case using 1 digit [of n] digit [of "n mod 10"] by (subst show_nat.simps) auto
qed

lemma read_print_array:
  assumes "CHR ''x'' \<notin> set name" and "\<forall>b t. s = b # t \<longrightarrow> b \<noteq> CHR ''x''"
  shows "read_bytes (print_array name bs @ s) = bs @ read_bytes s"
proof -
  have prefix: "CHR ''x'' \<notin> set (''let '' @ name @ '' = ['' @ newline @ ''    '')"
    using assms(1) by (simp add: newline_def)
  have tail: "CHR ''x'' \<notin> set (''];'' @ newline @ newline)"
    by (simp add: newline_def)
  have rest: "\<forall>b t. print_bytes 0 bs @ (''];'' @ newline @ newline) @ s = b # t \<longrightarrow> b \<noteq> CHR ''x''"
    by (cases bs) (simp_all add: print_byte_def)
  have "read_bytes (print_array name bs @ s) = read_bytes (print_bytes 0 bs @ (''];'' @ newline @ newline) @ s)"
    using read_skip_text [OF prefix rest] by (simp only: print_array_def append_assoc)
  also have "\<dots> = bs @ read_bytes s"
    by (simp only: read_print_bytes read_skip_text [OF tail assms(2)])
  finally show ?thesis .
qed

lemma print_array_head: "print_array name bs @ s = CHR ''l'' # tl (print_array name bs) @ s"
  by (simp add: print_array_def)

text \<open>The text of the last loop, for buffers that were filled.\<close>

fun gamma_text :: "nat \<Rightarrow> bytes list \<Rightarrow> string" where
  "gamma_text i [] = ''''"
| "gamma_text i (g # gs) = print_array (''gamma_abc_'' @ show_nat i) g @ gamma_text (i + 1) gs"

lemma print_gamma_abc_text:
  "print_gamma_abc i gs =
     (if \<forall>g\<in>set gs. length g \<le> 96 then Ok (gamma_text i (map (padded 96) gs)) else Trap)"
  by (induction gs arbitrary: i) (auto simp: serialize_into_def)

lemma read_print_gamma: "read_bytes (gamma_text i gs) = concat gs"
proof (induction gs arbitrary: i)
  case (Cons g gs)
  have "\<forall>b t. gamma_text (i + 1) gs = b # t \<longrightarrow> b \<noteq> CHR ''x''"
    by (cases gs) (auto simp: print_array_head)
  then show ?case
    using Cons read_print_array [of "''gamma_abc_'' @ show_nat i" "gamma_text (i + 1) gs" g] show_nat_digits [of i]
    by simp
qed simp

lemma array_head: "\<forall>b t. print_array name bs @ s = b # t \<longrightarrow> b \<noteq> CHR ''x''"
  by (simp add: print_array_def)

lemma print_gamma_head: "\<forall>b t. gamma_text i gs = b # t \<longrightarrow> b \<noteq> CHR ''x''"
  by (cases gs) (auto simp: print_array_head)

lemma le_value_less: "le_value bs < 256 ^ length bs"
proof (induction bs)
  case (Cons b bs)
  have "unat b < 256" using unsigned_less [of b, where ?'a = nat] by simp
  then show ?case using Cons by simp
qed simp

text \<open>A 32-bit number is read back from its encoding as a scalar only when it is zero.\<close>

lemma between_multiples:
  fixes k :: int
  assumes "m * k = m * c + d" and "0 < d" and "d < m"
  shows False
proof (cases "k \<le> c")
  case True
  then have "m * k \<le> m * c" using assms(2,3) by (intro mult_left_mono) simp_all
  then show False using assms by simp
next
  case False
  then have "m * (c + 1) \<le> m * k" using assms(2,3) by (intro mult_left_mono) simp_all
  then show False using assms by (simp add: algebra_simps)
qed

lemma field_of_u32: "fr_from_be_bytes zk_demo_field (u32_to_field v) = uint v \<longleftrightarrow> v = 0"
proof
  define r where "r = fr_modulus zk_demo_field"
  obtain k where k: "be_value (u32_to_field v) = 2 ^ 224 * k" "k = 0 \<longleftrightarrow> v = 0"
    by (rule be_value_u32_to_field)
  show "v = 0 \<Longrightarrow> fr_from_be_bytes zk_demo_field (u32_to_field v) = uint v"
    using k by (simp add: fr_from_be_bytes_def)
  assume eq: "fr_from_be_bytes zk_demo_field (u32_to_field v) = uint v"
  define q where "q = 2 ^ 224 * int k div r"
  have r: "r = 2 ^ 224 * 1944954707 + 4382591332748616017047120557598407645868554477006523391032478924801"
    by (simp add: r_def zk_demo_field_def)
  have v: "0 \<le> uint v" "uint v < 2 ^ 32" using uint_lt2p [of v] by simp_all
  have "int (be_value (u32_to_field v)) < 2 ^ 256"
    using le_value_less [of "rev (u32_to_field v)"] by (simp add: be_value_def u32_to_field_def)
  then have k256: "2 ^ 224 * int k < 2 ^ 256" using k(1) by simp
  have split: "2 ^ 224 * int k = r * q + uint v"
    using eq k(1) mult_div_mod_eq [of r "2 ^ 224 * int k"]
    by (simp add: fr_from_be_bytes_def r_def q_def)
  have q0: "0 \<le> q" unfolding q_def by (intro pos_imp_zdiv_nonneg_iff [THEN iffD2]) (simp_all add: r)
  have q2: "q \<le> 2"
  proof (rule ccontr)
    assume "\<not> q \<le> 2"
    then have "r * 3 \<le> r * q" by (intro mult_left_mono) (simp_all add: r)
    then show False using split k256 v(1) by (simp add: r)
  qed
  show "v = 0"
  proof (rule ccontr)
    assume "v \<noteq> 0"
    then have "uint v \<noteq> 0" by (simp add: uint_0_iff)
    then have vpos: "0 < uint v" using v(1) by linarith
    have sumpos: "0 < n + uint v" if "0 \<le> n" for n using v(1) vpos that by linarith
    consider "q = 0" | "q = 1" | "q = 2" using q0 q2 by linarith
    then show False
    proof cases
      case 1
      then show ?thesis using split v vpos by (intro between_multiples [of "2 ^ 224" "int k" 0 "uint v"]) simp_all
    next
      case 2
      then show ?thesis using split v sumpos
        by (intro between_multiples [of "2 ^ 224" "int k" 1944954707
              "4382591332748616017047120557598407645868554477006523391032478924801 + uint v"])
          (simp_all add: r)
    next
      case 3
      then show ?thesis using split v sumpos
        by (intro between_multiples [of "2 ^ 224" "int k" "2 * 1944954707"
              "2 * 4382591332748616017047120557598407645868554477006523391032478924801 + uint v"])
          (simp_all add: r)
    qed
  qed
qed

section \<open>Properties\<close>

text \<open>An idealised proof system to evaluate on: a proof is the assignment itself, in 384 bytes.\<close>

definition pub_of_vector :: "fp list \<Rightarrow> score_public_inputs" where
  "pub_of_vector xs = \<lparr>zp_threshold = word_of_int (xs ! 0), zp_subject = xs ! 1, zp_credit_oracle_id = xs ! 2,
     zp_score_commitment = xs ! 3, zp_snapshot_ledger = word_of_int (xs ! 4), zp_domain_separator = xs ! 5\<rparr>"

definition g16_demo :: "(unit, unit, unit, score_wires, unit) groth16" where
  "g16_demo = \<lparr>g16_setup = (\<lambda>c rng. (Ok ((), ()), rng)),
     g16_prove = (\<lambda>pk c rng. (case sc_witness c of None \<Rightarrow> Err () | Some w \<Rightarrow> Ok (wires_of_witness w), rng)),
     g16_verify = (\<lambda>vk xs p. Ok (circuit_sat zk_demo_field zk_demo_sha (pub_of_vector xs) p)),
     g16_proof_bytes = (\<lambda>p. (replicate 96 0, replicate 192 0, replicate 96 0)),
     g16_vk_bytes = (\<lambda>vk. \<lparr>vk_alpha = replicate 96 0xAB, vk_beta = replicate 192 1, vk_gamma = replicate 192 0x10,
       vk_delta = replicate 192 7, vk_gamma_abc = [replicate 96 2, replicate 96 255]\<rparr>),
     g16_from_seed = (\<lambda>seed. ()), g16_fr_rand = (\<lambda>rng. (1, rng))\<rparr>"

lemma pub_of_public_input_vector: "pub_of_vector (public_input_vector pub) = pub"
  by (simp add: pub_of_vector_def public_input_vector_def)

lemma g16_demo_complete: "g16_complete zk_demo_field zk_demo_sha g16_demo"
  by (simp add: g16_complete_def g16_demo_def score_circuit_new_def pub_of_public_input_vector)

lemma g16_demo_keys: "generate_test_keys g16_demo rng = (Ok ((), ()), rng)"
  by (simp add: generate_test_keys_def g16_demo_def)

text \<open>C34: The pipeline works for an honest holder whose volume and repaid amount are below 2^32 units of 10^8,
  under the completeness of Groth16: for valid weights and inputs whose score exceeds the threshold and whose two
  repayment scores have an even sum,
  \<open>generate_score_proof\<close> returns bytes, the proof in them verifies under the key that \<open>generate_vk\<close>
  prints, for the requested threshold, and they are exactly the 384 bytes that the on-chain verifier
  cuts back into A, B and C.\<close>

theorem zk_pipeline_honest:
  assumes "fr_field_ok f" and "honest_args a" and "32 \<le> length (sa_subject a)"
    and "32 \<le> length (sa_credit_oracle_id a)" and "32 \<le> length (sa_domain_separator a)"
    and "sa_threshold a < compute_score_pure (sa_vc_points a) (sa_tx_volume_30d a) (sa_avg_counterparties a)
      (sa_on_time_count a) (sa_total_count a) (sa_total_repaid a) (sa_vc_weight a) (sa_tx_weight a)
      (sa_repayment_weight a)"
    and "even (rate_spec (unat (sa_on_time_count a)) (unat (sa_total_count a))
             + capped_volume (sint (sa_total_repaid a)) 100)"
    and "g16_complete f sha g"
    and "generate_test_keys g (g16_from_seed g (replicate 32 0)) = (Ok (pk, vk), rng)"
    and "\<And>p x y z. g16_proof_bytes g p = (x, y, z) \<Longrightarrow> length x = 96 \<and> length y = 192 \<and> length z = 96"
  shows "\<exists>p pub bs. generate_score_proof f sha g err_text a = Ok bs \<and> verify_proof g p pub vk = Ok True \<and>
    zp_threshold pub = sa_threshold a \<and> length bs = PROOF_SIZE \<and>
    g16_proof_bytes g p = (take 96 bs, take 192 (drop 96 bs), take 96 (drop 288 bs))"
proof -
  obtain w pub where r: "(zk_prepare f sha a :: (string, score_witness \<times> score_public_inputs) outcome) = Ok (w, pub)"
    and t: "zp_threshold pub = sa_threshold a" and sat: "circuit_sat f sha pub (wires_of_witness w)"
    using honest_prover_run [OF assms(1-5) refl, of sha] assms(6,7) unfolding word_less_nat_alt by metis
  obtain p rng3 where p: "g16_prove g pk (score_circuit_new (Some w) pub) rng = (Ok p, rng3)"
      "g16_verify g vk (public_input_vector pub) p = Ok True"
    using assms(8,9) sat unfolding g16_complete_def by blast
  obtain x y z where b: "g16_proof_bytes g p = (x, y, z)" by (cases "g16_proof_bytes g p") auto
  note len = assms(10) [OF b]
  have "generate_score_proof f sha g err_text a = Ok (x @ y @ z)"
    by (simp add: generate_score_proof_def r assms(9) generate_proof_def p(1) b)
  moreover have "verify_proof g p pub vk = Ok True" using p(2) by (simp add: verify_proof_def)
  moreover have "length (x @ y @ z) = PROOF_SIZE" using len by (simp add: PROOF_SIZE_def)
  ultimately show ?thesis using t b len by (intro exI [of _ p] exI [of _ pub] exI [of _ "x @ y @ z"]) simp
qed

theorem zk_pipeline_honest_witness:
  "\<exists>bs. generate_score_proof zk_demo_field zk_demo_sha g16_demo (\<lambda>e. ''setup'') (zk_demo_args 50) = Ok bs
     \<and> length bs = 384"
proof -
  have "\<exists>p pub bs. generate_score_proof zk_demo_field zk_demo_sha g16_demo (\<lambda>e. ''setup'') (zk_demo_args 50) = Ok bs
      \<and> verify_proof g16_demo p pub () = Ok True \<and> zp_threshold pub = sa_threshold (zk_demo_args 50)
      \<and> length bs = PROOF_SIZE \<and> g16_proof_bytes g16_demo p = (take 96 bs, take 192 (drop 96 bs), take 96 (drop 288 bs))"
    by (rule zk_pipeline_honest [OF zk_demo_field_ok zk_demo_args_ok _ _ g16_demo_complete g16_demo_keys])
      (simp_all add: zk_demo_args_sel word_less_nat_alt zk_demo_score g16_demo_def)
  then show ?thesis unfolding PROOF_SIZE_def by blast
qed

text \<open>C37: The key printer is read back: for keys the setup returns, \<open>generate_vk\<close> panics when a component is longer
  than its buffer of 96 or 192 bytes, and otherwise prints a text in which the \<open>0xHH\<close> items, in order,
  are exactly the buffers of alpha, beta, gamma, delta and of every \<open>gamma_abc\<close> point: the uncompressed bytes, with
  zeros behind a component that is shorter than its buffer, so the bytes alone when all fill theirs. No
  variable name or separator is taken for a byte.\<close>

theorem generate_vk_roundtrip:
  assumes "generate_test_keys g (g16_from_seed g (replicate 32 0)) = (Ok (pk, vk), rng)"
    and "k = g16_vk_bytes g vk"
  shows "(if length (vk_alpha k) \<le> 96 \<and> length (vk_beta k) \<le> 192 \<and> length (vk_gamma k) \<le> 192 \<and>
          length (vk_delta k) \<le> 192 \<and> (\<forall>p\<in>set (vk_gamma_abc k). length p \<le> 96)
       then \<exists>text. generate_vk g = Ok text \<and>
         read_bytes text = padded 96 (vk_alpha k) @ padded 192 (vk_beta k) @ padded 192 (vk_gamma k)
           @ padded 192 (vk_delta k) @ concat (map (padded 96) (vk_gamma_abc k))
       else generate_vk g = Trap)
    \<and> (length (vk_alpha k) = 96 \<and> length (vk_beta k) = 192 \<and> length (vk_gamma k) = 192 \<and>
        length (vk_delta k) = 192 \<and> (\<forall>p\<in>set (vk_gamma_abc k). length p = 96) \<longrightarrow>
       (\<exists>text. generate_vk g = Ok text \<and>
          read_bytes text = vk_alpha k @ vk_beta k @ vk_gamma k @ vk_delta k @ concat (vk_gamma_abc k)))"
proof -
  have reads: "read_bytes (print_array ''alpha_bytes'' a @ print_array ''beta_bytes'' b
        @ print_array ''gamma_bytes'' c @ print_array ''delta_bytes'' d @ gamma_text 0 gs)
      = a @ b @ c @ d @ concat gs" for a b c d gs
    by (simp add: read_print_array [OF _ array_head] read_print_array [OF _ print_gamma_head] read_print_gamma)
  have run: "generate_vk g =
      (if length (vk_alpha k) \<le> 96 \<and> length (vk_beta k) \<le> 192 \<and> length (vk_gamma k) \<le> 192 \<and>
          length (vk_delta k) \<le> 192 \<and> (\<forall>p\<in>set (vk_gamma_abc k). length p \<le> 96)
       then Ok (print_array ''alpha_bytes'' (padded 96 (vk_alpha k)) @ print_array ''beta_bytes'' (padded 192 (vk_beta k))
         @ print_array ''gamma_bytes'' (padded 192 (vk_gamma k)) @ print_array ''delta_bytes'' (padded 192 (vk_delta k))
         @ gamma_text 0 (map (padded 96) (vk_gamma_abc k)))
       else Trap)"
    using assms by (simp add: generate_vk_def Let_def print_gamma_abc_text serialize_into_def)
  have full: "map (padded 96) gs = gs" if "\<forall>p\<in>set gs. length p = 96" for gs
    using that by (induction gs) (simp_all add: padded_def)
  show ?thesis
    unfolding run by (auto simp: reads full) (simp_all add: padded_def)
qed

theorem generate_vk_roundtrip_witness:
  "\<exists>text. generate_vk g16_demo = Ok text \<and> read_bytes text = replicate 96 0xAB @ replicate 192 1
     @ replicate 192 0x10 @ replicate 192 7 @ replicate 96 2 @ replicate 96 255"
  using generate_vk_roundtrip [OF g16_demo_keys refl] by (simp add: g16_demo_def)

text \<open>C35: The pipeline can be cheated at the API, under the completeness of Groth16 alone: for keys of the
  setup and any subject, oracle, commitment and domain, below the threshold 998 \<open>generate_proof\<close> makes a proof that
  \<open>verify_proof\<close> accepts from a witness whose credential points, volume, counterparties, repayments and repaid
  amount are all zero; and 998 is where it ends, since from there on no witness satisfies the
  circuit.\<close>

theorem zk_pipeline_forgeable:
  assumes "fr_field_ok f" and "g16_complete f sha g"
    and "generate_test_keys g rng = (Ok (pk, vk), rng1)"
  shows "(unat (zp_threshold pub) < 998 \<longrightarrow>
        (\<exists>p rng3. generate_proof g (forged_witness f sha pub) pub pk rng2 = (Ok p, rng3)
           \<and> verify_proof g p pub vk = Ok True))
    \<and> ((\<exists>w. circuit_sat f sha pub (wires_of_witness w)) \<longleftrightarrow> unat (zp_threshold pub) < 998)
    \<and> sw_vc_points (forged_witness f sha pub) = 0 \<and> sw_tx_volume_30d (forged_witness f sha pub) = 0
    \<and> sw_avg_counterparties (forged_witness f sha pub) = 0 \<and> sw_on_time_count (forged_witness f sha pub) = 0
    \<and> sw_total_count (forged_witness f sha pub) = 0 \<and> sw_total_repaid (forged_witness f sha pub) = 0"
proof -
  have made: "\<exists>p rng3. generate_proof g (forged_witness f sha pub) pub pk rng2 = (Ok p, rng3)
      \<and> verify_proof g p pub vk = Ok True" if "unat (zp_threshold pub) < 998"
    using assms(2,3) that forged_sat [OF assms(1)]
    unfolding g16_complete_def generate_proof_def verify_proof_def by blast
  have sat: "(\<exists>w. circuit_sat f sha pub (wires_of_witness w)) \<longleftrightarrow> unat (zp_threshold pub) < 998"
    using forged_sat [OF assms(1)] sat_threshold [OF assms(1)] by blast
  have zero: "sw_vc_points (forged_witness f sha pub) = 0 \<and> sw_tx_volume_30d (forged_witness f sha pub) = 0
    \<and> sw_avg_counterparties (forged_witness f sha pub) = 0 \<and> sw_on_time_count (forged_witness f sha pub) = 0
    \<and> sw_total_count (forged_witness f sha pub) = 0 \<and> sw_total_repaid (forged_witness f sha pub) = 0"
    by (simp add: forged_witness_def score_witness_default_def)
  from made sat zero show ?thesis by blast
qed

theorem zk_pipeline_forgeable_witness:
  "(\<exists>p. generate_proof g16_demo (forged_witness zk_demo_field zk_demo_sha zk_demo_public) zk_demo_public () ()
        = (Ok p, ()) \<and> verify_proof g16_demo p zk_demo_public () = Ok True)
   \<and> unat (zp_threshold zk_demo_public) = 900"
proof -
  have "unat (zp_threshold zk_demo_public) = 900" by (simp add: zk_demo_public_def)
  then show ?thesis
    using zk_pipeline_forgeable [OF zk_demo_field_ok g16_demo_complete g16_demo_keys,
      of zk_demo_public "()"] by simp
qed

text \<open>C36: The verifier contract does not read the public inputs the circuit has: the host takes a field
  element as 32 bytes, most significant first and modulo the order of the BLS12-381 scalars, while
  \<open>u32_to_field\<close> puts the least significant byte first. When the contract's inputs denote the same
  claim as the prover's, the two vectors agree exactly when the threshold and the snapshot ledger
  are both zero: a proof for any other claim is checked against the wrong inputs.\<close>

theorem srv_inputs_mismatch:
  fixes h :: "('g1, 'g2, fp) bls_host"
  assumes "\<And>bs. bh_fr_from_bytes h bs = fr_from_be_bytes zk_demo_field bs"
    and "zp_threshold pub = pi_threshold i" and "zp_snapshot_ledger pub = pi_snapshot_ledger i"
    and "zp_subject pub = fr_from_be_bytes zk_demo_field (address_to_field h (pi_subject i))"
    and "zp_credit_oracle_id pub = fr_from_be_bytes zk_demo_field (address_to_field h (pi_credit_oracle_id i))"
    and "zp_score_commitment pub = fr_from_be_bytes zk_demo_field (pi_score_commitment i)"
    and "zp_domain_separator pub = fr_from_be_bytes zk_demo_field (pi_domain_separator i)"
  shows "map (bh_fr_from_bytes h) (public_inputs_to_fields h i) = public_input_vector pub
    \<longleftrightarrow> pi_threshold i = 0 \<and> pi_snapshot_ledger i = 0"
  by (simp add: public_inputs_to_fields_def public_input_vector_def assms field_of_u32)

definition fr_demo_host :: "(int, int, fp) bls_host" where
  "fr_demo_host = \<lparr>bh_g1_from_bytes = (\<lambda>bs. 1), bh_g2_from_bytes = (\<lambda>bs. 1),
     bh_fr_from_bytes = fr_from_be_bytes zk_demo_field, bh_g1_neg = uminus, bh_g1_mul = (\<lambda>x k. Some (x * k)),
     bh_g1_add = (\<lambda>x y. Some (x + y)), bh_pairing_check = (\<lambda>xs ys. Some True),
     bh_sha256 = (\<lambda>bs. replicate 31 0 @ [of_nat (length bs)]), bh_to_xdr = (\<lambda>a. [1])\<rparr>"

theorem srv_inputs_mismatch_witness:
  "map (bh_fr_from_bytes fr_demo_host) (public_inputs_to_fields fr_demo_host srv_demo_inputs)
     \<noteq> public_input_vector \<lparr>zp_threshold = 700, zp_subject = 1, zp_credit_oracle_id = 1,
         zp_score_commitment = fr_from_be_bytes zk_demo_field (replicate 32 1), zp_snapshot_ledger = 12345,
         zp_domain_separator = fr_from_be_bytes zk_demo_field (replicate 32 2)\<rparr>"
proof -
  have one: "fr_from_be_bytes zk_demo_field (address_to_field fr_demo_host a) = 1" for a
    by (simp add: fr_demo_host_def address_to_field_def fr_from_be_bytes_def be_value_def zk_demo_field_def)
  show ?thesis
    by (subst srv_inputs_mismatch) (simp_all add: one srv_demo_inputs_def, simp_all add: fr_demo_host_def)
qed

end
