(* ===== verification/Protocol.thy ===== *)
theory Protocol
  imports Revocation_Registry Identity_Oracle Credit_Oracle Governance
begin

text \<open>
  The contracts together. Each cross-contract call of one model is instantiated with the
  model of the contract it reaches: the revocation queries of the identity-oracle with the
  registry, the \<open>mark_vc_revoked\<close> call of the registry and the five reads of the
  credit-oracle with the identity-oracle, and the calls of governance with the credit-oracle.
  The contracts sit at the addresses \<open>rid\<close>, \<open>iid\<close> and \<open>cid\<close>. The host refuses a call into a contract
  that is already on the call stack; a refused call traps its caller (\<open>None\<close>).
\<close>

section \<open>The calls between the contracts\<close>

text \<open>\<open>is_revoked\<close> of the registry, asked by the identity-oracle while it runs in \<open>e\<close>.\<close>

definition pr_query :: "address \<Rightarrow> rr_state \<Rightarrow> env \<Rightarrow> registry_query" where
  "pr_query rid r e a h =
     (if a = rid \<and> rid \<notin> set (call_stack e) then Some (rr_is_revoked r h) else None)"

text \<open>\<open>mark_vc_revoked\<close> of the identity-oracle, called by the registry (state \<open>r\<close>).\<close>

definition pr_mark :: "address \<Rightarrow> address \<Rightarrow> rr_state \<Rightarrow> io_state mark_call" where
  "pr_mark rid iid r e oid issu subject h t =
     (if oid = iid
      then (case io_mark_vc_revoked e (pr_query rid r e) issu subject h t of
              Ok t' \<Rightarrow> Some t' | Err _ \<Rightarrow> None | Trap \<Rightarrow> None)
      else None)"

definition pr_revoke ::
  "env \<Rightarrow> address \<Rightarrow> address \<Rightarrow> address \<Rightarrow> vc_hash \<Rightarrow> rr_state \<times> io_state
     \<Rightarrow> (rr_error, rr_state \<times> io_state) outcome" where
  "pr_revoke e iid issu subject h rt =
     rr_revoke e (pr_mark (current_contract e) iid (fst rt)) issu subject h rt"

text \<open>The reads of the credit-oracle, running in \<open>e\<close>, on the identity-oracle (state \<open>t\<close>).\<close>

definition pr_view :: "address \<Rightarrow> address \<Rightarrow> env \<Rightarrow> rr_state \<Rightarrow> io_state \<Rightarrow> identity_view" where
  "pr_view rid iid e r t =
     (let rq = pr_query rid r (call_env e iid)
      in \<lparr>iv_is_deactivated = (\<lambda>i a. if i = iid then Some (io_is_deactivated t a) else None),
          iv_get_vc_details = (\<lambda>i a. if i = iid then io_get_vc_details rq t a else None),
          iv_verify_vc = (\<lambda>i a h. if i = iid then io_verify_vc rq t a h else None),
          iv_get_vc_credential_type =
            (\<lambda>i a h. if i = iid then Some (io_get_vc_credential_type t a h) else None),
          iv_get_last_state_change_ledger =
            (\<lambda>i a. if i = iid then Some (io_get_last_state_change_ledger t a) else None)\<rparr>)"

text \<open>The calls of governance on the credit-oracle.\<close>

definition pr_propose :: "address \<Rightarrow> co_state propose_call" where
  "pr_propose cid e orc w s = (if orc = cid then co_propose_weights e w s else Trap)"

definition pr_apply :: "address \<Rightarrow> co_state apply_call" where
  "pr_apply cid e orc s = (if orc = cid then co_apply_weights e s else Trap)"

definition pr_accept :: "address \<Rightarrow> co_state accept_call" where
  "pr_accept cid e orc n s = (if orc = cid then co_accept_admin e n s else Trap)"

section \<open>The contracts keep each other's contracts\<close>

interpretation pr_source: revocation_source "pr_query rid r e"
    "\<lambda>a. a = rid \<and> rid \<notin> set (call_stack e)" for rid r e
  by unfold_locales (auto simp: pr_query_def)

text \<open>The identity-oracle is linked to no registry or to this one, which is not on the stack.\<close>

definition pr_linked :: "address \<Rightarrow> address \<Rightarrow> env \<Rightarrow> io_state \<Rightarrow> address \<Rightarrow> bool" where
  "pr_linked rid iid e t i \<longleftrightarrow>
     i = iid \<and> (\<forall>a. io_registry_id t = Some a \<longrightarrow> a = rid \<and> rid \<notin> set (current_contract e # call_stack e))"

text \<open>The records that count: neither revoked in place nor, under a linked registry, by hash.\<close>

definition pr_counted :: "rr_state \<Rightarrow> io_state \<Rightarrow> address \<Rightarrow> identity_vc_record list" where
  "pr_counted r t a =
     filter (\<lambda>v. \<not> revoked v \<and> \<not> (io_registry_id t \<noteq> None \<and> rr_is_revoked r (vc_hash_of v))) (io_anchors t a)"

lemma pr_record_revoked:
  assumes "pr_linked rid iid e t iid"
  shows "record_revoked (pr_query rid r (call_env e iid)) t v \<longleftrightarrow>
    revoked v \<or> io_registry_id t \<noteq> None \<and> rr_is_revoked r (vc_hash_of v)"
  using assms by (auto simp: record_revoked_def pr_query_def pr_linked_def)

lemma pr_details:
  assumes "pr_linked rid iid e t iid"
  shows "io_get_vc_details (pr_query rid r (call_env e iid)) t a = Some (pr_counted r t a)"
proof -
  have "io_registry_id t = Some b \<Longrightarrow> b = rid \<and> rid \<notin> set (call_stack (call_env e iid))" for b
    using assms by (simp add: pr_linked_def)
  from pr_source.details_total [of t rid "call_env e iid" r a, OF this] show ?thesis
    by (simp add: pr_counted_def pr_record_revoked [OF assms])
qed

lemma pr_verify:
  assumes "pr_linked rid iid e t iid"
  shows "io_verify_vc (pr_query rid r (call_env e iid)) t a h =
    Some (\<exists>v \<in> set (pr_counted r t a). vc_hash_of v = h)"
proof -
  have "io_registry_id t = Some b \<Longrightarrow> b = rid \<and> rid \<notin> set (call_stack (call_env e iid))" for b
    using assms by (simp add: pr_linked_def)
  from pr_source.verify_total [of t rid "call_env e iid" r a h, OF this] show ?thesis
    by (auto simp: pr_counted_def pr_record_revoked [OF assms])
qed

lemma pr_linked_iid: "pr_linked rid iid e t i \<Longrightarrow> i = iid \<and> pr_linked rid iid e t iid"
  by (auto simp: pr_linked_def)

interpretation pr_identity: identity_service "pr_view rid iid e r t" "pr_linked rid iid e t" for rid iid e r t
proof unfold_locales
  fix i a assume "pr_linked rid iid e t i"
  then show "\<exists>b. iv_is_deactivated (pr_view rid iid e r t) i a = Some b"
    by (simp add: pr_view_def pr_linked_def Let_def)
next
  fix i a assume "pr_linked rid iid e t i"
  from pr_linked_iid [OF this] pr_details [of rid iid e t r a]
  show "\<exists>rs. iv_get_vc_details (pr_view rid iid e r t) i a = Some rs" by (simp add: pr_view_def Let_def)
next
  fix i a rs v
  assume l: "pr_linked rid iid e t i" and d: "iv_get_vc_details (pr_view rid iid e r t) i a = Some rs"
    and v: "v \<in> set rs"
  from pr_linked_iid [OF l] have i: "i = iid" and l': "pr_linked rid iid e t iid" by auto
  have "rs = pr_counted r t a" using d pr_details [OF l', of r a] i by (simp add: pr_view_def Let_def)
  then show "iv_verify_vc (pr_view rid iid e r t) i a (vc_hash_of v) = Some True"
    using v pr_verify [OF l', of r a] i by (auto simp: pr_view_def Let_def)
next
  fix i a h assume "pr_linked rid iid e t i"
  then show "\<exists>ty. iv_get_vc_credential_type (pr_view rid iid e r t) i a h = Some ty"
    by (simp add: pr_view_def pr_linked_def Let_def)
qed

lemma pr_score_linked:
  assumes inv: "co_inv s" and "co_config s = Some x" and "\<not> co_is_paused s"
    and "check_compute_cooldown e a s = Ok ()" and "co_identity_oracle_id s = Some iid"
    and "card (dom (co_score s)) < 2 ^ 64 - 1"
    and "pr_linked rid iid e t iid" and "length (io_anchors t a) < 2 ^ 32"
  shows "if io_is_deactivated t a
    then co_compute_score e (pr_view rid iid e r t) a s = Ok (MIN_SCORE, s)
    else \<exists>n s' q. co_compute_score e (pr_view rid iid e r t) a s = Ok (n, s') \<and>
      co_score s' a = Some q \<and> score q = n \<and> unat (vc_count q) = length (pr_counted r t a) \<and>
      unat n = published_score s a x (min 100 (\<Sum>v\<leftarrow>pr_counted r t a.
        record_points e s (io_get_vc_credential_type t a (vc_hash_of v)) v))"
proof -
  have d: "iv_get_vc_details (pr_view rid iid e r t) iid a = Some (pr_counted r t a)"
    "iv_is_deactivated (pr_view rid iid e r t) iid a = Some (io_is_deactivated t a)"
    using pr_details [OF assms(7), of r a] by (simp_all add: pr_view_def Let_def)
  have ty: "vc_type_of (pr_view rid iid e r t) iid a v = io_get_vc_credential_type t a (vc_hash_of v)" for v
    by (simp add: vc_type_of_def pr_view_def Let_def)
  have "length (pr_counted r t a) < 2 ^ 32"
    using assms(8) le_less_trans [OF length_filter_le] unfolding pr_counted_def by blast
  from pr_identity.compute_linked [OF inv assms(2-5,7,6) d(1) this] show ?thesis
    unfolding d(2) ty by (cases "io_is_deactivated t a") auto
qed

section \<open>Properties\<close>

subsection \<open>Scoring across contracts\<close>

text \<open>\<open>compute_score\<close> across the contracts, on a reachable, initialised, unpaused oracle whose cooldown
  has passed and which is linked to the identity-oracle: a deactivated subject gets 300 and nothing
  is stored; otherwise it succeeds, stores and returns the published formula over exactly the anchored
  records that are neither revoked in the identity-oracle nor by hash in its linked registry,
  with the type each was anchored under, the type's weight and its age.\<close>

theorem protocol_score:
  assumes "co_reachable (s, w)" and "co_config s = Some x" and "\<not> co_is_paused s"
    and "check_compute_cooldown e a s = Ok ()" and "co_identity_oracle_id s = Some iid"
    and "card (dom (co_score s)) < 2 ^ 64 - 1"
    and "pr_linked rid iid e t iid" and "length (io_anchors t a) < 2 ^ 32"
  shows "if io_is_deactivated t a
    then co_compute_score e (pr_view rid iid e r t) a s = Ok (MIN_SCORE, s)
    else \<exists>n s' q. co_compute_score e (pr_view rid iid e r t) a s = Ok (n, s') \<and>
      co_score s' a = Some q \<and> score q = n \<and> unat (vc_count q) = length (pr_counted r t a) \<and>
      unat n = published_score s a x (min 100 (\<Sum>v\<leftarrow>pr_counted r t a.
        record_points e s (io_get_vc_credential_type t a (vc_hash_of v)) v))"
proof -
  have "co_inv s" using co_reachable_inv [OF assms(1)] by simp
  from pr_score_linked [OF this assms(2-8)] show ?thesis .
qed

text \<open>A concrete deployment: the registry's and the identity-oracle's demonstration runs, linked, and the
  credit-oracle linked to that identity-oracle.\<close>

definition pr_demo_identity :: io_state where
  "pr_demo_identity = io_demo_state\<lparr>io_registry_id := Some ''registry''\<rparr>"

definition pr_demo_credit :: co_state where
  "pr_demo_credit = co_demo_state\<lparr>co_identity_oracle_id := Some ''identity'',
     co_events := co_events co_demo_state @ [IdentityOracleUpdated ''identity'']\<rparr>"

lemma pr_demo_reachable: "co_reachable (pr_demo_credit, ())"
proof -
  have "co_exec co_demo_env co_demo_view co_demo_probe (CoSetIdentityOracleCall ''admin'' ''identity'')
      (co_demo_state, ()) = Ok (pr_demo_credit, ())"
    by (simp add: co_set_identity_oracle_def co_guard_defs co_demo_defs authorized_def pr_demo_credit_def)
  then show ?thesis by (rule co_step [OF co_demo_reachable])
qed

theorem protocol_score_witness:
  "\<exists>n s'. co_compute_score co_demo_env
     (pr_view ''registry'' ''identity'' co_demo_env rr_demo_state pr_demo_identity) ''bob'' pr_demo_credit = Ok (n, s')
     \<and> unat n = 300"
proof -
  have h: "co_config pr_demo_credit = Some default_weights" "\<not> co_is_paused pr_demo_credit"
    "check_compute_cooldown co_demo_env ''bob'' pr_demo_credit = Ok ()"
    "co_identity_oracle_id pr_demo_credit = Some ''identity''" "card (dom (co_score pr_demo_credit)) < 2 ^ 64 - 1"
    by (simp_all add: co_demo_defs pr_demo_credit_def co_is_paused_def check_compute_cooldown_def Let_def)
  have l: "pr_linked ''registry'' ''identity'' co_demo_env pr_demo_identity ''identity''"
    "length (io_anchors pr_demo_identity ''bob'') < 2 ^ 32" "\<not> io_is_deactivated pr_demo_identity ''bob''"
    by (simp_all add: pr_linked_def pr_demo_identity_def io_demo_defs co_demo_env_def io_anchors_def
        io_is_deactivated_def)
  have c: "pr_counted rr_demo_state pr_demo_identity ''bob'' = []"
    by (simp add: pr_counted_def pr_demo_identity_def io_demo_defs io_anchors_def rr_is_revoked_def rr_demo_defs)
  have "published_score pr_demo_credit ''bob'' default_weights 0 = 300"
    by (simp add: published_score_def pr_demo_credit_def co_demo_defs load_tx_stats_def
        repayment_of_def default_weights_def score_spec_def final_spec_def composite_spec_def tx_spec_def
        repay_spec_def rate_spec_def capped_volume_def)
  then show ?thesis
    using protocol_score [OF pr_demo_reachable h l(1,2), of rr_demo_state] l(3) by (auto simp: c)
qed

subsection \<open>Revocation across contracts\<close>

lemma pr_mark_run:
  assumes "issu \<in> signers e" and "\<not> io_is_paused t" and "has_live_anchor issu h (io_anchors t a)"
    and "unat (total_vcs_revoked (io_get_protocol_stats t)) < 2 ^ 64 - 1"
  obtains s3 where "pr_mark (current_contract e) iid r (call_env e iid) iid issu a h t =
      drop_active_count (pr_query (current_contract e) r (call_env e iid)) a s3"
    and "io_active_vc_count s3 = io_active_vc_count t" and "io_registry_id s3 = io_registry_id t"
    and "io_anchors s3 a = map (mark_record issu h) (io_anchors t a)"
proof -
  obtain s3 where s3: "\<And>rq. io_mark_vc_revoked (call_env e iid) rq issu a h t = expect (drop_active_count rq a s3)"
      "io_active_vc_count s3 = io_active_vc_count t" "io_registry_id s3 = io_registry_id t"
      "io_anchors s3 a = map (mark_record issu h) (io_anchors t a)"
    using mark_live_run [of t "call_env e iid" issu h a] assms by auto
  then have "pr_mark (current_contract e) iid r (call_env e iid) iid issu a h t =
      drop_active_count (pr_query (current_contract e) r (call_env e iid)) a s3"
    by (simp add: pr_mark_def s3(1) expect_def split: option.splits)
  then show thesis using s3 that by blast
qed

text \<open>The registry's half of a revocation that reaches a linked identity-oracle.\<close>

lemma pr_revoke_run:
  assumes "\<not> rr_is_paused r" and "issu \<in> signers e" and "rr_claimable issu r h"
    and "rr_identity_oracle_id r = Some iid" and "rr_lock r = None"
  shows "pr_revoke e iid issu a h (r, t) =
    (case pr_mark (current_contract e) iid r (call_env e iid) iid issu a h t of
       None \<Rightarrow> Trap
     | Some t' \<Rightarrow> Ok (rr_publish (Revoked issu h) (rr_recorded issu h r), t'))"
proof (cases "pr_mark (current_contract e) iid r (call_env e iid) iid issu a h t")
  case None
  have "rr_claim issu h r = Ok (r\<lparr>rr_registered_issuer := (rr_registered_issuer r)(h \<mapsto> issu)\<rparr>)"
    using assms(3) by (simp add: rr_claim_Ok)
  then show ?thesis
    using assms None
    by (simp add: pr_revoke_def rr_revoke_def rr_ensure_not_paused_def rr_is_paused_def authorized_def
        rr_notify_oracle_def rr_append_mark_comm rr_enter_guard_def)
next
  case (Some t')
  then show ?thesis
    using assms rr_revoke_Ok [of e "pr_mark (current_contract e) iid r" issu a h r t]
    by (simp add: pr_revoke_def authorized_def)
qed

lemma count_active_refused:
  assumes "io_registry_id s = Some b" and "\<And>h. rq b h = None" and "\<exists>v\<in>set rs. \<not> revoked v"
  shows "count_active rq s rs c = None"
  using assms(3) by (induction rs arbitrary: c) (auto simp: is_record_revoked_def assms(1,2))

lemma count_active_revoked:
  "\<forall>v\<in>set rs. revoked v \<Longrightarrow> count_active rq s rs c = Some c"
  by (induction rs) (auto simp: is_record_revoked_def)

lemma pr_query_own: "pr_query (current_contract e) r (call_env e c) (current_contract e) h = None"
  by (simp add: pr_query_def)

text \<open>The four ways the count kept for a subject follows a mark.\<close>

lemma drop_cached:
  "io_active_vc_count s a = Some c \<Longrightarrow> 0 < unat c \<Longrightarrow>
    \<exists>t'. drop_active_count rq a s = Some t' \<and> io_active_vc_count t' a = Some (c - 1)"
  by (simp add: drop_active_count_def load_active_vc_count_def checked_sub_def word_le_nat_alt)

lemma drop_cached_zero: "io_active_vc_count s a = Some 0 \<Longrightarrow> drop_active_count rq a s = None"
  by (simp add: drop_active_count_def load_active_vc_count_def checked_sub_def)

lemma drop_uncached_last:
  assumes "io_active_vc_count s a = None" and "io_anchors s a = map (mark_record issu h) vs"
    and "\<not> (\<exists>v\<in>set vs. \<not> revoked v \<and> (vc_hash_of v, issuer v) \<noteq> (h, issu))"
  shows "\<exists>t'. drop_active_count rq a s = Some t' \<and> io_active_vc_count t' a = Some 0"
proof -
  have "\<forall>v\<in>set (io_anchors s a). revoked v" using assms(3) by (auto simp: assms(2) mark_record_def)
  then have "count_active rq s (io_anchors s a) 0 = Some 0" by (rule count_active_revoked)
  then show ?thesis
    using assms(1) by (simp add: drop_active_count_def load_active_vc_count_def seed_active_vc_count_def
        compute_active_vc_count_def)
qed

lemma drop_uncached_refused:
  assumes "io_active_vc_count s a = None" and "io_registry_id s = Some b"
    and "io_anchors s a = map (mark_record issu h) vs" and "\<And>h'. rq b h' = None"
    and "\<exists>v\<in>set vs. \<not> revoked v \<and> (vc_hash_of v, issuer v) \<noteq> (h, issu)"
  shows "drop_active_count rq a s = None"
proof -
  have "\<exists>v\<in>set (io_anchors s a). \<not> revoked v" using assms(5) by (auto simp: assms(3) mark_record_def)
  then have "count_active rq s (io_anchors s a) 0 = None"
    using count_active_refused [of s b rq] assms(2,4) by simp
  then show ?thesis
    using assms(1) by (simp add: drop_active_count_def load_active_vc_count_def seed_active_vc_count_def
        compute_active_vc_count_def)
qed

lemma pr_counted_revoked:
  assumes "io_registry_id t = Some rid" and "io_registry_id t' = Some rid"
    and "io_vc_anchors t' = (io_vc_anchors t)(a \<mapsto> map (mark_record issu h) (io_anchors t a))"
    and "rr_status r' = (rr_status r)(h \<mapsto> True)"
  shows "pr_counted r' t' b = filter (\<lambda>v. vc_hash_of v \<noteq> h) (pr_counted r t b)"
proof -
  have q: "rr_is_revoked r' x \<longleftrightarrow> x = h \<or> rr_is_revoked r x" for x
    by (simp add: rr_is_revoked_def assms(4))
  have m: "filter (\<lambda>v. \<not> revoked v \<and> vc_hash_of v \<noteq> h \<and> \<not> rr_is_revoked r (vc_hash_of v))
        (map (mark_record issu h) vs) =
      filter (\<lambda>v. vc_hash_of v \<noteq> h \<and> \<not> revoked v \<and> \<not> rr_is_revoked r (vc_hash_of v)) vs" for vs
    by (induction vs) (auto simp: mark_record_def)
  have an: "io_anchors t' x = (if x = a then map (mark_record issu h) (io_anchors t a) else io_anchors t x)" for x
    by (simp add: io_anchors_def assms(3))
  show ?thesis
    by (cases "b = a") (simp_all add: pr_counted_def assms(1,2) an q m conj_ac)
qed

text \<open>Once the identity-oracle has accepted the mark, both contracts have recorded the revocation.\<close>

lemma pr_revoke_effect:
  assumes run: "pr_revoke e iid issu a h (r, t) = Ok (rr_publish (Revoked issu h) (rr_recorded issu h r), t')"
    and mark: "io_mark_vc_revoked (call_env e iid) rq issu a h t = Ok t'"
    and rid: "io_registry_id t = Some rid"
  shows "\<exists>r'. pr_revoke e iid issu a h (r, t) = Ok (r', t') \<and>
    rr_is_revoked r' h \<and> rr_get_revocation_record r' h = Some issu \<and>
    io_anchors t' a = map (mark_record issu h) (io_anchors t a) \<and>
    (\<forall>b. pr_counted r' t' b = filter (\<lambda>v. vc_hash_of v \<noteq> h) (pr_counted r t b))"
proof -
  let ?r = "rr_publish (Revoked issu h) (rr_recorded issu h r)"
  note ok = io_mark_vc_revoked_Ok [OF mark]
  have an: "io_vc_anchors t' = (io_vc_anchors t)(a \<mapsto> map (mark_record issu h) (io_anchors t a))"
    and rid': "io_registry_id t' = Some rid"
    using ok io_rest_fields(2) [of t' t] rid by auto
  have st: "rr_status ?r = (rr_status r)(h \<mapsto> True)" "rr_issuer_of ?r h = Some issu"
    by (simp_all add: rr_publish_def rr_recorded_fields)
  then have "rr_is_revoked ?r h" "rr_get_revocation_record ?r h = Some issu"
    by (simp_all add: rr_is_revoked_def rr_get_revocation_record_def)
  then show ?thesis
    using run pr_counted_revoked [OF rid rid' an st(1)] an by (auto simp: io_anchors_def)
qed

text \<open>C12: A revocation through the registry reaches the linked identity-oracle in the same transaction:
  the registry records hash and issuer for good, the anchored record is marked, its subject's
  cached count drops by one, and for every subject exactly the records with that hash stop
  counting. When the cached count is already 0 the whole transaction traps. When no count is cached the
  identity-oracle counts afresh: if another record of the subject is live the transaction traps, since the count asks
  the registry, which is on the call stack; otherwise it succeeds in the same way and caches the count 0.\<close>

theorem protocol_revocation:
  assumes "\<not> rr_is_paused r" and "issu \<in> signers e" and "rr_claimable issu r h"
    and "rr_identity_oracle_id r = Some iid" and "rr_lock r = None"
    and "\<not> io_is_paused t" and "has_live_anchor issu h (io_anchors t a)"
    and "unat (total_vcs_revoked (io_get_protocol_stats t)) < 2 ^ 64 - 1"
    and "io_registry_id t = Some (current_contract e)"
  shows "(\<forall>c. io_active_vc_count t a = Some c \<and> 0 < unat c \<longrightarrow>
      (\<exists>r' t'. pr_revoke e iid issu a h (r, t) = Ok (r', t') \<and>
        rr_is_revoked r' h \<and> rr_get_revocation_record r' h = Some issu \<and>
        io_anchors t' a = map (mark_record issu h) (io_anchors t a) \<and>
        io_active_vc_count t' a = Some (c - 1) \<and>
        (\<forall>b. pr_counted r' t' b = filter (\<lambda>v. vc_hash_of v \<noteq> h) (pr_counted r t b))))
    \<and> (io_active_vc_count t a = Some 0 \<longrightarrow> pr_revoke e iid issu a h (r, t) = Trap)
    \<and> (io_active_vc_count t a = None \<and>
        (\<exists>v\<in>set (io_anchors t a). \<not> revoked v \<and> (vc_hash_of v, issuer v) \<noteq> (h, issu)) \<longrightarrow>
        pr_revoke e iid issu a h (r, t) = Trap)
    \<and> (io_active_vc_count t a = None \<and>
        \<not> (\<exists>v\<in>set (io_anchors t a). \<not> revoked v \<and> (vc_hash_of v, issuer v) \<noteq> (h, issu)) \<longrightarrow>
        (\<exists>r' t'. pr_revoke e iid issu a h (r, t) = Ok (r', t') \<and>
          rr_is_revoked r' h \<and> rr_get_revocation_record r' h = Some issu \<and>
          io_anchors t' a = map (mark_record issu h) (io_anchors t a) \<and>
          io_active_vc_count t' a = Some 0 \<and>
          (\<forall>b. pr_counted r' t' b = filter (\<lambda>v. vc_hash_of v \<noteq> h) (pr_counted r t b))))"
proof -
  let ?rq = "pr_query (current_contract e) r (call_env e iid)"
  let ?r = "rr_publish (Revoked issu h) (rr_recorded issu h r)"
  note run = pr_revoke_run [OF assms(1-5), of a t]
  obtain s3 where mk: "pr_mark (current_contract e) iid r (call_env e iid) iid issu a h t = drop_active_count ?rq a s3"
    and f: "io_active_vc_count s3 = io_active_vc_count t" "io_registry_id s3 = io_registry_id t"
      "io_anchors s3 a = map (mark_record issu h) (io_anchors t a)"
    using pr_mark_run [OF assms(2,6-8), of iid r] by blast
  have fine: "\<exists>r' t'. pr_revoke e iid issu a h (r, t) = Ok (r', t') \<and>
        rr_is_revoked r' h \<and> rr_get_revocation_record r' h = Some issu \<and>
        io_anchors t' a = map (mark_record issu h) (io_anchors t a) \<and>
        io_active_vc_count t' a = Some c \<and>
        (\<forall>b. pr_counted r' t' b = filter (\<lambda>v. vc_hash_of v \<noteq> h) (pr_counted r t b))"
    if t': "drop_active_count ?rq a s3 = Some t'" "io_active_vc_count t' a = Some c" for c t'
  proof -
    have mark: "io_mark_vc_revoked (call_env e iid) ?rq issu a h t = Ok t'"
      using mk t'(1) by (simp add: pr_mark_def split: outcome.splits)
    have "pr_revoke e iid issu a h (r, t) = Ok (?r, t')" using run mk t'(1) by simp
    from pr_revoke_effect [OF this mark assms(9)] show ?thesis using t'(2) by blast
  qed
  have "pr_revoke e iid issu a h (r, t) = Trap" if "drop_active_count ?rq a s3 = None"
    using run mk that by simp
  then have trap: "pr_revoke e iid issu a h (r, t) = Trap"
    if "io_active_vc_count t a = Some 0 \<or> io_active_vc_count t a = None \<and>
        (\<exists>v\<in>set (io_anchors t a). \<not> revoked v \<and> (vc_hash_of v, issuer v) \<noteq> (h, issu))"
    using that drop_cached_zero [of s3 a ?rq] drop_uncached_refused [OF _ _ f(3), of "current_contract e" ?rq]
      f(1,2) assms(9) pr_query_own by metis
  show ?thesis
  proof (intro conjI allI impI)
    fix c assume "io_active_vc_count t a = Some c \<and> 0 < unat c"
    then obtain t' where "drop_active_count ?rq a s3 = Some t'" "io_active_vc_count t' a = Some (c - 1)"
      using drop_cached f(1) by metis
    then show "\<exists>r' t'. pr_revoke e iid issu a h (r, t) = Ok (r', t') \<and>
        rr_is_revoked r' h \<and> rr_get_revocation_record r' h = Some issu \<and>
        io_anchors t' a = map (mark_record issu h) (io_anchors t a) \<and>
        io_active_vc_count t' a = Some (c - 1) \<and>
        (\<forall>b. pr_counted r' t' b = filter (\<lambda>v. vc_hash_of v \<noteq> h) (pr_counted r t b))" by (rule fine)
  next
    assume a: "io_active_vc_count t a = None \<and>
        \<not> (\<exists>v\<in>set (io_anchors t a). \<not> revoked v \<and> (vc_hash_of v, issuer v) \<noteq> (h, issu))"
    from drop_uncached_last [OF _ f(3) conjunct2 [OF a]] conjunct1 [OF a] f(1)
    obtain t' where "drop_active_count ?rq a s3 = Some t'" "io_active_vc_count t' a = Some 0" by metis
    then show "\<exists>r' t'. pr_revoke e iid issu a h (r, t) = Ok (r', t') \<and>
        rr_is_revoked r' h \<and> rr_get_revocation_record r' h = Some issu \<and>
        io_anchors t' a = map (mark_record issu h) (io_anchors t a) \<and>
        io_active_vc_count t' a = Some 0 \<and>
        (\<forall>b. pr_counted r' t' b = filter (\<lambda>v. vc_hash_of v \<noteq> h) (pr_counted r t b))" by (rule fine)
  qed (rule trap, blast)+
qed

text \<open>Bob's credential is revoked by its issuer through a linked registry.\<close>

definition pr_demo_registry :: rr_state where
  "pr_demo_registry = rr_new\<lparr>rr_admin := Some ''admin'', rr_batch_limit := Some 100,
     rr_identity_oracle_id := Some ''identity''\<rparr>"

theorem protocol_revocation_witness:
  "\<exists>r' t'. pr_revoke rr_demo_env ''identity'' ''issuer'' ''bob'' [7] (pr_demo_registry, pr_demo_identity) = Ok (r', t')
     \<and> pr_counted pr_demo_registry pr_demo_identity ''bob'' = [io_demo_record] \<and> pr_counted r' t' ''bob'' = []"
proof -
  have "\<not> rr_is_paused pr_demo_registry" "''issuer'' \<in> signers rr_demo_env"
    "rr_claimable ''issuer'' pr_demo_registry [7]" "rr_identity_oracle_id pr_demo_registry = Some ''identity''"
    "rr_lock pr_demo_registry = None" "\<not> io_is_paused pr_demo_identity"
    "has_live_anchor ''issuer'' [7] (io_anchors pr_demo_identity ''bob'')"
    "unat (total_vcs_revoked (io_get_protocol_stats pr_demo_identity)) < 2 ^ 64 - 1"
    "io_registry_id pr_demo_identity = Some (current_contract rr_demo_env)"
    by (simp_all add: pr_demo_registry_def pr_demo_identity_def rr_demo_defs io_demo_defs rr_is_paused_def
        rr_claimable_def io_is_paused_def has_live_anchor_def io_anchors_def io_get_protocol_stats_def
        io_load_protocol_stats_def)
  note p = protocol_revocation [OF this, THEN conjunct1, rule_format, of 1]
  have c: "pr_counted pr_demo_registry pr_demo_identity ''bob'' = [io_demo_record]"
    by (simp add: pr_counted_def pr_demo_identity_def pr_demo_registry_def io_demo_defs io_anchors_def
        rr_is_revoked_def rr_new_def)
  have "io_active_vc_count pr_demo_identity ''bob'' = Some 1"
    by (simp add: pr_demo_identity_def io_demo_defs)
  with p obtain r' t' where "pr_revoke rr_demo_env ''identity'' ''issuer'' ''bob'' [7]
        (pr_demo_registry, pr_demo_identity) = Ok (r', t')"
      "pr_counted r' t' ''bob'' = filter (\<lambda>v. vc_hash_of v \<noteq> [7]) (pr_counted pr_demo_registry pr_demo_identity ''bob'')"
    by auto
  then show ?thesis using c by (simp add: io_demo_record_def)
qed

subsection \<open>New weights across contracts\<close>

text \<open>Governance takes the oracle's admin role: the oracle's admin names it and governance accepts.\<close>

lemma pr_oracle_handover:
  assumes "co_propose_new_admin e n s = Ok s1"
    and "gov_accept_oracle_admin e2 (pr_accept cid) (g, s1) = Ok (g', s2)"
  shows "n = current_contract e2 \<and> co_admin s2 = Some (current_contract e2) \<and> co_pending_admin s2 = None
    \<and> (\<exists>a. co_admin s = Some a \<and> authorized e a) \<and> (\<exists>a. gv_admin g = Some a \<and> authorized e2 a)"
proof -
  obtain orc where acc: "co_accept_admin (call_env e2 orc) (current_contract e2) s1 = Ok s2"
      and adm: "\<exists>a. gv_admin g = Some a \<and> authorized e2 a"
    using assms(2) by (auto simp: gov_accept_oracle_admin_def pr_accept_def split: if_splits)
  show ?thesis using co_handover.handover [OF assms(1) acc] adm by auto
qed

text \<open>C13: The life of a weight change voted in governance: an \<open>execute\<close> that succeeds has the oracle's admin
  (governance itself, or a signer) behind it, leaves the active weights as they are and puts the
  proposal's valid weights on the timelock; \<open>apply_weights\<close> is then refused while the oracle is
  paused and for 17280 ledgers after the execution, whoever calls it; from then on it makes the
  proposal's weights the active ones, and a further \<open>apply_weights\<close> finds nothing pending.\<close>

theorem protocol_weights:
  assumes "gov_get_proposal g i = Some p" and "gov_execute e (pr_propose cid) i (g, s) = Ok (g', s')"
  shows "(\<exists>adm. co_admin s = Some adm \<and> (adm = current_contract e \<or> adm \<in> signers e))
    \<and> gov_get_proposal g' i = Some (p\<lparr>gp_executed := True\<rparr>)
    \<and> co_config s' = co_config s \<and> co_pending_weights s' = Some (gp_proposed_weights p)
    \<and> is_valid (gp_proposed_weights p) = Some True
    \<and> (if co_is_paused s then gov_apply_weights e2 (pr_apply cid) (g', s') = Err GvContractPaused
       else if unat (ledger_sequence e2) < unat (ledger_sequence e) + 17280
       then gov_apply_weights e2 (pr_apply cid) (g', s') = Err GvTimelockNotExpired
       else \<exists>g2 s2. gov_apply_weights e2 (pr_apply cid) (g', s') = Ok (g2, s2) \<and>
          co_config s2 = Some (gp_proposed_weights p) \<and>
          gov_apply_weights e3 (pr_apply cid) (g2, s2) = Err GvNoPendingWeights)"
proof -
  obtain orc where orc: "gv_credit_oracle g = Some orc"
    and call: "pr_propose cid (call_env e orc) orc (gp_proposed_weights p) s = Ok s'"
    and g': "g' = gov_publish (PropExec i (gp_votes_for p) (gp_votes_against p))
           (g\<lparr>gv_proposal := (gv_proposal g)(i \<mapsto> p\<lparr>gp_executed := True\<rparr>)\<rparr>)"
    using gov_execute_Ok [OF assms(2)] assms(1) by (auto simp: gov_get_proposal_def)
  have cid: "orc = cid" using call by (simp add: pr_propose_def split: if_splits)
  obtain adm l where adm: "co_admin s = Some adm" "adm = current_contract e \<or> adm \<in> signers e"
    and ok: "is_valid (gp_proposed_weights p) = Some True"
    and l: "checked_add (ledger_sequence e) TIMELOCK_LEDGERS = Some l"
    and s': "s' = co_publish (WtProp (vc_weight (gp_proposed_weights p)) (tx_weight (gp_proposed_weights p))
        (repayment_weight (gp_proposed_weights p)) l)
      (s\<lparr>co_pending_weights := Some (gp_proposed_weights p), co_pending_effective := Some l\<rparr>)"
    using call cid
    by (auto simp: pr_propose_def co_propose_weights_def co_require_stored_admin_def split: if_splits option.splits)
  have ul: "ledger_sequence x < l \<longleftrightarrow> unat (ledger_sequence x) < unat (ledger_sequence e) + 17280" for x :: env
    using unat_checked_add [OF l] by (simp add: word_less_nat_alt TIMELOCK_LEDGERS_def)
  have g'': "gv_credit_oracle g' = Some cid" "gv_proposal g' i = Some (p\<lparr>gp_executed := True\<rparr>)"
    using orc cid by (simp_all add: g' gov_publish_def)
  have paused: "gov_apply_weights e2 (pr_apply cid) (g', s') = Err GvContractPaused" if "co_is_paused s"
    using that g''
    by (simp add: gov_apply_weights_def client_apply_weights_def pr_apply_def co_apply_weights_def
        co_ensure_not_paused_def co_is_paused_def s' co_publish_def)
  have early: "gov_apply_weights e2 (pr_apply cid) (g', s') = Err GvTimelockNotExpired"
    if "\<not> co_is_paused s" "unat (ledger_sequence e2) < unat (ledger_sequence e) + 17280"
    using that g''
    by (simp add: gov_apply_weights_def client_apply_weights_def pr_apply_def co_apply_weights_def
        co_ensure_not_paused_def co_is_paused_def s' co_publish_def ul)
  have late: "\<exists>g2 s2. gov_apply_weights e2 (pr_apply cid) (g', s') = Ok (g2, s2) \<and>
          co_config s2 = Some (gp_proposed_weights p) \<and>
          gov_apply_weights e3 (pr_apply cid) (g2, s2) = Err GvNoPendingWeights"
    if "\<not> co_is_paused s" "\<not> unat (ledger_sequence e2) < unat (ledger_sequence e) + 17280"
    using that g''
    by (simp add: gov_apply_weights_def client_apply_weights_def pr_apply_def co_apply_weights_def
        co_ensure_not_paused_def co_is_paused_def s' co_publish_def ul gov_publish_def)
  show ?thesis
    using adm ok paused early late g''(2) by (simp add: s' co_publish_def gov_get_proposal_def)
qed

text \<open>The demonstration proposal executed on an oracle whose admin is the governance contract, and applied
  17280 ledgers later.\<close>

definition pr_demo_governed :: co_state where
  "pr_demo_governed = co_demo_state\<lparr>co_admin := Some ''governance''\<rparr>"

theorem protocol_weights_witness:
  "\<exists>g1 s1 g2 s2. gov_execute (gov_demo_env 1151) (pr_propose ''credit'') 1 (gov_demo_state, pr_demo_governed) = Ok (g1, s1)
     \<and> gov_apply_weights (gov_demo_env 18431) (pr_apply ''credit'') (g1, s1) = Ok (g2, s2)
     \<and> co_config s2 = Some gov_demo_weights"
proof -
  have "is_valid gov_demo_weights = Some True" by (simp add: is_valid_iff weights_ok_def gov_demo_weights_def)
  then obtain g1 s1 where run: "gov_execute (gov_demo_env 1151) (pr_propose ''credit'') 1
      (gov_demo_state, pr_demo_governed) = Ok (g1, s1)"
    by (simp add: gov_execute_def gov_demo_state_def gov_demo_proposal_def gov_demo_env_def gov_new_def
        saturating_add_def i128_checked_add_def i128_fits_def client_invoke_def pr_propose_def
        co_propose_weights_def co_require_stored_admin_def pr_demo_governed_def checked_add_def TIMELOCK_LEDGERS_def)
  have "gov_get_proposal gov_demo_state 1 = Some gov_demo_proposal" "\<not> co_is_paused pr_demo_governed"
    by (simp_all add: gov_demo_defs gov_get_proposal_def pr_demo_governed_def co_demo_defs co_is_paused_def)
  moreover have "\<not> unat (ledger_sequence (gov_demo_env 18431)) < unat (ledger_sequence (gov_demo_env 1151)) + 17280"
    "gp_proposed_weights gov_demo_proposal = gov_demo_weights"
    by (simp_all add: gov_demo_env_def gov_demo_proposal_def)
  ultimately show ?thesis
    using protocol_weights [OF _ run, of gov_demo_proposal "gov_demo_env 18431" "gov_demo_env 18431"] run
    by (simp split del: if_split) blast
qed

end
