(* ===== verification/System.thy ===== *)
theory System
  imports Protocol
begin

text \<open>
  The whole deployment: the four contracts with their states in one world, every entry point callable from
  outside in any order, and every cross-contract call executed by the contract that is called. The
  theory shows that a deployment only ever does to each contract what that contract's own model allows, so that
  the invariants of all four hold together, and what the contracts know of each other's addresses.
\<close>

section \<open>The deployment\<close>

record deployment =
  dp_registry :: address
  dp_identity :: address
  dp_credit :: address
  dp_governance :: address

record world =
  wd_registry :: rr_state
  wd_identity :: io_state
  wd_credit :: co_state
  wd_governance :: gov_state

definition world_new :: world where
  "world_new = \<lparr>wd_registry = rr_new, wd_identity = io_new, wd_credit = co_new, wd_governance = gov_new\<rparr>"

datatype sys_call =
  ToRegistry rr_call | ToIdentity io_call | ToCredit co_call | ToGovernance gov_call

datatype sys_error =
  FromRegistry rr_error | FromIdentity io_error | FromCredit credit_error | FromGovernance gov_error

text \<open>A transaction starts in the contract it is addressed to.\<close>

definition invoked_at :: "address \<Rightarrow> env \<Rightarrow> env" where
  "invoked_at a e = e\<lparr>current_contract := a, invoker := None, call_stack := []\<rparr>"

text \<open>The two calls of \<open>Protocol\<close>'s contracts that link them: \<open>set_identity_oracle\<close> and \<open>get_active_vc_count\<close>.\<close>

definition pr_link :: "address \<Rightarrow> rr_state link_call" where
  "pr_link rid e a n r =
     (if a = rid then (case rr_set_identity_oracle e n r of Ok r' \<Rightarrow> Some r' | Err _ \<Rightarrow> None | Trap \<Rightarrow> None)
      else None)"

definition pr_probe :: "address \<Rightarrow> address \<Rightarrow> rr_state \<Rightarrow> io_state probe_call" where
  "pr_probe rid iid r e a subject t =
     (if a = iid then io_get_active_vc_count (pr_query rid r e) subject t else None)"

definition pr_oracle_calls :: "address \<Rightarrow> co_state oracle_calls" where
  "pr_oracle_calls cid = \<lparr>oc_propose = pr_propose cid, oc_apply = pr_apply cid, oc_accept = pr_accept cid\<rparr>"

fun lift_error :: "('e \<Rightarrow> 'f) \<Rightarrow> ('e, 'a) outcome \<Rightarrow> ('f, 'a) outcome" where
  "lift_error f (Ok x) = Ok x"
| "lift_error f (Err e) = Err (f e)"
| "lift_error f Trap = Trap"

fun sys_exec :: "deployment \<Rightarrow> env \<Rightarrow> sys_call \<Rightarrow> world \<Rightarrow> (sys_error, world) outcome" where
  "sys_exec d e (ToRegistry c) w =
     outcome_bind (lift_error FromRegistry
         (rr_exec (invoked_at (dp_registry d) e) (pr_mark (dp_registry d) (dp_identity d) (wd_registry w)) c
            (wd_registry w, wd_identity w)))
       (\<lambda>(r, t). Ok (w\<lparr>wd_registry := r, wd_identity := t\<rparr>))"
| "sys_exec d e (ToIdentity c) w =
     outcome_bind (lift_error FromIdentity
         (io_exec (invoked_at (dp_identity d) e)
            (pr_query (dp_registry d) (wd_registry w) (invoked_at (dp_identity d) e)) (pr_link (dp_registry d)) c
            (wd_identity w, wd_registry w)))
       (\<lambda>(t, r). Ok (w\<lparr>wd_registry := r, wd_identity := t\<rparr>))"
| "sys_exec d e (ToCredit c) w =
     outcome_bind (lift_error FromCredit
         (co_exec (invoked_at (dp_credit d) e)
            (pr_view (dp_registry d) (dp_identity d) (invoked_at (dp_credit d) e) (wd_registry w) (wd_identity w))
            (pr_probe (dp_registry d) (dp_identity d) (wd_registry w)) c (wd_credit w, wd_identity w)))
       (\<lambda>(s, t). Ok (w\<lparr>wd_credit := s, wd_identity := t\<rparr>))"
| "sys_exec d e (ToGovernance c) w =
     outcome_bind (lift_error FromGovernance
         (gov_exec (invoked_at (dp_governance d) e) (pr_oracle_calls (dp_credit d)) c (wd_governance w, wd_credit w)))
       (\<lambda>(g, s). Ok (w\<lparr>wd_governance := g, wd_credit := s\<rparr>))"

text \<open>Reachable worlds: governance is initialised first; the rest in any order, by anybody, at any time.\<close>

inductive sys_reachable :: "deployment \<Rightarrow> world \<Rightarrow> bool" for d where
  sys_start: "gov_initialize e adm orc q gov_new = Ok g \<Longrightarrow> sys_reachable d (world_new\<lparr>wd_governance := g\<rparr>)"
| sys_step: "sys_reachable d w \<Longrightarrow> sys_exec d e c w = Ok w' \<Longrightarrow> sys_reachable d w'"

section \<open>A contract does not see the state of the others\<close>

text \<open>A call that succeeded in one world succeeds when the calls it makes are answered by any world.\<close>

lemma lift_error_Ok [simp]: "lift_error f m = Ok x \<longleftrightarrow> m = Ok x"
  by (cases m) simp_all

lemma rr_exec_forget:
  assumes "rr_exec e mark c (s, w) = Ok (s', w')"
  shows "rr_exec e (\<lambda>_ _ _ _ _ _. Some v) c (s, v) = Ok (s', v)"
proof (cases c)
  case (RrRevokeCall i a h)
  then show ?thesis using assms by (auto simp: rr_revoke_Ok split: option.splits)
qed (use assms in \<open>auto simp: rr_local_def\<close>)

lemma io_exec_forget:
  assumes "io_exec e rq link c (s, w) = Ok (s', w')"
  shows "io_exec e rq (\<lambda>_ _ _ _. Some v) c (s, v) = Ok (s', v)"
proof (cases c)
  case (IoSetRegistryCall a)
  then show ?thesis using assms by (auto simp: io_set_revocation_registry_def split: if_splits option.splits)
qed (use assms in \<open>auto simp: io_local_def\<close>)

lemma co_exec_forget:
  assumes "co_exec e iv probe c (s, w) = Ok (s', w')"
  shows "co_exec e iv (\<lambda>_ _ _ _. Some (0, v)) c (s, v) = Ok (s', v)"
proof (cases c)
  case (CoSetIdentityOracleCall m i)
  then show ?thesis using assms by (auto simp: co_set_identity_oracle_def split: option.splits)
qed (use assms in \<open>auto simp: co_local_def\<close>)

definition oc_always :: "'w \<Rightarrow> 'w oracle_calls" where
  "oc_always v = \<lparr>oc_propose = (\<lambda>_ _ _ _. Ok v), oc_apply = (\<lambda>_ _ _. Ok v), oc_accept = (\<lambda>_ _ _ _. Ok v)\<rparr>"

lemma gov_exec_forget:
  assumes "gov_exec e oc c (s, w) = Ok (s', w')"
  shows "gov_exec e (oc_always v) c (s, v) = Ok (s', v)"
proof (cases c)
  case (GvExecuteCall i)
  then show ?thesis using assms by (auto simp: gov_execute_def oc_always_def client_invoke_def split: if_splits)
next
  case GvApplyWeightsCall
  then show ?thesis using assms by (auto simp: gov_apply_weights_Ok oc_always_def)
next
  case GvAcceptOracleAdminCall
  then show ?thesis using assms by (auto simp: gov_accept_oracle_admin_def oc_always_def client_invoke_def split: if_splits)
qed (use assms in \<open>auto simp: gov_local_def\<close>)

lemma rr_reachable_forget: "rr_reachable sw \<Longrightarrow> rr_reachable (fst sw, v)"
proof (induction rule: rr_reachable.induct)
  case (rr_start w)
  show ?case by (simp add: rr_reachable.rr_start)
next
  case (rr_step sw e mark c sw')
  then show ?case
    using rr_exec_forget [of e mark c "fst sw" "snd sw" "fst sw'" "snd sw'" v] rr_reachable.rr_step by fastforce
qed

lemma io_reachable_forget: "io_reachable sw \<Longrightarrow> io_reachable (fst sw, v)"
proof (induction rule: io_reachable.induct)
  case (io_start w)
  show ?case by (simp add: io_reachable.io_start)
next
  case (io_step sw e rq link c sw')
  then show ?case
    using io_exec_forget [of e rq link c "fst sw" "snd sw" "fst sw'" "snd sw'" v] io_reachable.io_step by fastforce
qed

lemma co_reachable_forget: "co_reachable sw \<Longrightarrow> co_reachable (fst sw, v)"
proof (induction rule: co_reachable.induct)
  case (co_start w)
  show ?case by (simp add: co_reachable.co_start)
next
  case (co_step sw e iv probe c sw')
  then show ?case
    using co_exec_forget [of e iv probe c "fst sw" "snd sw" "fst sw'" "snd sw'" v] co_reachable.co_step by fastforce
qed

lemma gov_reachable_forget: "gov_reachable sw \<Longrightarrow> gov_reachable (fst sw, v)"
proof (induction rule: gov_reachable.induct)
  case (gov_start e adm orc q s w)
  then show ?case using gov_reachable.gov_start by fastforce
next
  case (gov_step sw e oc c sw')
  then show ?case
    using gov_exec_forget [of e oc c "fst sw" "snd sw" "fst sw'" "snd sw'" v] gov_reachable.gov_step by fastforce
qed

text \<open>What a call does to the contract it may call: nothing, or one call of that contract.\<close>

lemma rr_exec_world:
  assumes "rr_exec e mark c (s, w) = Ok (s', w')"
  shows "w' = w \<or> (\<exists>e' a i b h. mark e' a i b h w = Some w')"
proof (cases c)
  case (RrRevokeCall i a h)
  then show ?thesis using assms by (auto simp: rr_revoke_Ok split: option.splits)
qed (use assms in \<open>auto simp: rr_local_def\<close>)

lemma io_exec_world:
  assumes "io_exec e rq link c (s, w) = Ok (s', w')"
  shows "w' = w \<or> (\<exists>e' a n. link e' a n w = Some w')"
proof (cases c)
  case (IoSetRegistryCall a)
  then show ?thesis using assms by (auto simp: io_set_revocation_registry_def split: if_splits option.splits)
qed (use assms in \<open>auto simp: io_local_def\<close>)

lemma co_exec_world:
  assumes "co_exec e iv probe c (s, w) = Ok (s', w')"
  shows "w' = w \<or> (\<exists>e' a b n. probe e' a b w = Some (n, w'))"
proof (cases c)
  case (CoSetIdentityOracleCall m i)
  then show ?thesis using assms by (auto simp: co_set_identity_oracle_def split: option.splits)
qed (use assms in \<open>auto simp: co_local_def\<close>)

lemma gov_exec_world:
  assumes "gov_exec e oc c (s, w) = Ok (s', w')"
  shows "w' = w \<or> (\<exists>e' a x. oc_propose oc e' a x w = Ok w') \<or> (\<exists>e' a. oc_apply oc e' a w = Ok w')
    \<or> (\<exists>e' a n. oc_accept oc e' a n w = Ok w')"
proof (cases c)
  case (GvExecuteCall i)
  then show ?thesis using assms by (auto simp: gov_execute_def split: if_splits)
next
  case GvApplyWeightsCall
  then show ?thesis using assms by (auto simp: gov_apply_weights_Ok)
next
  case GvAcceptOracleAdminCall
  then show ?thesis using assms by (auto simp: gov_accept_oracle_admin_def split: if_splits)
qed (use assms in \<open>auto simp: gov_local_def\<close>)

text \<open>Each cross-contract call is a call of the contract it reaches, which itself calls nothing that writes.\<close>

lemma pr_mark_exec:
  "pr_mark rid iid r e a i b h t = Some t' \<Longrightarrow>
     io_exec e (pr_query rid r e) link (IoMarkVcRevokedCall i b h) (t, v) = Ok (t', v)"
  by (auto simp: pr_mark_def split: if_splits outcome.splits)

lemma pr_probe_exec:
  "pr_probe rid iid r e a b t = Some (m, t') \<Longrightarrow>
     io_exec e (pr_query rid r e) link (IoGetActiveVcCountCall b) (t, v) = Ok (t', v)"
  by (auto simp: pr_probe_def split: if_splits)

lemma pr_link_exec:
  "pr_link rid e a n r = Some r' \<Longrightarrow> rr_exec e mark (RrSetIdentityOracleCall n) (r, v) = Ok (r', v)"
  by (auto simp: pr_link_def rr_local_def split: if_splits outcome.splits)

lemma pr_oracle_exec:
  "oc_propose (pr_oracle_calls cid) e a x s = Ok s' \<Longrightarrow> co_exec e iv probe (CoProposeWeightsCall x) (s, v) = Ok (s', v)"
  "oc_apply (pr_oracle_calls cid) e a s = Ok s' \<Longrightarrow> co_exec e iv probe CoApplyWeightsCall (s, v) = Ok (s', v)"
  "oc_accept (pr_oracle_calls cid) e a n s = Ok s' \<Longrightarrow> co_exec e iv probe (CoAcceptAdminCall n) (s, v) = Ok (s', v)"
  by (auto simp: pr_oracle_calls_def pr_propose_def pr_apply_def pr_accept_def split: if_splits)

definition oracle_call_of_governance :: "co_call \<Rightarrow> bool" where
  "oracle_call_of_governance c \<longleftrightarrow>
     (\<exists>x. c = CoProposeWeightsCall x) \<or> c = CoApplyWeightsCall \<or> (\<exists>n. c = CoAcceptAdminCall n)"

lemma gov_exec_oracle:
  assumes "gov_exec e (pr_oracle_calls cid) c (g, s) = Ok (g', s')"
  shows "s' = s \<or> (\<exists>e iv probe c. co_exec e iv probe c (s, ()) = Ok (s', ()) \<and> oracle_call_of_governance c)"
  using gov_exec_world [OF assms] pr_oracle_exec unfolding oracle_call_of_governance_def by metis

lemma sys_projection:
  assumes "sys_reachable d w"
  shows "rr_reachable (wd_registry w, ()) \<and> io_reachable (wd_identity w, ()) \<and> co_reachable (wd_credit w, ())
    \<and> gov_reachable (wd_governance w, ())"
  using assms
proof (induction rule: sys_reachable.induct)
  case (sys_start e adm orc q g)
  then show ?case by (simp add: world_new_def rr_start io_start co_start gov_start)
next
  case (sys_step w e c w')
  obtain r t s g where w: "w = \<lparr>wd_registry = r, wd_identity = t, wd_credit = s, wd_governance = g\<rparr>" by (cases w)
  have reach: "rr_reachable (r, ())" "io_reachable (t, ())" "co_reachable (s, ())" "gov_reachable (g, ())"
    using sys_step.IH by (simp_all add: w)
  show ?case
  proof (cases c)
    case (ToRegistry c)
    then obtain r' t' where x: "rr_exec (invoked_at (dp_registry d) e) (pr_mark (dp_registry d) (dp_identity d) r) c (r, t) = Ok (r', t')"
        "w' = w\<lparr>wd_registry := r', wd_identity := t'\<rparr>"
      using sys_step.hyps(2) by (auto simp: w)
    have "rr_reachable (r', ())" using rr_step [OF reach(1) rr_exec_forget [OF x(1)]] .
    moreover have "io_reachable (t', ())"
      using rr_exec_world [OF x(1)] pr_mark_exec reach(2) io_step by metis
    ultimately show ?thesis using x(2) reach by (simp add: w)
  next
    case (ToIdentity c)
    then obtain r' t' where x: "io_exec (invoked_at (dp_identity d) e)
          (pr_query (dp_registry d) r (invoked_at (dp_identity d) e)) (pr_link (dp_registry d)) c (t, r) = Ok (t', r')"
        "w' = w\<lparr>wd_registry := r', wd_identity := t'\<rparr>"
      using sys_step.hyps(2) by (auto simp: w)
    have "io_reachable (t', ())" using io_step [OF reach(2) io_exec_forget [OF x(1)]] .
    moreover have "rr_reachable (r', ())"
      using io_exec_world [OF x(1)] pr_link_exec reach(1) rr_step by metis
    ultimately show ?thesis using x(2) reach by (simp add: w)
  next
    case (ToCredit c)
    then obtain s' t' where x: "co_exec (invoked_at (dp_credit d) e)
          (pr_view (dp_registry d) (dp_identity d) (invoked_at (dp_credit d) e) r t)
          (pr_probe (dp_registry d) (dp_identity d) r) c (s, t) = Ok (s', t')"
        "w' = w\<lparr>wd_credit := s', wd_identity := t'\<rparr>"
      using sys_step.hyps(2) by (auto simp: w)
    have "co_reachable (s', ())" using co_step [OF reach(3) co_exec_forget [OF x(1)]] .
    moreover have "io_reachable (t', ())"
      using co_exec_world [OF x(1)] pr_probe_exec reach(2) io_step by metis
    ultimately show ?thesis using x(2) reach by (simp add: w)
  next
    case (ToGovernance c)
    then obtain g' s' where x: "gov_exec (invoked_at (dp_governance d) e) (pr_oracle_calls (dp_credit d)) c (g, s) = Ok (g', s')"
        "w' = w\<lparr>wd_governance := g', wd_credit := s'\<rparr>"
      using sys_step.hyps(2) by (auto simp: w)
    have "gov_reachable (g', ())" using gov_step [OF reach(4) gov_exec_forget [OF x(1)]] .
    moreover have "co_reachable (s', ())" using gov_exec_oracle [OF x(1)] reach(3) co_step by blast
    ultimately show ?thesis using x(2) reach by (simp add: w)
  qed
qed

section \<open>The links between the contracts\<close>

lemma io_exec_registry:
  assumes "io_exec e rq link c (s, w) = Ok (s', w')"
  shows "io_registry_id s' = io_registry_id s \<or>
    (\<exists>a. io_registry_id s' = Some a \<and> link (call_env e a) a (current_contract e) w = Some w')"
proof -
  have core: "deactivate_core e' a s = Some (n, t) \<Longrightarrow> io_registry_id t = io_registry_id s" for e' a n t
    using deactivate_core_Some [of e' a s n t] io_rest_fields(2) by metis
  have anchor: "io_anchor_vc_typed e rq i a h ty s = Ok s' \<Longrightarrow> io_registry_id s' = io_registry_id s" for i a h ty
    using io_anchor_vc_typed_Ok [of e rq i a h ty s s'] io_rest_fields(2) by (metis (full_types))
  show ?thesis
  proof (cases c)
    case (IoAnchorDidCall a cid)
    then show ?thesis using assms by (auto simp: io_anchor_did_Ok io_publish_def)
  next
    case (IoDeactivateDidCall a)
    then show ?thesis using assms core by (auto simp: io_deactivate_did_def io_publish_def split: if_splits)
  next
    case (IoDeactivateIdentityCall a)
    then show ?thesis using assms core by (auto simp: io_deactivate_identity_def io_publish_def split: if_splits)
  next
    case (IoMarkVcRevokedCall i a h)
    then have m: "io_mark_vc_revoked e rq i a h s = Ok s'" using assms by simp
    show ?thesis using io_mark_vc_revoked_Ok [OF m] io_rest_fields(2) by blast
  next
    case (IoGetActiveVcCountCall a)
    then show ?thesis using assms
      by (auto simp: io_get_active_vc_count_def seed_active_vc_count_def split: option.splits)
  qed (use assms anchor in \<open>auto simp: io_anchor_vc_def io_admin_defs record_last_state_change_def
         split: option.splits if_splits\<close>)
qed

lemma co_exec_same_link:
  assumes "co_exec e iv probe c (s, w) = Ok (s', w')" and "\<nexists>m i. c = CoSetIdentityOracleCall m i"
  shows "co_identity_oracle_id s' = co_identity_oracle_id s"
proof (cases c)
  case (CoComputeScoreCall a)
  then obtain n where "co_compute_score e iv a s = Ok (n, s')" using assms by auto
  from co_compute_score_Ok [OF this] show ?thesis
    by (auto dest!: finish_score_Ok split: if_splits)
next
  case (CoRecordRepaymentCall l a n b)
  then show ?thesis using assms by (auto simp: co_record_repayment_Ok)
qed (use assms in \<open>auto simp: co_call_defs Let_def split: option.splits if_splits\<close>)

lemma co_exec_link:
  assumes "co_exec e iv probe c (s, w) = Ok (s', w')"
  shows "co_identity_oracle_id s' = co_identity_oracle_id s \<or>
    (\<exists>a n. co_identity_oracle_id s' = Some a \<and> probe (call_env e a) a (current_contract e) w = Some (n, w'))"
proof (cases "\<exists>m i. c = CoSetIdentityOracleCall m i")
  case True
  then obtain m i where c: "c = CoSetIdentityOracleCall m i" by blast
  obtain n where "probe (call_env e i) i (current_contract e) w = Some (n, w')" "co_identity_oracle_id s' = Some i"
    using assms by (auto simp: c co_set_identity_oracle_def co_publish_def split: option.splits)
  then show ?thesis by blast
next
  case False
  then show ?thesis using co_exec_same_link [OF assms] by blast
qed

text \<open>The identity-oracle is linked to the deployed registry or to none, and the credit-oracle to the deployed
  identity-oracle or to none; a linked registry knows some identity-oracle.\<close>

definition sys_linked :: "deployment \<Rightarrow> world \<Rightarrow> bool" where
  "sys_linked d w \<longleftrightarrow>
     (\<forall>a. io_registry_id (wd_identity w) = Some a \<longrightarrow>
        a = dp_registry d \<and> rr_identity_oracle_id (wd_registry w) \<noteq> None) \<and>
     (\<forall>a. co_identity_oracle_id (wd_credit w) = Some a \<longrightarrow> a = dp_identity d)"

lemma rr_batch_loop_oracle:
  "rr_batch_loop issu hs s xs m = Ok (s', xs', m') \<Longrightarrow> rr_identity_oracle_id s' = rr_identity_oracle_id s"
proof (induction hs arbitrary: s xs m)
  case (Cons h hs)
  then obtain s1 where "rr_claim issu h s = Ok s1" by auto
  then have "rr_identity_oracle_id (rr_publish (Revoked issu h) (rr_mark issu h s1)) = rr_identity_oracle_id s"
    by (auto simp: rr_claim_def rr_publish_def rr_mark_def split: option.splits if_splits)
  then show ?case using Cons \<open>rr_claim issu h s = Ok s1\<close> by (auto simp: Let_def split: if_splits)
qed simp

lemma rr_exec_oracle_kept:
  assumes "rr_exec e mark c (s, w) = Ok (s', w')" and "rr_identity_oracle_id s \<noteq> None"
  shows "rr_identity_oracle_id s' \<noteq> None"
proof (cases c)
  case (RrRevokeCall i a h)
  then show ?thesis using assms by (auto simp: rr_revoke_Ok rr_recorded_fields rr_publish_def)
next
  case (RrBatchRevokeCall i hs)
  then show ?thesis
    using assms by (auto simp: rr_local_def rr_batch_revoke_def rr_publish_def Let_def split: if_splits dest!: rr_batch_loop_oracle)
qed (use assms in \<open>auto simp: rr_local_def rr_admin_defs split: option.splits if_splits\<close>)

lemma sys_reachable_linked: "sys_reachable d w \<Longrightarrow> sys_linked d w"
proof (induction rule: sys_reachable.induct)
  case (sys_start e adm orc q g)
  then show ?case by (simp add: sys_linked_def world_new_def io_new_def co_new_def)
next
  case (sys_step w e c w')
  obtain r t s g where w: "w = \<lparr>wd_registry = r, wd_identity = t, wd_credit = s, wd_governance = g\<rparr>" by (cases w)
  have linked: "io_registry_id t = Some a \<Longrightarrow> a = dp_registry d \<and> rr_identity_oracle_id r \<noteq> None"
      "co_identity_oracle_id s = Some a \<Longrightarrow> a = dp_identity d" for a
    using sys_step.IH by (simp_all add: w sys_linked_def)
  have quiet: "io_registry_id t' = io_registry_id t"
    if "\<And>link. io_exec e rq link c (t, ()) = Ok (t', ())" for e rq c t'
    using io_exec_registry [OF that [of "\<lambda>_ _ _ _. None"]] by simp
  show ?case
  proof (cases c)
    case (ToRegistry c)
    then obtain r' t' where x: "rr_exec (invoked_at (dp_registry d) e) (pr_mark (dp_registry d) (dp_identity d) r) c (r, t) = Ok (r', t')"
        "w' = w\<lparr>wd_registry := r', wd_identity := t'\<rparr>"
      using sys_step.hyps(2) by (auto simp: w)
    have "io_registry_id t' = io_registry_id t"
      using rr_exec_world [OF x(1)] pr_mark_exec quiet by metis
    then show ?thesis using x(2) linked rr_exec_oracle_kept [OF x(1)] by (auto simp: w sys_linked_def)
  next
    case (ToIdentity c)
    then obtain r' t' where x: "io_exec (invoked_at (dp_identity d) e)
          (pr_query (dp_registry d) r (invoked_at (dp_identity d) e)) (pr_link (dp_registry d)) c (t, r) = Ok (t', r')"
        "w' = w\<lparr>wd_registry := r', wd_identity := t'\<rparr>"
      using sys_step.hyps(2) by (auto simp: w)
    have link: "a = dp_registry d \<and> rr_identity_oracle_id r' \<noteq> None" if "pr_link (dp_registry d) e a n r = Some r'" for e a n
      using that by (auto simp: pr_link_def rr_set_identity_oracle_def rr_publish_def split: if_splits outcome.splits)
    have kept: "rr_identity_oracle_id r' \<noteq> None" if "rr_identity_oracle_id r \<noteq> None"
      using io_exec_world [OF x(1)] link that by blast
    show ?thesis
      using io_exec_registry [OF x(1)] link kept linked x(2) by (auto simp: w sys_linked_def)
  next
    case (ToCredit c)
    then obtain s' t' where x: "co_exec (invoked_at (dp_credit d) e)
          (pr_view (dp_registry d) (dp_identity d) (invoked_at (dp_credit d) e) r t)
          (pr_probe (dp_registry d) (dp_identity d) r) c (s, t) = Ok (s', t')"
        "w' = w\<lparr>wd_credit := s', wd_identity := t'\<rparr>"
      using sys_step.hyps(2) by (auto simp: w)
    have "io_registry_id t' = io_registry_id t"
      using co_exec_world [OF x(1)] pr_probe_exec quiet by metis
    moreover have "co_identity_oracle_id s' = Some a \<Longrightarrow> a = dp_identity d" for a
      using co_exec_link [OF x(1)] linked(2) by (auto simp: pr_probe_def split: if_splits)
    ultimately show ?thesis using x(2) linked by (auto simp: w sys_linked_def)
  next
    case (ToGovernance c)
    then obtain g' s' where x: "gov_exec (invoked_at (dp_governance d) e) (pr_oracle_calls (dp_credit d)) c (g, s) = Ok (g', s')"
        "w' = w\<lparr>wd_governance := g', wd_credit := s'\<rparr>"
      using sys_step.hyps(2) by (auto simp: w)
    have "co_identity_oracle_id s' = co_identity_oracle_id s"
      using gov_exec_oracle [OF x(1)] co_exec_same_link unfolding oracle_call_of_governance_def
      by (metis co_call.distinct)
    then show ?thesis using x(2) linked by (auto simp: w sys_linked_def)
  qed
qed

section \<open>Properties\<close>

text \<open>C10: The deployment refines the contracts: whatever is called in a deployment, in any order, by anybody and with
  every cross-contract call executed in the contract called, the state of each contract is one that this
  contract's own model reaches on its own; so the invariants of the registry, the identity-oracle, the
  credit-oracle and governance hold together in every reachable world.\<close>

theorem system_refines_contracts:
  assumes "sys_reachable d w"
  shows "rr_reachable (wd_registry w, ()) \<and> io_reachable (wd_identity w, ()) \<and> co_reachable (wd_credit w, ())
    \<and> gov_reachable (wd_governance w, ())
    \<and> rr_inv (wd_registry w) \<and> io_inv (wd_identity w) \<and> co_inv (wd_credit w) \<and> gov_inv (wd_governance w)"
proof -
  note p = sys_projection [OF assms]
  have "rr_inv (wd_registry w)" using rr_reachable_inv_pair [of "(wd_registry w, ())"] p by simp
  moreover have "io_inv (wd_identity w)" using io_reachable_inv [of "(wd_identity w, ())"] p by simp
  moreover have "co_inv (wd_credit w)" using co_reachable_inv [of "(wd_credit w, ())"] p by simp
  moreover have "gov_inv (wd_governance w)" using gov_reachable_inv [of "(wd_governance w, ())"] p by simp
  ultimately show ?thesis using p by blast
qed

text \<open>A deployment to evaluate on: governance and both oracles initialised, the credit-oracle linked.\<close>

definition sys_demo_deployment :: deployment where
  "sys_demo_deployment = \<lparr>dp_registry = ''registry'', dp_identity = ''identity'', dp_credit = ''credit'',
     dp_governance = ''gov''\<rparr>"

definition sys_demo_env :: env where
  "sys_demo_env = \<lparr>ledger_sequence = 1000, ledger_timestamp = 5000, signers = UNIV, invoker = None,
     current_contract = '''', call_stack = []\<rparr>"

definition sys_demo_world :: world where
  "sys_demo_world = \<lparr>wd_registry = rr_new,
     wd_identity = io_new\<lparr>io_admin := Some ''admin'', io_storage_version := Some 2,
       io_active_vc_count := [''credit'' \<mapsto> 0], io_events := [IoInitialized ''admin'']\<rparr>,
     wd_credit = co_new\<lparr>co_admin := Some ''admin'', co_config := Some default_weights,
       co_compute_cooldown := Some 1, co_storage_version := Some 2, co_identity_oracle_id := Some ''identity'',
       co_events := [CoInitialized ''admin'', IdentityOracleUpdated ''identity'']\<rparr>,
     wd_governance = gov_new\<lparr>gv_admin := Some ''admin'', gv_credit_oracle := Some ''credit'',
       gv_next_proposal_id := Some 1, gv_quorum_required := Some 5,
       gv_events := [GvInitialized ''admin'' ''credit'']\<rparr>\<rparr>"

lemma sys_demo_auth: "authorized (invoked_at a sys_demo_env) b"
  by (simp add: authorized_def invoked_at_def sys_demo_env_def)

lemma sys_demo_reachable: "sys_reachable sys_demo_deployment sys_demo_world"
proof -
  let ?w0 = "world_new\<lparr>wd_governance := wd_governance sys_demo_world\<rparr>"
  let ?w1 = "?w0\<lparr>wd_identity := io_new\<lparr>io_admin := Some ''admin'', io_storage_version := Some 2,
       io_events := [IoInitialized ''admin'']\<rparr>\<rparr>"
  let ?w2 = "?w1\<lparr>wd_credit := co_new\<lparr>co_admin := Some ''admin'', co_config := Some default_weights,
       co_compute_cooldown := Some 1, co_storage_version := Some 2, co_events := [CoInitialized ''admin'']\<rparr>\<rparr>"
  have "gov_initialize (invoked_at ''gov'' sys_demo_env) ''admin'' ''credit'' 5 gov_new = Ok (wd_governance sys_demo_world)"
    using sys_demo_auth by (simp add: gov_initialize_def gov_publish_def gov_new_def sys_demo_world_def FIRST_PROPOSAL_ID_def)
  then have "sys_reachable sys_demo_deployment ?w0" by (rule sys_start)
  moreover have "sys_exec sys_demo_deployment sys_demo_env (ToIdentity (IoInitializeCall ''admin'')) ?w0 = Ok ?w1"
    using sys_demo_auth by (simp add: io_admin_defs io_local_def io_new_def world_new_def)
  ultimately have "sys_reachable sys_demo_deployment ?w1" by (rule sys_step)
  moreover have "sys_exec sys_demo_deployment sys_demo_env (ToCredit (CoInitializeCall ''admin'')) ?w1 = Ok ?w2"
    using sys_demo_auth
    by (simp add: co_initialize_def co_publish_def co_local_def co_new_def DEFAULT_COMPUTE_COOLDOWN_LEDGERS_def world_new_def)
  ultimately have "sys_reachable sys_demo_deployment ?w2" by (rule sys_step)
  moreover have "sys_exec sys_demo_deployment sys_demo_env (ToCredit (CoSetIdentityOracleCall ''admin'' ''identity'')) ?w2
      = Ok sys_demo_world"
    using sys_demo_auth
    by (simp add: co_set_identity_oracle_def co_guard_defs co_new_def pr_probe_def io_get_active_vc_count_def io_new_def
        seed_active_vc_count_def compute_active_vc_count_def io_anchors_def sys_demo_deployment_def sys_demo_world_def
        invoked_at_def world_new_def)
  ultimately show ?thesis by (rule sys_step)
qed

theorem system_refines_contracts_witness:
  "rr_inv (wd_registry sys_demo_world) \<and> io_inv (wd_identity sys_demo_world) \<and> co_inv (wd_credit sys_demo_world)
   \<and> gov_inv (wd_governance sys_demo_world)"
  using system_refines_contracts [OF sys_demo_reachable] by blast

text \<open>C11: In a deployment whose registry and credit-oracle are different contracts, scoring always works: in every
  reachable world the identity-oracle is linked to the deployed registry or to none and the credit-oracle to
  the deployed identity-oracle or to none, so \<open>compute_score\<close> of an initialised, unpaused oracle linked to it
  never fails on a cross-contract call, in whatever state the other contracts are: after its cooldown the
  score returned for a deactivated subject (of fewer than 2^32 anchors) is 300 and nothing is stored; for any other
  it is the published formula over exactly the records that count, and it is stored with their number in the next
  world.\<close>

theorem system_scoring_total:
  assumes "sys_reachable d w" and "dp_registry d \<noteq> dp_credit d"
    and "co_config (wd_credit w) = Some x" and "\<not> co_is_paused (wd_credit w)"
    and "check_compute_cooldown (invoked_at (dp_credit d) e) a (wd_credit w) = Ok ()"
    and "co_identity_oracle_id (wd_credit w) \<noteq> None"
    and "card (dom (co_score (wd_credit w))) < 2 ^ 64 - 1" and "length (io_anchors (wd_identity w) a) < 2 ^ 32"
  shows "\<exists>n s'. co_compute_score (invoked_at (dp_credit d) e)
      (pr_view (dp_registry d) (dp_identity d) (invoked_at (dp_credit d) e) (wd_registry w) (wd_identity w)) a
      (wd_credit w) = Ok (n, s') \<and>
    sys_exec d e (ToCredit (CoComputeScoreCall a)) w = Ok (w\<lparr>wd_credit := s'\<rparr>) \<and>
    (if io_is_deactivated (wd_identity w) a then n = 300 \<and> s' = wd_credit w
     else \<exists>q. co_score s' a = Some q \<and> score q = n \<and>
       unat (vc_count q) = length (pr_counted (wd_registry w) (wd_identity w) a) \<and>
       unat n = published_score (wd_credit w) a x
         (min 100 (\<Sum>v\<leftarrow>pr_counted (wd_registry w) (wd_identity w) a.
            record_points e (wd_credit w) (io_get_vc_credential_type (wd_identity w) a (vc_hash_of v)) v)))"
proof -
  let ?e = "invoked_at (dp_credit d) e"
  let ?v = "pr_view (dp_registry d) (dp_identity d) ?e (wd_registry w) (wd_identity w)"
  note linked = sys_reachable_linked [OF assms(1), unfolded sys_linked_def]
  have iid: "co_identity_oracle_id (wd_credit w) = Some (dp_identity d)" using linked assms(6) by auto
  have l: "pr_linked (dp_registry d) (dp_identity d) ?e (wd_identity w) (dp_identity d)"
    using linked assms(2) by (auto simp: pr_linked_def invoked_at_def)
  have inv: "co_inv (wd_credit w)"
    using sys_projection [OF assms(1)] co_reachable_inv [of "(wd_credit w, ())"] by simp
  have points: "record_points ?e = record_points e" by (simp add: record_points_def invoked_at_def Let_def fun_eq_iff)
  from pr_score_linked [OF inv assms(3,4,5) iid assms(7) l assms(8), of "wd_registry w"] show ?thesis
    unfolding points by (auto simp: MIN_SCORE_def split: if_splits)
qed

theorem system_scoring_total_witness:
  "\<exists>s'. sys_exec sys_demo_deployment sys_demo_env (ToCredit (CoComputeScoreCall ''bob'')) sys_demo_world
       = Ok (sys_demo_world\<lparr>wd_credit := s'\<rparr>)
     \<and> (\<exists>q. co_score s' ''bob'' = Some q \<and> unat (score q) = 300)"
proof -
  have h: "dp_registry sys_demo_deployment \<noteq> dp_credit sys_demo_deployment"
    "co_config (wd_credit sys_demo_world) = Some default_weights" "\<not> co_is_paused (wd_credit sys_demo_world)"
    "check_compute_cooldown (invoked_at (dp_credit sys_demo_deployment) sys_demo_env) ''bob'' (wd_credit sys_demo_world) = Ok ()"
    "co_identity_oracle_id (wd_credit sys_demo_world) \<noteq> None"
    "card (dom (co_score (wd_credit sys_demo_world))) < 2 ^ 64 - 1"
    "length (io_anchors (wd_identity sys_demo_world) ''bob'') < 2 ^ 32"
    by (simp_all add: sys_demo_deployment_def sys_demo_world_def co_new_def io_new_def co_is_paused_def
        check_compute_cooldown_def io_anchors_def Let_def)
  have d: "\<not> io_is_deactivated (wd_identity sys_demo_world) ''bob''"
    "pr_counted (wd_registry sys_demo_world) (wd_identity sys_demo_world) ''bob'' = []"
    by (simp_all add: sys_demo_world_def io_new_def io_is_deactivated_def pr_counted_def io_anchors_def)
  have "published_score (wd_credit sys_demo_world) ''bob'' default_weights 0 = 300"
    by (simp add: published_score_def sys_demo_world_def co_new_def load_tx_stats_def repayment_of_def
        default_weights_def score_spec_def final_spec_def composite_spec_def tx_spec_def repay_spec_def
        rate_spec_def capped_volume_def)
  then show ?thesis
    using system_scoring_total [OF sys_demo_reachable h] d by auto
qed

end
