(* ===== verification/Anchoring.thy ===== *)
theory Anchoring
  imports Identity_Oracle
begin

text \<open>
  Anchoring on an identity-oracle whose registry, if it has one, revokes nothing: when the next anchor succeeds,
  and what it does. With no registry at all (\<open>anchors_freely\<close>) the invariant of the contract bounds the cached
  count. The fuzz targets and the contract's own tests, which anchor in loops, rest on it.
\<close>

section \<open>A registry that revokes nothing\<close>

definition quiet :: "registry_query \<Rightarrow> io_state \<Rightarrow> bool" where
  "quiet rq s \<longleftrightarrow> (\<forall>a h. io_registry_id s = Some a \<longrightarrow> rq a h = Some False)"

lemma quiet_unlinked: "io_registry_id s = None \<Longrightarrow> quiet rq s"
  by (simp add: quiet_def)

lemma quiet_cong: "io_registry_id s = io_registry_id t \<Longrightarrow> quiet rq s = quiet rq t"
  by (simp add: quiet_def)

lemma quiet_revoked:
  assumes "quiet rq s"
  shows "is_record_revoked rq s r = Some (revoked r)" "record_revoked rq s r = revoked r"
  using assms by (auto simp: is_record_revoked_def record_revoked_def quiet_def split: option.splits)

lemma quiet_active: "quiet rq s \<Longrightarrow> active_records rq s rs = Some (live rs)"
  by (induction rs) (simp_all add: quiet_revoked)

lemma quiet_count:
  assumes "quiet rq s" and "unat c + length rs < 2 ^ 32"
  shows "\<exists>d. count_active rq s rs c = Some d"
  using assms(2)
proof (induction rs arbitrary: c)
  case (Cons r rs)
  obtain d where "checked_add c 1 = Some d" "unat d = unat c + 1"
    using Cons.prems by (auto simp: checked_add_def unat_word_ariths)
  then show ?case
    using Cons.IH [of c] Cons.IH [of d] Cons.prems assms(1) by (cases "revoked r") (simp_all add: quiet_revoked)
qed simp

text \<open>The cap decides; nothing else can go wrong while the counters are in range.\<close>

lemma quiet_anchor:
  assumes q: "quiet rq s" and open_to: "\<not> io_is_paused s" "authorized e issu" "io_trusted s issu"
    and new: "\<not> has_anchor issu h (io_anchors s subject)"
    and total: "unat (total_vcs_anchored (io_load_protocol_stats s)) + 1 < 2 ^ 64"
    and len: "length (io_anchors s subject) < 2 ^ 31"
    and cached: "\<And>c. io_active_vc_count s subject = Some c \<Longrightarrow> length (live (io_anchors s subject)) < 100
      \<Longrightarrow> unat c + 1 < 2 ^ 32"
  shows "if length (live (io_anchors s subject)) < 100
    then (\<exists>s'. io_anchor_vc_typed e rq issu subject h ty s = Ok s')
    else io_anchor_vc_typed e rq issu subject h ty s = Err VCLimitReached"
proof -
  have front: "io_ensure_not_paused s = Ok ()"
    using open_to(1) by (simp add: io_ensure_not_paused_def io_is_paused_def)
  have "\<exists>s'. io_anchor_vc_typed e rq issu subject h ty s = Ok s'" if few: "length (live (io_anchors s subject)) < 100"
  proof -
    define s3 where "s3 = record_last_state_change e subject
      ((store_credential_type subject h ty s)\<lparr>io_vc_anchors :=
         (io_vc_anchors s)(subject \<mapsto> io_anchors s subject @ [new_record e issu h])\<rparr>)"
    have s3: "io_registry_id s3 = io_registry_id s" "io_active_vc_count s3 = io_active_vc_count s" "io_stats s3 = io_stats s"
      "io_anchors s3 subject = io_anchors s subject @ [new_record e issu h]"
      by (simp_all add: s3_def record_last_state_change_def store_credential_type_def io_anchors_def)
    have q3: "quiet rq s3" using q quiet_cong [OF s3(1)] by simp
    have "\<exists>s4. bump_active_count rq subject True s3 = Some s4 \<and> io_stats s4 = io_stats s"
    proof (cases "io_active_vc_count s subject")
      case None
      then show ?thesis
        using quiet_count [OF q3, of 0 "io_anchors s3 subject"] len s3
        by (auto simp: bump_active_count_def load_active_vc_count_def seed_active_vc_count_def compute_active_vc_count_def)
    next
      case (Some c)
      then obtain d where "checked_add c 1 = Some d" using cached [OF Some few] by (auto simp: checked_add_def)
      then show ?thesis using Some s3 by (simp add: bump_active_count_def load_active_vc_count_def)
    qed
    then obtain s4 where s4: "bump_active_count rq subject True s3 = Some s4" "io_stats s4 = io_stats s" by blast
    obtain s5 where s5: "increment_vcs_anchored s4 = Some s5"
      using total s4(2) by (auto simp: increment_vcs_anchored_def io_load_protocol_stats_def checked_add_def Let_def)
    show ?thesis
      using front open_to new few s4(1) s5
      by (simp add: io_anchor_vc_typed_def quiet_active [OF q] quiet_revoked [OF q] MAX_VCS_PER_SUBJECT_def Let_def
          s3_def new_record_def store_credential_type_def io_anchors_def)
  qed
  moreover have "io_anchor_vc_typed e rq issu subject h ty s = Err VCLimitReached"
    if "\<not> length (live (io_anchors s subject)) < 100"
    using front open_to new that
    by (simp add: io_anchor_vc_typed_def quiet_active [OF q] MAX_VCS_PER_SUBJECT_def)
  ultimately show ?thesis by simp
qed

section \<open>No registry\<close>

definition anchors_freely :: "env \<Rightarrow> address \<Rightarrow> io_state \<Rightarrow> bool" where
  "anchors_freely e issu s \<longleftrightarrow>
     io_creds_ok s \<and> io_registry_id s = None \<and> \<not> io_is_paused s \<and> authorized e issu \<and> io_trusted s issu"

lemma anchor_unlinked:
  assumes free: "anchors_freely e issu s" and new: "\<not> has_anchor issu h (io_anchors s subject)"
    and total: "unat (total_vcs_anchored (io_load_protocol_stats s)) + 1 < 2 ^ 64"
    and len: "length (io_anchors s subject) < 2 ^ 31"
  shows "if length (live (io_anchors s subject)) < 100
    then (\<exists>s'. io_anchor_vc_typed e rq issu subject h ty s = Ok s')
    else io_anchor_vc_typed e rq issu subject h ty s = Err VCLimitReached"
proof (rule quiet_anchor [OF _ _ _ _ new total len])
  fix c assume "io_active_vc_count s subject = Some c" "length (live (io_anchors s subject)) < 100"
  then show "unat c + 1 < 2 ^ 32" using free by (simp add: anchors_freely_def io_creds_ok_def)
qed (use free in \<open>simp_all add: anchors_freely_def quiet_unlinked\<close>)

abbreviation anchored_total :: "io_state \<Rightarrow> nat" where
  "anchored_total s \<equiv> unat (total_vcs_anchored (io_load_protocol_stats s))"

lemma anchor_step:
  assumes free: "anchors_freely e issu s" and new: "\<not> has_anchor issu h (io_anchors s subject)"
    and r: "io_anchor_vc_typed e rq issu subject h ty s = Ok s'"
  shows "anchors_freely e issu s' \<and> anchored_total s' = anchored_total s + 1
    \<and> io_anchors s' subject = io_anchors s subject @ [new_record e issu h]
    \<and> (\<forall>a. a \<noteq> subject \<longrightarrow> io_anchors s' a = io_anchors s a)
    \<and> (\<forall>c c'. io_active_vc_count s subject = Some c \<longrightarrow> io_active_vc_count s' subject = Some c'
         \<longrightarrow> unat c' = unat c + 1)
    \<and> io_active_vc_count s' subject \<noteq> None"
proof -
  have reg: "io_registry_id s = None" using free by (simp add: anchors_freely_def)
  note ok = io_anchor_vc_typed_Ok [OF r]
  have rest: "io_rest s' = io_rest s" using ok new by simp
  obtain n where n: "checked_add (total_vcs_anchored (io_load_protocol_stats s)) 1 = Some n"
      "io_load_protocol_stats s' = (io_load_protocol_stats s)\<lparr>total_vcs_anchored := n\<rparr>"
    using ok new by auto
  have anc: "io_vc_anchors s' = (io_vc_anchors s)(subject \<mapsto> io_anchors s subject @ [new_record e issu h])"
    using ok new by simp
  obtain d where d: "io_active_vc_count s' = (io_active_vc_count s)(subject \<mapsto> d)"
      "io_active_vc_count s subject = Some c \<Longrightarrow> unat d = unat c + 1" for c
    using ok new by (auto simp: record_revoked_unlinked [OF reg] new_record_def)
  have "anchors_freely e issu s'"
    using free io_anchor_vc_typed_creds [OF r] io_rest_fields [OF rest]
    by (simp add: anchors_freely_def io_is_paused_def io_trusted_def)
  moreover have "anchored_total s' = anchored_total s + 1"
    using unat_checked_add [OF n(1)] n(2) by simp
  ultimately show ?thesis using anc d by (simp add: io_anchors_def)
qed

section \<open>Anchoring and revoking in a loop\<close>

text \<open>
  What the loops keep: the issuer may anchor, the registry is quiet, every cached count is exact, and the
  counters are below \<open>m\<close>, which grows by one with each step.
\<close>

definition ready :: "registry_query \<Rightarrow> env \<Rightarrow> address \<Rightarrow> nat \<Rightarrow> io_state \<Rightarrow> bool" where
  "ready rq e issu m s \<longleftrightarrow>
     quiet rq s \<and> \<not> io_is_paused s \<and> authorized e issu \<and> io_trusted s issu \<and>
     anchored_total s \<le> m \<and> unat (total_vcs_revoked (io_load_protocol_stats s)) \<le> m \<and>
     (\<forall>a. length (io_anchors s a) \<le> m \<and> distinct (anchor_keys (io_anchors s a)) \<and>
        (\<forall>c. io_active_vc_count s a = Some c \<longrightarrow> unat c = length (live (io_anchors s a))))"

lemma has_anchor_keys: "has_anchor issu h rs \<longleftrightarrow> (h, issu) \<in> set (anchor_keys rs)"
  by (auto simp: has_anchor_def anchor_keys_def)

lemma ready_anchor:
  assumes r: "ready rq e issu m s" and new: "\<not> has_anchor issu h (io_anchors s a)"
    and few: "length (live (io_anchors s a)) < 100" and m: "m < 1000"
  shows "\<exists>s'. io_anchor_vc_typed e rq issu a h ty s = Ok s' \<and> ready rq e issu (m + 1) s'
    \<and> io_anchors s' a = io_anchors s a @ [new_record e issu h] \<and> io_active_vc_count s' a \<noteq> None
    \<and> (\<forall>b. b \<noteq> a \<longrightarrow> io_anchors s' b = io_anchors s b)"
proof -
  have q: "quiet rq s" and g: "\<not> io_is_paused s" "authorized e issu" "io_trusted s issu"
    and b: "anchored_total s \<le> m" "length (io_anchors s a) \<le> m"
    and c: "\<And>c. io_active_vc_count s a = Some c \<Longrightarrow> unat c = length (live (io_anchors s a))"
    using r by (auto simp: ready_def)
  obtain s' where s': "io_anchor_vc_typed e rq issu a h ty s = Ok s'"
    using quiet_anchor [OF q g new, of ty] b c few m by fastforce
  note ok = io_anchor_vc_typed_Ok [OF s']
  have rest: "io_rest s' = io_rest s" using ok new by simp
  obtain n where n: "checked_add (total_vcs_anchored (io_load_protocol_stats s)) 1 = Some n"
      "io_load_protocol_stats s' = (io_load_protocol_stats s)\<lparr>total_vcs_anchored := n\<rparr>"
    using ok new by auto
  have anc: "io_vc_anchors s' = (io_vc_anchors s)(a \<mapsto> io_anchors s a @ [new_record e issu h])"
    using ok new by simp
  obtain d where d: "io_active_vc_count s' = (io_active_vc_count s)(a \<mapsto> d)"
      "unat d = (case io_active_vc_count s a of Some old \<Rightarrow> unat old + 1
         | None \<Rightarrow> length (live (io_anchors s a)) + 1)"
    using ok new by (auto simp: quiet_revoked [OF q] new_record_def cong: option.case_cong)
  then have d': "unat d = length (live (io_anchors s' a))"
    using anc c by (auto simp: io_anchors_def new_record_def split: option.splits)
  have keys: "distinct (anchor_keys (io_anchors s a @ [new_record e issu h]))"
    using r new by (simp add: ready_def anchor_keys_snoc)
  have each: "length (io_anchors s' x) \<le> m + 1 \<and> distinct (anchor_keys (io_anchors s' x)) \<and>
      (\<forall>c. io_active_vc_count s' x = Some c \<longrightarrow> unat c = length (live (io_anchors s' x)))" for x
  proof (cases "x = a")
    case True
    with d d' anc b keys show ?thesis by (simp add: io_anchors_def)
  next
    case False
    with r d(1) anc show ?thesis by (simp add: ready_def io_anchors_def le_SucI)
  qed
  have "ready rq e issu (m + 1) s'"
    using each r n unat_checked_add [OF n(1)] quiet_cong [OF io_rest_fields(2) [OF rest]] io_rest_fields [OF rest]
    by (simp add: ready_def io_is_paused_def io_trusted_def)
  then show ?thesis using s' d anc by (simp add: io_anchors_def)
qed

lemma limit_reached:
  assumes r: "ready rq e issu m s" and "\<not> has_anchor issu h (io_anchors s a)" and "m < 1000"
    and "100 \<le> length (live (io_anchors s a))"
  shows "io_anchor_vc_typed e rq issu a h ty s = Err VCLimitReached"
proof -
  have q: "quiet rq s" "\<not> io_is_paused s" "authorized e issu" "io_trusted s issu"
    and b: "anchored_total s \<le> m" "length (io_anchors s a) \<le> m"
    using r by (auto simp: ready_def)
  show ?thesis using quiet_anchor [OF q assms(2), of ty] assms(3,4) b by fastforce
qed

lemma ready_mark:
  assumes r: "ready rq e issu m s" and l: "has_live_anchor issu h (io_anchors s a)"
    and n: "io_active_vc_count s a \<noteq> None" and m: "m < 1000"
  shows "\<exists>s'. io_mark_vc_revoked e rq issu a h s = Ok s' \<and> ready rq e issu (m + 1) s'
    \<and> io_anchors s' a = map (mark_record issu h) (io_anchors s a) \<and> io_active_vc_count s' a \<noteq> None"
proof -
  have q: "quiet rq s" and g: "\<not> io_is_paused s" "authorized e issu" "io_trusted s issu"
    and b: "unat (total_vcs_revoked (io_get_protocol_stats s)) < 2 ^ 64 - 1"
    using r m by (auto simp: ready_def io_get_protocol_stats_def)
  have keys: "distinct (anchor_keys (io_anchors s a))" using r by (simp add: ready_def)
  note one = live_mark_one [OF keys l]
  obtain c where c: "io_active_vc_count s a = Some c" "unat c = length (live (io_anchors s a))"
    using n r by (auto simp: ready_def)
  obtain s3 where s3: "\<And>rq. io_mark_vc_revoked e rq issu a h s = expect (drop_active_count rq a s3)"
      "io_active_vc_count s3 = io_active_vc_count s"
    using mark_live_run [OF g(1,2) l b] by metis
  have "1 \<le> c" using c one by (simp add: word_le_nat_alt)
  then obtain s' where s': "io_mark_vc_revoked e rq issu a h s = Ok s'"
    using s3 c by (simp add: drop_active_count_def load_active_vc_count_def checked_sub_def)
  note ok = io_mark_vc_revoked_Ok [OF s']
  have rest: "io_rest s' = io_rest s" using ok by simp
  have anc: "io_vc_anchors s' = (io_vc_anchors s)(a \<mapsto> map (mark_record issu h) (io_anchors s a))" using ok by simp
  obtain k where k: "checked_add (total_vcs_revoked (io_load_protocol_stats s)) 1 = Some k"
      "io_load_protocol_stats s' = (io_load_protocol_stats s)\<lparr>total_vcs_revoked := k\<rparr>"
    using ok l by auto
  obtain d where d: "io_active_vc_count s' = (io_active_vc_count s)(a \<mapsto> d)" "unat c = unat d + 1"
    using ok l c by auto
  have each: "length (io_anchors s' x) \<le> m + 1 \<and> distinct (anchor_keys (io_anchors s' x)) \<and>
      (\<forall>c. io_active_vc_count s' x = Some c \<longrightarrow> unat c = length (live (io_anchors s' x)))" for x
  proof (cases "x = a")
    case True
    have "length (io_anchors s a) \<le> m" using r by (simp add: ready_def)
    with True d c one anc keys show ?thesis by (simp add: io_anchors_def)
  next
    case False
    with r d(1) anc show ?thesis by (simp add: ready_def io_anchors_def le_SucI)
  qed
  have "ready rq e issu (m + 1) s'"
    using each r k unat_checked_add [OF k(1)] quiet_cong [OF io_rest_fields(2) [OF rest]] io_rest_fields [OF rest]
    by (simp add: ready_def io_is_paused_def io_trusted_def)
  then show ?thesis using s' d anc by (simp add: io_anchors_def)
qed

end
