(* ===== verification/Fuzz_Targets.thy ===== *)
theory Fuzz_Targets
  imports Scoring Governance Anchoring
begin

text \<open>
  The fuzz targets of the contracts (\<open>contracts/*/fuzz/fuzz_targets\<close>) as functions of the bytes the fuzzer
  supplies. An early \<open>return\<close> is \<open>Ok ()\<close> and a failed assertion or an \<open>expect\<close> is \<open>Trap\<close>. What the
  fuzzer samples is proved here for every input, and the helpers with which the targets mirror the contracts
  are compared with the models of the contracts.
\<close>

section \<open>Reading the fuzzer's bytes\<close>

definition read_u32 :: "nat \<Rightarrow> bytes \<Rightarrow> u32" where
  "read_u32 i data = of_nat (le_value (take 4 (drop i data)))"

definition read_i128 :: "nat \<Rightarrow> bytes \<Rightarrow> i128" where
  "read_i128 i data = of_nat (le_value (take 16 (drop i data)))"

text \<open>\<open>assert!\<close>, and \<open>let Some(x) = e else { return; }\<close>.\<close>

definition check :: "bool \<Rightarrow> (unit, unit) outcome" where
  "check b = (if b then Ok () else Trap)"

definition let_some :: "'a option \<Rightarrow> ('a \<Rightarrow> (unit, unit) outcome) \<Rightarrow> (unit, unit) outcome" where
  "let_some v k = (case v of None \<Rightarrow> Ok () | Some x \<Rightarrow> k x)"

section \<open>\<open>compute_score_pure\<close>\<close>

definition fuzz_compute_score_pure :: "bytes \<Rightarrow> (unit, unit) outcome" where
  "fuzz_compute_score_pure data =
     (if length data < 60 then Ok ()
      else let score = compute_score_pure (read_u32 0 data) (read_i128 4 data) (read_u32 20 data)
                         (read_u32 24 data) (read_u32 28 data) (read_i128 32 data)
                         (read_u32 48 data) (read_u32 52 data) (read_u32 56 data)
           in outcome_bind (check (300 \<le> score)) (\<lambda>_. check (score \<le> 850)))"

section \<open>\<open>vote_weight\<close> and \<open>fuzz_vote\<close>\<close>

definition accumulate_vote :: "i128 \<Rightarrow> i128 \<Rightarrow> bool \<Rightarrow> i128 \<Rightarrow> (i128 \<times> i128) option" where
  "accumulate_vote votes_for votes_against vote_for vote_weight =
     (if vote_for then map_option (\<lambda>v. (v, votes_against)) (i128_checked_add votes_for vote_weight)
      else map_option (\<lambda>v. (votes_for, v)) (i128_checked_add votes_against vote_weight))"

definition fuzz_vote_weight :: "bytes \<Rightarrow> (unit, unit) outcome" where
  "fuzz_vote_weight data =
     (if length data < 49 then Ok ()
      else
        let votes_for = read_i128 0 data; votes_against = read_i128 16 data;
            vote_weight = read_i128 32 data; vote_for = (data ! 48 \<noteq> 0)
        in if sint vote_weight \<le> 0 then Ok ()
           else if sint votes_for < 0 \<or> sint votes_against < 0 then Ok ()
           else let_some (accumulate_vote votes_for votes_against vote_for vote_weight) (\<lambda>(new_for, new_against).
             outcome_bind (check (sint votes_for \<le> sint new_for)) (\<lambda>_.
             outcome_bind (check (sint votes_against \<le> sint new_against)) (\<lambda>_.
               if length data < 81 then Ok ()
               else let vote_weight_b = read_i128 65 data
                    in if sint vote_weight_b \<le> 0 then Ok ()
                       else let_some (i128_checked_add votes_for vote_weight) (\<lambda>after_a.
                            let_some (i128_checked_add after_a vote_weight_b) (\<lambda>after_ab.
                            let_some (i128_checked_add votes_for vote_weight_b) (\<lambda>after_b.
                            let_some (i128_checked_add after_b vote_weight) (\<lambda>after_ba.
                              check (after_ab = after_ba)))))))))"

definition accumulate_tally :: "i128 \<Rightarrow> i128 \<Rightarrow> bool \<Rightarrow> i128 \<Rightarrow> (i128 \<times> i128) option" where
  "accumulate_tally votes_for votes_against vote_for vote_weight =
     (if sint vote_weight \<le> 0 then Some (votes_for, votes_against)
      else if vote_for then map_option (\<lambda>v. (v, votes_against)) (i128_checked_add votes_for vote_weight)
      else map_option (\<lambda>v. (votes_for, v)) (i128_checked_add votes_against vote_weight))"

definition fuzz_vote :: "bytes \<Rightarrow> (unit, unit) outcome" where
  "fuzz_vote data =
     (if length data < 49 then Ok ()
      else
        let votes_for = read_i128 0 data; votes_against = read_i128 16 data;
            vote_weight = read_i128 32 data; vote_for = (data ! 48 \<noteq> 0)
        in if sint votes_for < 0 \<or> sint votes_against < 0 then Ok ()
           else let_some (accumulate_tally votes_for votes_against vote_for vote_weight) (\<lambda>(new_for, new_against).
             outcome_bind (check (sint votes_for \<le> sint new_for \<or> \<not> vote_for)) (\<lambda>_.
             outcome_bind (check (sint votes_against \<le> sint new_against \<or> vote_for)) (\<lambda>_.
               if length data < 65 then Ok ()
               else let next_vote_weight = read_i128 49 data
                    in if sint next_vote_weight \<le> 0 then Ok ()
                       else let_some (accumulate_tally votes_for votes_against vote_for vote_weight)
                              (\<lambda>(first_for, first_against).
                            let_some (accumulate_tally first_for first_against vote_for next_vote_weight)
                              (\<lambda>(second_for, second_against).
                            let_some (accumulate_tally votes_for votes_against vote_for next_vote_weight)
                              (\<lambda>(reverse_for, reverse_against).
                            let_some (accumulate_tally reverse_for reverse_against vote_for vote_weight)
                              (\<lambda>(reverse_total_for, reverse_total_against).
                              outcome_bind (check (second_for = reverse_total_for)) (\<lambda>_.
                                check (second_against = reverse_total_against))))))))))"

section \<open>\<open>anchor_vc_typed\<close>: the arithmetic of anchoring\<close>

definition FUZZ_MAX_VCS_PER_SUBJECT :: u32 where "FUZZ_MAX_VCS_PER_SUBJECT = 100"

definition try_increment_active_count :: "u32 \<Rightarrow> u32 option" where
  "try_increment_active_count current_active =
     (if FUZZ_MAX_VCS_PER_SUBJECT \<le> current_active then None else checked_add current_active 1)"

definition hashes_equal :: "bytes \<Rightarrow> bytes \<Rightarrow> bool" where
  "hashes_equal a b \<longleftrightarrow> a = b"

definition fuzz_anchor_arithmetic :: "bytes \<Rightarrow> (unit, unit) outcome" where
  "fuzz_anchor_arithmetic data =
     (if length data < 36 then Ok ()
      else
        let current_active = read_u32 0 data; incoming_hash = take 32 (drop 4 data);
            result = try_increment_active_count current_active
        in outcome_bind
             (if FUZZ_MAX_VCS_PER_SUBJECT \<le> current_active then check (result = None)
              else outcome_bind (expect result) (\<lambda>new_count.
                   outcome_bind (expect (checked_add current_active 1)) (\<lambda>next.
                   outcome_bind (check (new_count = next)) (\<lambda>_.
                     check (new_count \<le> FUZZ_MAX_VCS_PER_SUBJECT))))) (\<lambda>_.
           outcome_bind (check (hashes_equal incoming_hash incoming_hash)) (\<lambda>_.
             if length data < 68 then Ok ()
             else let existing_hash = take 32 (drop 36 data)
                  in check (hashes_equal incoming_hash existing_hash = hashes_equal existing_hash incoming_hash))))"

section \<open>\<open>fuzz_anchor_vc_typed\<close>: anchoring through the contract\<close>

text \<open>
  The target runs the contract in a fresh environment. \<open>Env::default()\<close> authorises nobody;
  \<open>mock_all_auths\<close> authorises everybody from then on. A \<open>try_\<close> call that fails leaves the state as it
  was. The generated addresses, the lossy decoding of the bytes and \<open>Symbol::new\<close> of the SDK (\<open>None\<close>
  when it panics) are arguments.
\<close>

definition env_default :: env where
  "env_default = \<lparr>ledger_sequence = 0, ledger_timestamp = 0, signers = {}, invoker = None,
     current_contract = ''identity'', call_stack = []\<rparr>"

definition mock_all_auths :: "env \<Rightarrow> env" where
  "mock_all_auths e = e\<lparr>signers := UNIV\<rparr>"

definition no_registry :: registry_query where
  "no_registry a h = None"

definition after_try :: "('e, 's) outcome \<Rightarrow> 's \<Rightarrow> 's" where
  "after_try r s = (case r of Ok s' \<Rightarrow> s' | _ \<Rightarrow> s)"

definition test_hash :: "u8 \<Rightarrow> bytes" where
  "test_hash i = [i, 1] @ replicate 29 0 @ [255]"

fun anchor_loop ::
  "env \<Rightarrow> address \<Rightarrow> address \<Rightarrow> credential_type \<Rightarrow> u8 list \<Rightarrow> io_state \<Rightarrow> io_state" where
  "anchor_loop e issu subject ty [] s = s"
| "anchor_loop e issu subject ty (i # is) s =
     anchor_loop e issu subject ty is
       (after_try (io_anchor_vc_typed e no_registry issu subject (test_hash i) ty s) s)"

definition fuzz_anchor_contract ::
  "env \<Rightarrow> (bytes \<Rightarrow> string) \<Rightarrow> (string \<Rightarrow> credential_type option) \<Rightarrow> address \<Rightarrow> address \<Rightarrow> address \<Rightarrow> address
     \<Rightarrow> bytes \<Rightarrow> io_state \<Rightarrow> (unit, unit) outcome \<times> io_state" where
  "fuzz_anchor_contract e lossy symbol_new adm issu subject limit_test_subject data s =
     (if length data < 33 then (Ok (), s)
      else
        let vc_hash = take 32 data; credential_type_string = lossy (take 32 (drop 32 data))
        in if credential_type_string = '''' then (Ok (), s)
           else case io_initialize e adm s of
               Err _ \<Rightarrow> (Ok (), s)
             | Trap \<Rightarrow> (Ok (), s)
             | Ok s1 \<Rightarrow>
                 (let e' = mock_all_auths e
                  in case io_register_issuer e' issu s1 of
                      Err _ \<Rightarrow> (Ok (), s1)
                    | Trap \<Rightarrow> (Ok (), s1)
                    | Ok s2 \<Rightarrow>
                        (case symbol_new credential_type_string of
                           None \<Rightarrow> (Trap, s2)
                         | Some ty \<Rightarrow>
                             (let s3 = after_try (io_anchor_vc_typed e' no_registry issu subject vc_hash ty s2) s2;
                                  s4 = anchor_loop e' issu limit_test_subject ty (map of_nat [0..<100]) s3;
                                  s5 = after_try (io_anchor_vc_typed e' no_registry issu limit_test_subject
                                         (test_hash 101) ty s4) s4
                              in (Ok (), s5)))))"

section \<open>Lemmas\<close>

lemma check_simps [simp]: "check b = Ok u \<longleftrightarrow> b" "check True = Ok ()"
  by (simp_all add: check_def)

lemma let_some_Ok: "(\<And>x. v = Some x \<Longrightarrow> k x = Ok ()) \<Longrightarrow> let_some v k = Ok ()"
  by (cases v) (simp_all add: let_some_def)

lemma i128_add_commutes:
  assumes "i128_checked_add x a = Some xa" and "i128_checked_add xa b = Some xab"
    and "i128_checked_add x b = Some xb" and "i128_checked_add xb a = Some xba"
  shows "xab = xba"
proof (rule signed_word_eqI)
  show "sint xab = sint xba" using assms unfolding i128_checked_add_Some by simp
qed

lemma i128_add_grows:
  "i128_checked_add x w = Some z \<Longrightarrow> \<not> sint w \<le> 0 \<Longrightarrow> sint x \<le> sint z"
  by (simp add: i128_checked_add_Some)

lemma compute_score_target: "fuzz_compute_score_pure data = Ok ()"
  by (simp add: fuzz_compute_score_pure_def Let_def word_le_nat_alt unat_compute_score_pure score_spec_def
      final_spec_def)

lemma vote_weight_target: "fuzz_vote_weight data = Ok ()"
  unfolding fuzz_vote_weight_def Let_def
  by (auto intro!: let_some_Ok simp: accumulate_vote_def split: if_splits)
    (erule (1) i128_add_grows | rule i128_add_commutes, assumption+)+

lemma vote_target: "fuzz_vote data = Ok ()"
  unfolding fuzz_vote_def Let_def
  by (auto intro!: let_some_Ok simp: accumulate_tally_def split: if_splits)
    (erule (1) i128_add_grows | rule i128_add_commutes, assumption+)+

lemma try_increment_None: "try_increment_active_count c = None \<longleftrightarrow> 100 \<le> unat c"
  by (auto simp: try_increment_active_count_def FUZZ_MAX_VCS_PER_SUBJECT_def checked_add_def word_le_nat_alt)

lemma try_increment_Some: "try_increment_active_count c = Some d \<longleftrightarrow> unat c < 100 \<and> unat d = unat c + 1"
  by (auto simp: try_increment_active_count_def FUZZ_MAX_VCS_PER_SUBJECT_def checked_add_Some word_le_nat_alt
      word_unat_eq_iff unat_word_ariths)

lemma anchor_arithmetic_target: "fuzz_anchor_arithmetic data = Ok ()"
proof -
  define c where "c = read_u32 0 data"
  have "\<exists>d. try_increment_active_count c = Some d \<and> checked_add c 1 = Some d \<and> d \<le> 100" if "\<not> 100 \<le> unat c"
  proof -
    from that obtain d where d: "checked_add c 1 = Some d" "unat d = unat c + 1"
      by (auto simp: checked_add_def unat_word_ariths)
    with that show ?thesis
      by (auto simp: try_increment_active_count_def FUZZ_MAX_VCS_PER_SUBJECT_def word_le_nat_alt)
  qed
  then show ?thesis
    by (auto simp: fuzz_anchor_arithmetic_def Let_def hashes_equal_def try_increment_None
        FUZZ_MAX_VCS_PER_SUBJECT_def word_le_nat_alt simp flip: c_def)
qed

lemma test_hash_inj: "test_hash i = test_hash j \<longleftrightarrow> i = j"
  by (simp add: test_hash_def)

lemma anchor_loop_fills:
  assumes "anchors_freely e issu s" and "distinct is"
    and "\<forall>i \<in> set is. \<not> has_anchor issu (test_hash i) (io_anchors s subject)"
    and "\<forall>r \<in> set (io_anchors s subject). \<not> revoked r"
    and "length (io_anchors s subject) + length is \<le> 100"
    and "anchored_total s + length is < 2 ^ 64"
  shows "anchors_freely e issu (anchor_loop e issu subject ty is s)
    \<and> io_anchors (anchor_loop e issu subject ty is s) subject
        = io_anchors s subject @ map (\<lambda>i. new_record e issu (test_hash i)) is
    \<and> anchored_total (anchor_loop e issu subject ty is s) = anchored_total s + length is"
  using assms
proof (induction "is" arbitrary: s)
  case (Cons i "is")
  have new: "\<not> has_anchor issu (test_hash i) (io_anchors s subject)" using Cons.prems(3) by simp
  have all: "live (io_anchors s subject) = io_anchors s subject" using Cons.prems(4) by (simp add: filter_id_conv)
  obtain s' where s': "io_anchor_vc_typed e no_registry issu subject (test_hash i) ty s = Ok s'"
    using anchor_unlinked [OF Cons.prems(1) new, of no_registry ty] Cons.prems(5,6) all by fastforce
  note step = anchor_step [OF Cons.prems(1) new s']
  have anc: "io_anchors s' subject = io_anchors s subject @ [new_record e issu (test_hash i)]" using step by simp
  have "anchors_freely e issu (anchor_loop e issu subject ty is s')
    \<and> io_anchors (anchor_loop e issu subject ty is s') subject
        = io_anchors s' subject @ map (\<lambda>i. new_record e issu (test_hash i)) is
    \<and> anchored_total (anchor_loop e issu subject ty is s') = anchored_total s' + length is"
  proof (rule Cons.IH)
    show "\<forall>j \<in> set is. \<not> has_anchor issu (test_hash j) (io_anchors s' subject)"
      using Cons.prems(2,3) by (auto simp: anc has_anchor_def new_record_def test_hash_inj)
    show "\<forall>r \<in> set (io_anchors s' subject). \<not> revoked r"
      using Cons.prems(4) by (auto simp: anc new_record_def)
  qed (use step Cons.prems in \<open>auto simp: anc\<close>)
  then show ?case using step anc s' by (simp add: after_try_def)
qed simp

lemma after_try_anchor:
  assumes "anchors_freely e issu s" and "a \<noteq> subject"
    and s': "s' = after_try (io_anchor_vc_typed e rq issu subject h ty s) s"
  shows "anchors_freely e issu s' \<and> io_anchors s' a = io_anchors s a \<and> anchored_total s' \<le> anchored_total s + 1"
proof (cases "io_anchor_vc_typed e rq issu subject h ty s")
  case (Ok t)
  show ?thesis
  proof (cases "has_anchor issu h (io_anchors s subject)")
    case True
    then show ?thesis using io_anchor_vc_typed_Ok [OF Ok] Ok assms by (simp add: after_try_def)
  next
    case False
    then show ?thesis using anchor_step [OF assms(1) False Ok] Ok assms(2) by (simp add: s' after_try_def)
  qed
qed (use assms in \<open>simp_all add: after_try_def\<close>)

lemma add_vote_accumulates:
  "add_vote vote_for weight p =
      (case accumulate_vote (gp_votes_for p) (gp_votes_against p) vote_for weight of
         None \<Rightarrow> Err VoteTallyOverflow
       | Some (f, a) \<Rightarrow> Ok (p\<lparr>gp_votes_for := f, gp_votes_against := a\<rparr>))"
proof (cases vote_for)
  case True
  then show ?thesis
    by (cases "i128_checked_add (gp_votes_for p) weight")
      (simp_all add: add_vote_def accumulate_vote_def)
next
  case False
  then show ?thesis
    by (cases "i128_checked_add (gp_votes_against p) weight")
      (simp_all add: add_vote_def accumulate_vote_def)
qed

section \<open>Properties\<close>

text \<open>C38: The four fuzz targets that compute, \<open>compute_score_pure\<close>, \<open>vote_weight\<close>, \<open>fuzz_vote\<close> and
  \<open>anchor_vc_typed\<close>, cannot crash: on every sequence of bytes, of any length, each assertion of theirs
  holds and no arithmetic in them overflows. What the fuzzer samples holds of all inputs.\<close>

theorem fuzz_targets_never_crash:
  "fuzz_compute_score_pure data = Ok () \<and> fuzz_vote_weight data = Ok () \<and> fuzz_vote data = Ok ()
   \<and> fuzz_anchor_arithmetic data = Ok ()"
  by (simp add: compute_score_target vote_weight_target vote_target anchor_arithmetic_target)

text \<open>The helpers that stand for the contracts in the fuzz targets decide as the contracts do. For a positive
  weight both tallies of the targets are the \<open>checked_add\<close> of \<open>vote\<close>: the overflow is its
  \<open>VoteTallyOverflow\<close>. For a new credential of a registered issuer in a reachable state without a
  linked registry, \<open>try_increment_active_count\<close> of the subject's cached count says whether
  \<open>anchor_vc_typed\<close> stores it, with the count it stores, or returns \<open>VCLimitReached\<close>.\<close>

theorem fuzz_mirrors_faithful:
  assumes "io_reachable (s, w)" and "io_registry_id s = None" and "\<not> io_is_paused s" and "authorized e issu"
    and "io_trusted s issu" and "\<not> has_anchor issu h (io_anchors s subject)"
    and "io_active_vc_count s subject = Some c" and "anchored_total s + 1 < 2 ^ 64"
    and "length (io_anchors s subject) < 2 ^ 31" and "0 < sint weight"
  shows "add_vote vote_for weight p =
      (case accumulate_vote (gp_votes_for p) (gp_votes_against p) vote_for weight of
         None \<Rightarrow> Err VoteTallyOverflow
       | Some (f, a) \<Rightarrow> Ok (p\<lparr>gp_votes_for := f, gp_votes_against := a\<rparr>))
    \<and> accumulate_tally (gp_votes_for p) (gp_votes_against p) vote_for weight
        = accumulate_vote (gp_votes_for p) (gp_votes_against p) vote_for weight
    \<and> (case try_increment_active_count c of
         None \<Rightarrow> io_anchor_vc_typed e rq issu subject h ty s = Err VCLimitReached
       | Some d \<Rightarrow> \<exists>s'. io_anchor_vc_typed e rq issu subject h ty s = Ok s' \<and> io_active_vc_count s' subject = Some d)"
proof -
  have free: "anchors_freely e issu s"
    using assms io_reachable_inv [OF assms(1)] by (simp add: anchors_freely_def io_inv_def)
  have c: "unat c = length (live (io_anchors s subject))"
    using free assms(2,7) by (simp add: anchors_freely_def io_creds_ok_def)
  note run = anchor_unlinked [OF free assms(6,8,9), of rq ty]
  have anchor: "case try_increment_active_count c of
         None \<Rightarrow> io_anchor_vc_typed e rq issu subject h ty s = Err VCLimitReached
       | Some d \<Rightarrow> \<exists>s'. io_anchor_vc_typed e rq issu subject h ty s = Ok s' \<and> io_active_vc_count s' subject = Some d"
  proof (cases "try_increment_active_count c")
    case None
    then have "\<not> unat c < 100" using try_increment_None [of c] by simp
    then show ?thesis using run c None by simp
  next
    case (Some d)
    then obtain s' where s': "io_anchor_vc_typed e rq issu subject h ty s = Ok s'"
      using run c by (auto simp: try_increment_Some)
    then obtain d' where d': "io_active_vc_count s' subject = Some d'" "unat d' = unat c + 1"
      using anchor_step [OF free assms(6) s'] assms(7) by auto
    moreover have "unat d = unat c + 1" using Some by (simp add: try_increment_Some)
    ultimately have "d' = d" by (simp only: word_unat_eq_iff)
    then show ?thesis using s' d'(1) Some by simp
  qed
  have "accumulate_tally (gp_votes_for p) (gp_votes_against p) vote_for weight
      = accumulate_vote (gp_votes_for p) (gp_votes_against p) vote_for weight"
    using assms(10) by (simp only: accumulate_vote_def accumulate_tally_def not_le [symmetric] if_False)
  with add_vote_accumulates anchor show ?thesis by (intro conjI)
qed

theorem fuzz_mirrors_faithful_witness:
  "\<exists>s'. io_anchor_vc_typed io_demo_env io_demo_query ''issuer'' ''bob'' [9] ''kyc'' io_demo_state = Ok s'
     \<and> io_active_vc_count s' ''bob'' = Some 2"
proof -
  have ok: "io_registry_id io_demo_state = None" "\<not> io_is_paused io_demo_state" "authorized io_demo_env ''issuer''"
    "io_trusted io_demo_state ''issuer''" "\<not> has_anchor ''issuer'' [9] (io_anchors io_demo_state ''bob'')"
    "io_active_vc_count io_demo_state ''bob'' = Some 1" "anchored_total io_demo_state + 1 < 2 ^ 64"
    "length (io_anchors io_demo_state ''bob'') < 2 ^ 31"
    by (simp_all add: io_demo_defs io_is_paused_def authorized_def io_trusted_def has_anchor_def io_anchors_def
        io_load_protocol_stats_def)
  have one: "0 < sint (1 :: i128)" by simp
  have "try_increment_active_count 1 = Some 2" by (simp add: try_increment_Some)
  then show ?thesis
    using fuzz_mirrors_faithful [OF io_demo_reachable ok one] by auto
qed

text \<open>The target that runs the contract, \<open>fuzz_anchor_vc_typed\<close>, tests nothing: it calls \<open>initialize\<close> before \<open>mock_all_auths\<close>, in an
  environment that authorises nobody, so it returns with the contract still new for every input. In an
  environment that authorises the admin the rest would run: it panics when \<open>Symbol::new\<close> rejects the
  fuzzed text, and otherwise the second subject ends with exactly the first hundred hashes, in
  order, and the hundred-and-first is refused with \<open>VCLimitReached\<close>.\<close>

theorem fuzz_anchor_contract_result:
  assumes "33 \<le> length data" and "lossy (take 32 (drop 32 data)) \<noteq> ''''" and "authorized e adm"
    and "subject \<noteq> limit_subject"
    and ct: "ct = lossy (take 32 (drop 32 data))"
    and run: "run = fuzz_anchor_contract e lossy symbol_new adm issu subject limit_subject data io_new"
  shows "fuzz_anchor_contract env_default lossy symbol_new adm issu subject limit_subject data io_new = (Ok (), io_new)
    \<and> (symbol_new ct = None \<longrightarrow> fst (run) = Trap)
    \<and> (\<forall>ty. symbol_new ct = Some ty \<longrightarrow>
        (\<exists>s. run = (Ok (), s)
           \<and> map vc_hash_of (io_anchors s limit_subject) = map test_hash (map of_nat [0..<100])
           \<and> io_anchor_vc_typed (mock_all_auths e) no_registry issu limit_subject (test_hash 101) ty s
               = Err VCLimitReached))"
proof -
  let ?e = "mock_all_auths e" and ?is = "map of_nat [0..<100] :: u8 list"
  have auth: "authorized ?e a" for a by (simp add: mock_all_auths_def authorized_def)
  obtain s1 where s1: "io_initialize e adm io_new = Ok s1" "io_admin s1 = Some adm"
      "s1 = io_new\<lparr>io_admin := Some adm, io_storage_version := Some 2, io_events := [IoInitialized adm]\<rparr>"
    using assms(3) by (simp add: io_initialize_def io_new_def io_publish_def)
  obtain s2 where s2: "io_register_issuer ?e issu s1 = Ok s2" "anchors_freely ?e issu s2"
      "io_anchors s2 limit_subject = []" "anchored_total s2 = 0"
    using s1 auth io_new_inv
    by (simp add: io_register_issuer_def io_require_admin_def Let_def io_publish_def anchors_freely_def io_inv_def
        io_creds_ok_def io_new_def io_anchors_def io_trusted_def io_is_paused_def io_load_protocol_stats_def
        io_default_stats_def)
  have dist: "distinct ?is" by (simp add: distinct_map inj_on_def word_unat_eq_iff unat_of_nat)
  have start: "fuzz_anchor_contract env_default lossy symbol_new adm issu subject limit_subject data io_new = (Ok (), io_new)"
    by (simp add: fuzz_anchor_contract_def env_default_def io_initialize_def io_new_def authorized_def Let_def)
  have ran: "\<exists>s. run = (Ok (), s)
       \<and> map vc_hash_of (io_anchors s limit_subject) = map test_hash ?is
       \<and> io_anchor_vc_typed ?e no_registry issu limit_subject (test_hash 101) ty s = Err VCLimitReached"
    if "symbol_new ct = Some ty" for ty
  proof -
    define s3 where "s3 = after_try (io_anchor_vc_typed ?e no_registry issu subject (take 32 data) ty s2) s2"
    define s4 where "s4 = anchor_loop ?e issu limit_subject ty ?is s3"
    have s3: "anchors_freely ?e issu s3" "io_anchors s3 limit_subject = []" "anchored_total s3 \<le> 1"
      using after_try_anchor [OF s2(2) assms(4) [symmetric] s3_def] s2(3,4) by simp_all
    have s4: "anchors_freely ?e issu s4" "anchored_total s4 \<le> 101"
        "io_anchors s4 limit_subject = map (\<lambda>i. new_record ?e issu (test_hash i)) ?is"
      using anchor_loop_fills [OF s3(1) dist, of limit_subject ty] s3(2,3) by (simp_all add: s4_def has_anchor_def)
    have hundred: "length (live (io_anchors s4 limit_subject)) = 100"
      "\<not> has_anchor issu (test_hash 101) (io_anchors s4 limit_subject)"
      unfolding s4(3)
      by (auto simp: has_anchor_def new_record_def test_hash_inj word_unat_eq_iff unat_of_nat filter_map comp_def)
    have last: "io_anchor_vc_typed ?e no_registry issu limit_subject (test_hash 101) ty s4 = Err VCLimitReached"
      using anchor_unlinked [OF s4(1) hundred(2), of no_registry ty] hundred(1) s4(2,3) by simp
    have "after_try (io_anchor_vc_typed ?e no_registry issu limit_subject (test_hash 101) ty s4) s4 = s4"
      by (simp add: last after_try_def)
    then have "run = (Ok (), s4)"
      using assms(1,2) s1(1) s2(1) that
      by (simp add: run ct fuzz_anchor_contract_def Let_def flip: s3_def s4_def)
    then show ?thesis using last s4(3) by (simp add: new_record_def comp_def)
  qed
  have "fst (run) = Trap" if "symbol_new ct = None"
    using assms(1,2) s1(1) s2(1) that by (simp add: run ct fuzz_anchor_contract_def Let_def)
  then show ?thesis using start ran by blast
qed

theorem fuzz_anchor_contract_result_witness:
  "\<exists>s. fuzz_anchor_contract (env_default\<lparr>signers := {''admin''}\<rparr>) (\<lambda>bs. ''kyc'') Some ''admin'' ''issuer''
         ''alice'' ''bob'' (replicate 40 7) io_new = (Ok (), s) \<and> length (io_anchors s ''bob'') = 100"
proof -
  have auth: "authorized (env_default\<lparr>signers := {''admin''}\<rparr>) ''admin''" by (simp add: authorized_def)
  obtain s where "fuzz_anchor_contract (env_default\<lparr>signers := {''admin''}\<rparr>) (\<lambda>bs. ''kyc'') Some ''admin'' ''issuer''
         ''alice'' ''bob'' (replicate 40 7) io_new = (Ok (), s)"
      "map vc_hash_of (io_anchors s ''bob'') = map test_hash (map of_nat [0..<100])"
    using fuzz_anchor_contract_result [OF _ _ auth _ refl refl, of "replicate 40 7" "\<lambda>bs. ''kyc''" "''alice''" "''bob''"
        Some "''issuer''"] by auto
  then show ?thesis by (metis length_map length_upt diff_zero)
qed

end
