(* ===== verification/Panics.thy ===== *)
theory Panics
  imports Credit_Oracle Governance
begin

text \<open>
  Which calls panic. A panic aborts the whole transaction, also that of a calling contract, and the caller
  sees no error code; so the panics of the entry points are stated exactly, for callers whose
  authorisation is not the question, in every state that an initialised contract can reach.
\<close>

section \<open>How a composed invocation panics\<close>

lemma outcome_bind_Trap [simp]:
  "outcome_bind m k = Trap \<longleftrightarrow> m = Trap \<or> (\<exists>x. m = Ok x \<and> k x = Trap)"
  by (cases m) auto

lemma expect_Trap [simp]: "expect v = Trap \<longleftrightarrow> v = None"
  by (cases v) auto

lemma ok_or_Trap [simp]: "ok_or v e \<noteq> Trap"
  by (cases v) auto

lemma checked_add_None: "checked_add x (y :: 'a::len word) = None \<longleftrightarrow> 2 ^ LENGTH('a) \<le> unat x + unat y"
  by (auto simp: checked_add_def)

section \<open>The credit-oracle\<close>

lemma co_local_Trap [simp]: "co_local f (s, w) = Trap \<longleftrightarrow> f s = Trap"
  by (simp add: co_local_def)

text \<open>The view of the linked identity-oracle fails on a call that \<open>compute_score\<close> needs.\<close>

definition co_view_fails :: "env \<Rightarrow> identity_view \<Rightarrow> co_state \<Rightarrow> address \<Rightarrow> bool" where
  "co_view_fails e iv s a \<longleftrightarrow>
     (\<exists>oid. co_identity_oracle_id s = Some oid \<and>
        (iv_is_deactivated iv oid a = None \<or>
         iv_is_deactivated iv oid a = Some False \<and> credential_inputs e iv s a = None))"

fun co_panic_case :: "env \<Rightarrow> identity_view \<Rightarrow> co_state \<Rightarrow> co_call \<Rightarrow> bool" where
  "co_panic_case e iv s (CoRecordRepaymentCall l a n b) =
     (0 < sint n \<and> \<not> co_is_paused s \<and> is_trusted_lender s l
      \<and> unat (total_repayments_recorded (co_load_protocol_stats s)) = 2 ^ 64 - 1)"
| "co_panic_case e iv s (CoMigrateCall as) = (\<exists>a \<in> set as. co_repayment s a \<noteq> None)"
| "co_panic_case e iv s (CoComputeScoreCall a) =
     (\<not> co_is_paused s \<and> check_compute_cooldown e a s = Ok ()
      \<and> (co_view_fails e iv s a \<or>
         \<not> is_deactivated_subject iv s a \<and> co_score s a = None
           \<and> unat (total_subjects_scored (co_load_protocol_stats s)) = 2 ^ 64 - 1))"
| "co_panic_case e iv s (CoProposeWeightsCall w) =
     (10 \<le> unat (vc_weight w) \<and> 10 \<le> unat (tx_weight w) \<and> 10 \<le> unat (repayment_weight w)
        \<and> 2 ^ 32 \<le> unat (vc_weight w) + unat (tx_weight w) + unat (repayment_weight w)
      \<or> weights_ok w \<and> 2 ^ 32 \<le> unat (ledger_sequence e) + 17280)"
| "co_panic_case e iv s (CoAcceptAdminCall n) = (co_pending_admin s = None)"
| "co_panic_case e iv s _ = False"

lemma unat_full: "2 ^ LENGTH('a) \<le> unat (x :: 'a::len word) + 1 \<longleftrightarrow> unat x = 2 ^ LENGTH('a) - 1"
  using unsigned_less [of x, where ?'a = nat] by linarith

lemma finish_score_Trap:
  assumes "co_config s \<noteq> None"
  shows "finish_score e a rep pts cnt s = Trap \<longleftrightarrow>
    co_score s a = None \<and> unat (total_subjects_scored (co_load_protocol_stats s)) = 2 ^ 64 - 1"
proof -
  have "increment_subjects_scored s = None \<longleftrightarrow> unat (total_subjects_scored (co_load_protocol_stats s)) = 2 ^ 64 - 1"
    using unat_full [of "total_subjects_scored (co_load_protocol_stats s)"]
    by (simp add: increment_subjects_scored_def checked_add_None Let_def)
  then show ?thesis
    using assms by (auto simp: finish_score_def Let_def split: option.splits if_splits)
qed

lemma migrate_loop_Panics:
  assumes "\<forall>a r. m a = Some r \<longrightarrow> (\<exists>v. r = StoredV2 v)"
  shows "migrate_loop as m = None \<longleftrightarrow> (\<exists>a \<in> set as. m a \<noteq> None)"
proof (induction as)
  case (Cons a as)
  show ?case
  proof (cases "m a")
    case None
    then show ?thesis using Cons by simp
  next
    case (Some r)
    then obtain v where "r = StoredV2 v" using assms by blast
    then show ?thesis using Some by simp
  qed
qed simp

lemma co_compute_score_Trap:
  assumes "co_config s \<noteq> None" and "load_repayment s a = Some rep"
  shows "co_compute_score e iv a s = Trap \<longleftrightarrow> co_panic_case e iv s (CoComputeScoreCall a)"
proof -
  have pc: "co_ensure_not_paused s \<noteq> Trap" "co_ensure_not_paused s = Ok u \<longleftrightarrow> \<not> co_is_paused s"
      "check_compute_cooldown e a s \<noteq> Trap" for u
    by (auto simp: co_ensure_not_paused_def co_is_paused_def check_compute_cooldown_def Let_def split: option.splits)
  show ?thesis
  proof (cases "co_identity_oracle_id s")
    case None
    then show ?thesis
      using assms pc
      by (auto simp: co_compute_score_def finish_score_Trap is_deactivated_subject_def co_view_fails_def Let_def
          split: prod.splits)
  next
    case (Some oid)
    let ?r = "if rd_enabled (load_recency_config s) then Some (load_recency_config s) else None"
    show ?thesis
    proof (cases "iv_is_deactivated iv oid a")
      case None
      then show ?thesis
        using assms pc Some by (auto simp: co_compute_score_def co_view_fails_def Let_def)
    next
      case (Some b)
      note linked = \<open>co_identity_oracle_id s = Some oid\<close> Some
      show ?thesis
      proof (cases b)
        case True
        then show ?thesis
          using assms pc linked
          by (auto simp: co_compute_score_def co_view_fails_def is_deactivated_subject_def Let_def)
      next
        case False
        then show ?thesis
          using assms pc linked
          by (auto simp: co_compute_score_def co_view_fails_def is_deactivated_subject_def credential_inputs_def
              finish_score_Trap Let_def split: option.splits prod.splits)
      qed
    qed
  qed
qed


lemma weights_panic:
  "\<forall>a. authorized e a \<Longrightarrow> co_admin s \<noteq> None \<Longrightarrow>
     co_propose_weights e w s = Trap \<longleftrightarrow> co_panic_case e iv s (CoProposeWeightsCall w)"
  by (auto simp: co_propose_weights_def is_valid_panics is_valid_iff co_require_stored_admin_def checked_add_None
      TIMELOCK_LEDGERS_def)

lemma co_exec_Trap:
  assumes inv: "co_inv s" and adm: "co_admin s = Some adm" and auth: "\<forall>a. authorized e a"
  shows "co_exec e iv probe c (s, w) = Trap \<longleftrightarrow> co_panic_case e iv s c"
proof -
  have cfg: "co_config s \<noteq> None" and ver: "co_storage_version s = Some 2"
    using inv adm by (auto simp: co_inv_def co_config_ok_def co_setup_ok_def)
  have v2: "\<forall>a r. co_repayment s a = Some r \<longrightarrow> (\<exists>v. r = StoredV2 v)"
  proof (intro allI impI)
    fix a r
    assume "co_repayment s a = Some r"
    then have "repayment_ok r" using inv by (auto simp: co_inv_def co_repayments_ok_def)
    then show "\<exists>v. r = StoredV2 v" by (cases r) (simp_all add: repayment_ok_def)
  qed
  have read: "\<exists>r. read_repayment_v2 s a = Some r" for a
    using v2 by (fastforce simp: read_repayment_v2_def split: option.splits stored_repayment.splits)
  have load: "\<exists>r. load_repayment s a = Some r" for a
    using read ver by (simp add: load_repayment_def)
  have effective: "co_pending_weights s = None \<longleftrightarrow> co_pending_effective s = None"
    using inv by (simp add: co_inv_def co_config_ok_def co_weights_ok_def)
  have pc: "co_ensure_not_paused s \<noteq> Trap" "co_ensure_not_paused s = Ok u \<longleftrightarrow> \<not> co_is_paused s" for u
    by (auto simp: co_ensure_not_paused_def co_is_paused_def)
  have named: "co_require_named_admin e a s \<noteq> Trap" "co_require_stored_admin e s \<noteq> Trap"
    "co_require_feeder e a s \<noteq> Trap" for a
    using adm auth pc by (auto simp: co_require_named_admin_def co_require_stored_admin_def co_require_feeder_def)
  show ?thesis
  proof (cases c)
    case (CoRecordRepaymentCall l a n b)
    obtain r where r: "read_repayment_v2 s a = Some r" using read by blast
    have "increment_repayments_recorded (s\<lparr>co_repayment := m\<rparr>) = None \<longleftrightarrow>
        unat (total_repayments_recorded (co_load_protocol_stats s)) = 2 ^ 64 - 1" for m
      using unat_full [of "total_repayments_recorded (co_load_protocol_stats s)"]
      by (simp add: increment_repayments_recorded_def checked_add_None Let_def co_load_protocol_stats_def)
    then show ?thesis
      using CoRecordRepaymentCall r ver auth pc by (auto simp: co_record_repayment_def not_le)
  next
    case (CoMigrateCall as)
    then show ?thesis using adm auth migrate_loop_Panics [OF v2] by (simp add: co_migrate_def)
  next
    case (CoComputeScoreCall a)
    obtain rep where "load_repayment s a = Some rep" using load by blast
    then show ?thesis
      using CoComputeScoreCall co_compute_score_Trap [OF cfg, of a rep e iv] by (simp add: case_prod_unfold)
  next
    case (CoProposeWeightsCall w)
    then show ?thesis using weights_panic [OF auth, of s w iv] adm by simp
  next
    case (CoSetIdentityOracleCall m i)
    then show ?thesis using named by (auto simp: co_set_identity_oracle_def split: option.splits)
  qed (use adm auth pc named effective in
      \<open>auto simp: co_initialize_def co_set_compute_cooldown_ledgers_def co_register_feeder_def co_deregister_feeder_def
        co_register_lender_def co_deregister_lender_def co_pause_def co_unpause_def co_update_tx_stats_def
        co_set_vc_count_def co_set_vc_type_weight_def co_set_recency_decay_def co_anchor_vc_def co_apply_weights_def
        co_propose_new_admin_def co_accept_admin_def co_upgrade_def co_flag_score_input_def co_resolve_dispute_def
        Let_def\<close>)
qed

section \<open>Governance\<close>

lemma gov_local_Trap [simp]: "gov_local f (s, w) = Trap \<longleftrightarrow> f s = Trap"
  by (simp add: gov_local_def)

text \<open>The proposal can be executed as far as governance itself is concerned.\<close>

definition gov_ripe :: "env \<Rightarrow> governance_proposal \<Rightarrow> bool" where
  "gov_ripe e p \<longleftrightarrow>
     unat (gp_expiry_ledger p) < unat (ledger_sequence e)
   \<and> min (unat (gp_expiry_ledger p) + unat (gp_execution_delay_ledgers p)) (2 ^ 32 - 1) < unat (ledger_sequence e)
   \<and> \<not> gp_executed p \<and> \<not> gp_cancelled p \<and> sint (gp_votes_against p) < sint (gp_votes_for p)"

fun gov_panic_case :: "env \<Rightarrow> 'w oracle_calls \<Rightarrow> gov_state \<Rightarrow> 'w \<Rightarrow> gov_call \<Rightarrow> bool" where
  "gov_panic_case e oc s w (GvCreateCall a x n d) =
     (10 \<le> unat (vc_weight x) \<and> 10 \<le> unat (tx_weight x) \<and> 10 \<le> unat (repayment_weight x)
        \<and> 2 ^ 32 \<le> unat (vc_weight x) + unat (tx_weight x) + unat (repayment_weight x)
      \<or> weights_ok x \<and> n \<noteq> 0 \<and>
         (2 ^ 32 \<le> unat (ledger_sequence e) + unat n
          \<or> is_ok (quorum_snapshot s) \<and> gv_next_proposal_id s = Some (- 1)))"
| "gov_panic_case e oc s w (GvExecuteCall i) =
     (\<exists>p oracle. gv_proposal s i = Some p \<and> gov_ripe e p \<and> gv_credit_oracle s = Some oracle \<and>
        (2 ^ 127 \<le> sint (gp_votes_for p) + sint (gp_votes_against p)
         \<or> sint (gp_quorum_required p) \<le> sint (gp_votes_for p) + sint (gp_votes_against p)
           \<and> \<not> is_ok (oc_propose oc (call_env e oracle) oracle (gp_proposed_weights p) w)))"
| "gov_panic_case e oc s w GvAcceptOracleAdminCall =
     (\<exists>oracle. gv_credit_oracle s = Some oracle \<and>
        \<not> is_ok (oc_accept oc (call_env e oracle) oracle (current_contract e) w))"
| "gov_panic_case e oc s w (GvRegisterVoterCall a v n) =
     (gv_admin s = Some a \<and> 0 < sint n \<and>
      2 ^ 127 \<le> sint (gov_get_total_registered_weight s) - sint (voter_weight_or_zero s v) + sint n)"
| "gov_panic_case e oc s w (GvUpdateVoterCall a v n) =
     (gv_admin s = Some a \<and> 0 \<le> sint n \<and>
      2 ^ 127 \<le> sint (gov_get_total_registered_weight s) - sint (voter_weight_or_zero s v) + sint n)"
| "gov_panic_case e oc s w _ = False"

lemma i128_checked_None:
  "i128_checked_add x y = None \<longleftrightarrow> \<not> i128_fits (sint x + sint y)"
  "i128_checked_sub x y = None \<longleftrightarrow> \<not> i128_fits (sint x - sint y)"
  by (simp_all add: i128_checked_add_def i128_checked_sub_def)

lemma sint_i128: "- (2 ^ 127) \<le> sint (x :: i128)" "sint (x :: i128) < 2 ^ 127"
  using sint_greater_eq [of x] sint_less [of x] by simp_all

lemma voter_weight_bounds:
  assumes "gov_voters_ok s"
  shows "0 \<le> sint (voter_weight_or_zero s v)"
    and "sint (voter_weight_or_zero s v) \<le> sint (gov_get_total_registered_weight s)"
proof -
  have fin: "finite (dom (gv_voter_weight s))"
    and pos: "\<And>v x. gv_voter_weight s v = Some x \<Longrightarrow> 0 < sint x"
    and total: "sint (gov_get_total_registered_weight s) = map_total sint (gv_voter_weight s)"
    using assms by (auto simp: gov_voters_ok_def)
  have entry: "sint (voter_weight_or_zero s v) = entry_of sint (gv_voter_weight s v)"
    by (cases "gv_voter_weight s v") (simp_all add: voter_weight_or_zero_def)
  show "0 \<le> sint (voter_weight_or_zero s v)"
    using pos [of v] by (cases "gv_voter_weight s v") (simp_all add: voter_weight_or_zero_def less_imp_le)
  have "0 \<le> (\<Sum>j\<in>dom (gv_voter_weight s) - {v}. sint (the (gv_voter_weight s j)))"
    using pos by (intro sum_nonneg) (force intro: less_imp_le)
  then show "sint (voter_weight_or_zero s v) \<le> sint (gov_get_total_registered_weight s)"
    using map_total_split [OF fin, of sint v] total entry by simp
qed

lemma adjusted_total_None:
  assumes "gov_voters_ok s" and "0 \<le> sint n"
  shows "adjusted_total s (voter_weight_or_zero s v) n = None \<longleftrightarrow>
    2 ^ 127 \<le> sint (gov_get_total_registered_weight s) - sint (voter_weight_or_zero s v) + sint n"
proof -
  note b = voter_weight_bounds [OF assms(1), of v] sint_i128 [of "gov_get_total_registered_weight s"]
  obtain d where d: "i128_checked_sub (gov_get_total_registered_weight s) (voter_weight_or_zero s v) = Some d"
      "sint d = sint (gov_get_total_registered_weight s) - sint (voter_weight_or_zero s v)"
  proof (rule i128_checked_sub_fits)
    show "i128_fits (sint (gov_get_total_registered_weight s) - sint (voter_weight_or_zero s v))"
      unfolding i128_fits_def using b by linarith
  qed
  have "i128_fits (sint d + sint n) \<longleftrightarrow> sint d + sint n < 2 ^ 127"
    unfolding i128_fits_def using b assms(2) d(2) by linarith
  then show ?thesis
    using d by (auto simp: adjusted_total_def i128_checked_None)
qed

lemma client_invoke_None: "client_invoke call w = None \<longleftrightarrow> \<not> is_ok (call w)"
  by (cases "call w") (simp_all add: client_invoke_def)

lemma gov_vote_Trap:
  assumes inv: "gov_inv s" and auth: "\<forall>a. authorized e a"
  shows "gov_vote e v i b n s \<noteq> Trap"
proof -
  have used: "0 \<le> sint (gov_get_vote_weight_used s i v)"
    using inv gov_used_nonneg by (simp add: gov_inv_def)
  have total: "0 < sint x" if "gv_voter_weight s v = Some x" for x
    using inv that by (auto simp: gov_inv_def gov_voters_ok_def)
  have sub: "\<exists>d. i128_checked_sub x (gov_get_vote_weight_used s i v) = Some d
      \<and> sint d = sint x - sint (gov_get_vote_weight_used s i v)" if "gv_voter_weight s v = Some x" for x
    using total [OF that] used sint_i128 [of x] sint_i128 [of "gov_get_vote_weight_used s i v"]
      i128_checked_sub_fits [of x "gov_get_vote_weight_used s i v"] by (auto simp: i128_fits_def)
  have add: "i128_checked_add (gov_get_vote_weight_used s i v) n \<noteq> None"
    if "gv_voter_weight s v = Some x" "sint n \<le> sint x - sint (gov_get_vote_weight_used s i v)" "0 < sint n" for x
    using that used sint_i128 [of x] by (auto simp: i128_checked_None i128_fits_def)
  have add_vote: "add_vote b n p \<noteq> Trap" for p by (simp add: add_vote_def)
  show ?thesis
  proof
    assume trap: "gov_vote e v i b n s = Trap"
    then have pos: "0 < sint n" using auth by (auto simp: gov_vote_def split: if_splits)
    obtain x where x: "gv_voter_weight s v = Some x"
      using trap auth pos by (cases "gv_voter_weight s v") (simp_all add: gov_vote_def)
    obtain d where d: "i128_checked_sub x (gov_get_vote_weight_used s i v) = Some d"
        "sint d = sint x - sint (gov_get_vote_weight_used s i v)"
      using sub [OF x] by blast
    have "\<not> sint d < sint n \<and> i128_checked_add (gov_get_vote_weight_used s i v) n = None"
      using trap auth pos x d(1) add_vote by (auto simp: gov_vote_def Let_def split: if_splits)
    then show False using add [OF x _ pos] d(2) by simp
  qed
qed

lemma gov_create_Trap:
  assumes inv: "gov_inv s" and auth: "\<forall>a. authorized e a"
  shows "gov_create_proposal e a x n d s = Trap \<longleftrightarrow> gov_panic_case e oc s w (GvCreateCall a x n d)"
proof -
  obtain m where m: "gv_next_proposal_id s = Some m" using inv by (auto simp: gov_inv_def gov_ids_ok_def)
  have last: "2 ^ 64 \<le> unat m + 1 \<longleftrightarrow> m = - 1"
    using unat_full [of m] by (simp add: word_unat_eq_iff unat_max_word)
  have quorum: "quorum_snapshot s \<noteq> Trap" by (simp add: quorum_snapshot_def split: option.splits)
  show ?thesis
    using auth m last quorum
    by (auto simp: gov_create_proposal_def is_valid_panics is_valid_iff checked_add_None is_ok_iff Let_def)
qed

lemma gov_execute_Trap:
  assumes inv: "gov_inv s"
  shows "gov_execute e (oc_propose oc) i (s, w) = Trap \<longleftrightarrow> gov_panic_case e oc s w (GvExecuteCall i)"
proof (cases "gv_proposal s i")
  case None
  then show ?thesis by (simp add: gov_execute_def)
next
  case (Some p)
  obtain oid where orc: "gv_credit_oracle s = Some oid" using inv by (auto simp: gov_inv_def gov_config_ok_def)
  have "proposal_ok s i p" using inv Some by (simp add: gov_inv_def gov_proposals_ok_def)
  then have tallies: "0 \<le> sint (gp_votes_for p)" "0 \<le> sint (gp_votes_against p)" by (simp_all add: proposal_ok_def)
  have ripe: "gov_ripe e p \<longleftrightarrow> \<not> ledger_sequence e \<le> gp_expiry_ledger p
      \<and> \<not> ledger_sequence e \<le> saturating_add (gp_expiry_ledger p) (gp_execution_delay_ledgers p)
      \<and> \<not> gp_executed p \<and> \<not> gp_cancelled p \<and> \<not> sint (gp_votes_for p) \<le> sint (gp_votes_against p)"
    by (auto simp: gov_ripe_def word_le_nat_alt unat_saturating_add)
  show ?thesis
  proof (cases "gov_ripe e p")
    case False
    then show ?thesis using Some ripe by (auto simp: gov_execute_def)
  next
    case True
    show ?thesis
    proof (cases "sint (gp_votes_for p) + sint (gp_votes_against p) < 2 ^ 127")
      case False
      then have "i128_checked_add (gp_votes_for p) (gp_votes_against p) = None"
        by (simp add: i128_checked_None i128_fits_def)
      then show ?thesis using Some True False ripe orc by (simp add: gov_execute_def)
    next
      case sum: True
      then obtain c where c: "i128_checked_add (gp_votes_for p) (gp_votes_against p) = Some c"
          "sint c = sint (gp_votes_for p) + sint (gp_votes_against p)"
        using tallies by (auto simp: i128_fits_def elim!: i128_checked_add_fits [rotated])
      then show ?thesis
        using Some True sum ripe orc by (auto simp: gov_execute_def client_invoke_None)
    qed
  qed
qed

lemma gov_exec_Trap:
  assumes inv: "gov_inv s" and auth: "\<forall>a. authorized e a"
  shows "gov_exec e oc c (s, w) = Trap \<longleftrightarrow> gov_panic_case e oc s w c"
proof -
  obtain adm oid where adm: "gv_admin s = Some adm" "gv_credit_oracle s = Some oid"
    using inv by (auto simp: gov_inv_def gov_config_ok_def)
  have voters: "gov_voters_ok s" using inv by (simp add: gov_inv_def)
  have guard: "gov_require_admin e a s \<noteq> Trap" for a using auth by (simp add: gov_require_admin_def)
  show ?thesis
  proof (cases c)
    case (GvCreateCall a x n d)
    then show ?thesis using gov_create_Trap [OF inv auth, of a x n d oc w] by (simp add: case_prod_unfold)
  next
    case (GvVoteCall v i b n)
    then show ?thesis using gov_vote_Trap [OF inv auth] by simp
  next
    case (GvExecuteCall i)
    then show ?thesis using gov_execute_Trap [OF inv] by simp
  next
    case GvApplyWeightsCall
    then show ?thesis
      using adm by (simp add: gov_apply_weights_def split: outcome.split credit_error.split)
  next
    case GvAcceptOracleAdminCall
    then show ?thesis using adm auth by (simp add: gov_accept_oracle_admin_def client_invoke_None)
  next
    case (GvRegisterVoterCall a v n)
    then show ?thesis
      using adm auth adjusted_total_None [OF voters, of n v] by (auto simp: gov_register_voter_def)
  next
    case (GvUpdateVoterCall a v n)
    then show ?thesis
      using adm auth adjusted_total_None [OF voters, of n v] by (auto simp: gov_update_voter_weight_def)
  next
    case (GvDeregisterVoterCall a v)
    have "i128_checked_sub (gov_get_total_registered_weight s) (voter_weight_or_zero s v) \<noteq> None"
      unfolding i128_checked_None i128_fits_def
      using voter_weight_bounds [OF voters, of v] sint_i128 [of "gov_get_total_registered_weight s"] by linarith
    then show ?thesis using GvDeregisterVoterCall guard by (simp add: gov_deregister_voter_def)
  qed (use adm auth guard in
      \<open>auto simp: gov_initialize_def gov_set_quorum_def gov_set_quorum_percent_def gov_cleanup_proposal_votes_def
        gov_cancel_proposal_def\<close>)
qed

section \<open>Properties\<close>

text \<open>C15: The credit-oracle panics in the named cases and in no other: once it is initialised, and whatever was
  called before, a call whose addresses all signed traps exactly when a counter is full (repayments,
  scored subjects), the weights or the timelock overflow 32 bits, the linked identity-oracle fails
  during \<open>compute_score\<close>, \<open>migrate\<close> is given a subject that has a record, or \<open>accept_admin\<close> is called with
  no proposal pending. Every other failure is a typed error; no stored record is ever read in the wrong layout.\<close>

theorem co_panics_exactly:
  assumes "co_reachable (s, w)" and "co_admin s \<noteq> None" and "\<forall>a. authorized e a"
  shows "co_exec e iv probe c (s, w) = Trap \<longleftrightarrow> co_panic_case e iv s c"
  using co_exec_Trap [of s _ e iv probe c w] co_reachable_inv [OF assms(1)] assms(2,3) by auto

theorem co_panics_exactly_witness:
  "co_exec (co_demo_env\<lparr>signers := UNIV\<rparr>) co_demo_view co_demo_probe (CoAcceptAdminCall ''admin'') (co_demo_state, ()) = Trap
   \<and> co_exec (co_demo_env\<lparr>signers := UNIV\<rparr>) co_demo_view co_demo_probe (CoComputeScoreCall ''bob'') (co_demo_state, ()) \<noteq> Trap"
proof -
  have auth: "\<forall>a. authorized (co_demo_env\<lparr>signers := UNIV\<rparr>) a" by (simp add: authorized_def)
  have adm: "co_admin co_demo_state \<noteq> None" by (simp add: co_demo_state_def)
  show ?thesis
    unfolding co_panics_exactly [OF co_demo_reachable adm auth]
    by (simp add: co_demo_defs co_view_fails_def co_load_protocol_stats_def co_default_stats_def)
qed

text \<open>C16: Governance panics in the named cases and in no other: after initialisation, for callers that signed, a call
  traps exactly when proposed weights, an expiry or the proposal ids overflow, a registration would take
  the registered total to 2^127, or in \<open>execute\<close> and \<open>accept_oracle_admin\<close> when the credit-oracle refuses
  the call or the two tallies of a ripe proposal sum to 2^127. Voting, cancelling, cleaning up, applying
  weights and deregistering never panic.\<close>

theorem gov_panics_exactly:
  assumes "gov_reachable (s, w)" and "\<forall>a. authorized e a"
  shows "gov_exec e oc c (s, w) = Trap \<longleftrightarrow> gov_panic_case e oc s w c"
  using gov_exec_Trap [of s e oc c w] gov_reachable_inv [OF assms(1)] assms(2) by simp

theorem gov_panics_exactly_witness:
  "gov_exec ((gov_demo_env 1000)\<lparr>signers := UNIV\<rparr>) gov_demo_calls
       (GvRegisterVoterCall ''admin'' ''carol'' (word_of_int (2 ^ 127 - 1))) (gov_demo_state, ()) = Trap
   \<and> gov_exec ((gov_demo_env 1000)\<lparr>signers := UNIV\<rparr>) gov_demo_calls (GvVoteCall ''alice'' 1 True 1) (gov_demo_state, ())
       \<noteq> Trap"
proof -
  have auth: "\<forall>a. authorized ((gov_demo_env 1000)\<lparr>signers := UNIV\<rparr>) a" by (simp add: authorized_def)
  show ?thesis
    unfolding gov_panics_exactly [OF gov_demo_reachable auth]
    by (simp add: gov_demo_defs voter_weight_or_zero_def gov_get_total_registered_weight_def)
qed

end
