(* ===== verification/Conformance.thy ===== *)
theory Conformance
  imports System
begin

text \<open>
  What the unit tests of the contracts are run on: a deployment of all four contracts in one world, a host whose
  ledger the test advances and whose signatures it mocks, and the steps a test is made of. The tests themselves
  are in the theories \<open>Conformance_*\<close>, one definition per test function.
  An address of \<open>Address::generate\<close> is a name of its own; time to live is not modelled, so the
  tests' \<open>extend_ttl\<close> calls and their assertions on lifetimes and on CPU cost have no step.
\<close>

section \<open>Steps of a test\<close>

text \<open>
  A call through the client (which panics unless it succeeds), a \<open>try_\<close> call that must be rejected
  with an error of the contract, one that must not succeed (\<open>is_err\<close>), the signatures available from here
  on, the ledger and the clock moving on, the clock set, an assertion on what the queries answer, one on the
  states before and after the last call (the events it published), and a write to storage (\<open>as_contract\<close>).
\<close>

datatype ('c, 'e, 'w) step =
    Call 'c | Refused 'c 'e | Fails 'c
  | Signed "address set" | Ledgers u32 | Seconds u64 | Clock u64
  | Check "env \<Rightarrow> 'w \<Rightarrow> bool" | Emitted "'w \<Rightarrow> 'w \<Rightarrow> bool" | Write "'w \<Rightarrow> 'w"

text \<open>\<open>x\<close> runs a call; \<open>u\<close> is the state before the last call and \<open>w\<close> the state now.\<close>

fun run_steps :: "(env \<Rightarrow> 'c \<Rightarrow> 'w \<Rightarrow> ('e, 'w) outcome) \<Rightarrow> env \<Rightarrow> 'w \<Rightarrow> 'w \<Rightarrow> ('c, 'e, 'w) step list \<Rightarrow> bool"
  where
  "run_steps x e u w [] = True"
| "run_steps x e u w (Call c # ss) =
     (case x e c w of Ok w' \<Rightarrow> run_steps x e w w' ss | Err _ \<Rightarrow> False | Trap \<Rightarrow> False)"
| "run_steps x e u w (Refused c err # ss) =
     (case x e c w of Ok _ \<Rightarrow> False | Err er \<Rightarrow> er = err \<and> run_steps x e w w ss | Trap \<Rightarrow> False)"
| "run_steps x e u w (Fails c # ss) =
     (case x e c w of Ok _ \<Rightarrow> False | Err _ \<Rightarrow> run_steps x e w w ss | Trap \<Rightarrow> run_steps x e w w ss)"
| "run_steps x e u w (Signed as # ss) = run_steps x (e\<lparr>signers := as\<rparr>) u w ss"
| "run_steps x e u w (Ledgers n # ss) = run_steps x (e\<lparr>ledger_sequence := ledger_sequence e + n\<rparr>) u w ss"
| "run_steps x e u w (Seconds n # ss) = run_steps x (e\<lparr>ledger_timestamp := ledger_timestamp e + n\<rparr>) u w ss"
| "run_steps x e u w (Clock n # ss) = run_steps x (e\<lparr>ledger_timestamp := n\<rparr>) u w ss"
| "run_steps x e u w (Check p # ss) = (p e w \<and> run_steps x e u w ss)"
| "run_steps x e u w (Emitted p # ss) = (p u w \<and> run_steps x e u w ss)"
| "run_steps x e u w (Write f # ss) = run_steps x e w (f w) ss"

text \<open>The strkeys of a contract and of an account, told apart by one letter.\<close>

definition contract_address :: "char \<Rightarrow> address" where
  "contract_address c = CHR ''C'' # replicate 55 c"

definition account_address :: "char \<Rightarrow> address" where
  "account_address c = CHR ''G'' # replicate 55 c"

lemma contract_address_eq [simp]: "contract_address a = contract_address b \<longleftrightarrow> a = b"
  by (simp add: contract_address_def)

lemma account_address_eq [simp]: "account_address a = account_address b \<longleftrightarrow> a = b"
  "account_address a \<noteq> contract_address b" "contract_address b \<noteq> account_address a"
  by (simp_all add: contract_address_def account_address_def)

lemma other_address [simp]:
  "length n \<noteq> 56 \<Longrightarrow> contract_address c \<noteq> n" "length n \<noteq> 56 \<Longrightarrow> n \<noteq> contract_address c"
  by (auto simp: contract_address_def)

lemma is_contract_address [simp]:
  "is_contract_address (contract_address c)" "\<not> is_contract_address (account_address c)"
  by (simp_all add: is_contract_address_def contract_address_def account_address_def)

definition test_deployment :: deployment where
  "test_deployment = \<lparr>dp_registry = contract_address CHR ''r'', dp_identity = contract_address CHR ''i'',
     dp_credit = contract_address CHR ''c'', dp_governance = contract_address CHR ''g''\<rparr>"

text \<open>\<open>Env::default()\<close> with \<open>mock_all_auths()\<close>: ledger and clock at zero, every signature given.\<close>

definition test_env :: env where
  "test_env = \<lparr>ledger_sequence = 0, ledger_timestamp = 0, signers = UNIV, invoker = None,
     current_contract = '''', call_stack = []\<rparr>"

type_synonym sys_step = "(sys_call, sys_error, world) step"

definition passes :: "sys_step list \<Rightarrow> bool" where
  "passes ss = run_steps (sys_exec test_deployment) test_env world_new world_new ss"

definition weights :: "u32 \<Rightarrow> u32 \<Rightarrow> u32 \<Rightarrow> scoring_weights" where
  "weights a b c = \<lparr>vc_weight = a, tx_weight = b, repayment_weight = c\<rparr>"

text \<open>\<open>[b; 32]\<close>, and the array whose first byte is \<open>b\<close> and the others zero.\<close>

definition filled :: "8 word \<Rightarrow> vc_hash" where
  "filled b = replicate 32 b"

definition numbered :: "8 word \<Rightarrow> vc_hash" where
  "numbered b = b # replicate 31 0"

lemma filled_eq [simp]: "filled a = filled b \<longleftrightarrow> a = b"
  by (simp add: filled_def)

lemma numbered_eq [simp]: "numbered a = numbered b \<longleftrightarrow> a = b"
  by (simp add: numbered_def)

section \<open>Running the steps\<close>

text \<open>The definitions the steps unfold to, and each contract's operations.\<close>

lemmas run_defs = passes_def test_deployment_def test_env_def world_new_def weights_def invoked_at_def
  authorized_def ok_or_def expect_def Let_def

lemmas registry_defs = rr_new_def rr_local_def rr_publish_def rr_require_admin_def rr_ensure_not_paused_def
  rr_enter_guard_def rr_exit_guard_def rr_initialize_def rr_pause_def rr_unpause_def rr_is_paused_def
  rr_get_batch_limit_def rr_set_batch_limit_def rr_set_identity_oracle_def rr_propose_new_admin_def
  rr_accept_admin_def rr_maintain_storage_def rr_claim_def rr_mark_def rr_notify_oracle_def
  rr_append_revoked_def rr_revoke_def rr_batch_revoke_def rr_is_revoked_def rr_get_revocation_count_def
  rr_list_revoked_for_issuer_def rr_list_revoked_def MAX_BATCH_SIZE_def

lemmas governance_defs = gov_new_def gov_local_def gov_publish_def gov_initialize_def gov_require_admin_def
  gov_get_total_registered_weight_def gov_set_quorum_percent_def gov_get_quorum_percent_def
  quorum_snapshot_def gov_create_proposal_def gov_get_vote_weight_used_def add_vote_def gov_vote_def
  gov_execute_def gov_cancel_proposal_def gov_apply_weights_def gov_accept_oracle_admin_def
  voter_weight_or_zero_def adjusted_total_def gov_register_voter_def gov_update_voter_weight_def
  gov_deregister_voter_def gov_get_proposal_def gov_get_voter_weight_def gov_get_available_vote_weight_def
  FIRST_PROPOSAL_ID_def i128_checked_add_def i128_checked_sub_def i128_checked_mul_def i128_fits_def i128_div_def
  is_valid_def MIN_COMPONENT_WEIGHT_def checked_add_def saturating_add_def client_invoke_def client_apply_weights_def
  pr_oracle_calls_def pr_accept_def pr_propose_def pr_apply_def

lemmas credit_admin_defs = co_new_def co_local_def co_publish_def co_initialize_def co_guard_defs
  co_propose_new_admin_def co_accept_admin_def co_propose_weights_def co_apply_weights_def
  co_get_scoring_weights_def co_get_pending_weights_def default_weights_def TIMELOCK_LEDGERS_def
  DEFAULT_COMPUTE_COOLDOWN_LEDGERS_def

end
