(* ===== verification/Conformance_Registry.thy ===== *)
theory Conformance_Registry
  imports Conformance
begin

text \<open>
  The tests of \<open>contracts/revocation-registry/src/lib.rs\<close>, each a bool that is true when the test passes on
  the model; the two property tests take their random input as an argument. \<open>test_exit_guard_releases_lock\<close> is
  left out: it writes the lock to instance storage, which the guard does not read (it is kept in temporary storage).
\<close>

abbreviation reg :: "rr_call \<Rightarrow> sys_call" where "reg \<equiv> ToRegistry"

text \<open>The events of the last call.\<close>

definition rr_emits :: "rr_event list \<Rightarrow> sys_step" where
  "rr_emits evs = Emitted (\<lambda>u w. drop (length (rr_events (wd_registry u))) (rr_events (wd_registry w)) = evs)"

definition rr_check :: "(rr_state \<Rightarrow> bool) \<Rightarrow> sys_step" where
  "rr_check p = Check (\<lambda>e w. p (wd_registry w))"

section \<open>Administration\<close>

definition test_set_batch_limit_and_enforce :: bool where
  "test_set_batch_limit_and_enforce \<longleftrightarrow> passes
     [Call (reg (RrInitializeCall ''admin'')),
      rr_check (\<lambda>s. rr_get_batch_limit s = 100),
      Call (reg (RrSetBatchLimitCall ''admin'' 5)),
      rr_check (\<lambda>s. rr_get_batch_limit s = 5),
      Refused (reg (RrBatchRevokeCall ''issuer'' (map numbered [0, 1, 2, 3, 4, 5]))) (FromRegistry BatchTooLarge)]"

definition test_set_batch_limit_rejects_invalid :: bool where
  "test_set_batch_limit_rejects_invalid \<longleftrightarrow> passes
     [Call (reg (RrInitializeCall ''admin'')),
      Refused (reg (RrSetBatchLimitCall ''admin'' 0)) (FromRegistry InvalidBatchLimit),
      Refused (reg (RrSetBatchLimitCall ''admin'' 101)) (FromRegistry InvalidBatchLimit)]"

definition set_identity_oracle_event :: bool where
  "set_identity_oracle_event \<longleftrightarrow> passes
     [Call (reg (RrInitializeCall ''admin'')),
      Call (reg (RrSetIdentityOracleCall (dp_identity test_deployment))),
      rr_emits [IdOSet (dp_identity test_deployment)]]"

definition test_admin_transfer_two_step :: bool where
  "test_admin_transfer_two_step \<longleftrightarrow> passes
     [Call (reg (RrInitializeCall ''admin1'')),
      Call (reg (RrProposeAdminCall ''admin2'')),
      Call (reg (RrAcceptAdminCall ''admin2'')),
      Call (reg (RrProposeAdminCall ''admin3''))]"

definition test_non_pending_admin_cannot_accept :: bool where
  "test_non_pending_admin_cannot_accept \<longleftrightarrow> passes
     [Call (reg (RrInitializeCall ''admin1'')),
      Call (reg (RrProposeAdminCall ''admin2'')),
      Refused (reg (RrAcceptAdminCall ''non_admin'')) (FromRegistry RrNotAuthorized)]"

definition test_pause_and_unpause :: bool where
  "test_pause_and_unpause \<longleftrightarrow> passes
     [rr_check (\<lambda>s. \<not> rr_is_paused s),
      Call (reg (RrInitializeCall ''admin'')),
      rr_check (\<lambda>s. \<not> rr_is_paused s),
      Call (reg RrPauseCall),
      rr_check rr_is_paused,
      Refused (reg (RrSetBatchLimitCall ''admin'' 10)) (FromRegistry RrContractPaused),
      Call (reg RrUnpauseCall),
      rr_check (\<lambda>s. \<not> rr_is_paused s),
      Call (reg (RrSetBatchLimitCall ''admin'' 10))]"

definition test_pause_requires_admin_auth :: bool where
  "test_pause_requires_admin_auth \<longleftrightarrow> passes
     [Call (reg (RrInitializeCall ''admin'')),
      Signed {},
      Fails (reg RrPauseCall),
      Fails (reg RrUnpauseCall)]"

definition test_maintain_storage_succeeds_for_admin :: bool where
  "test_maintain_storage_succeeds_for_admin \<longleftrightarrow> passes
     [Call (reg (RrInitializeCall ''admin'')), Call (reg RrMaintainCall)]"

definition test_maintain_storage_fails_for_non_admin :: bool where
  "test_maintain_storage_fails_for_non_admin \<longleftrightarrow> passes
     [Call (reg (RrInitializeCall ''admin'')), Signed {}, Fails (reg RrMaintainCall)]"

definition test_initialize_already_initialized :: bool where
  "test_initialize_already_initialized \<longleftrightarrow> passes
     [Call (reg (RrInitializeCall ''admin'')),
      Refused (reg (RrInitializeCall ''admin2'')) (FromRegistry RrAlreadyInitialized)]"

section \<open>Revoking\<close>

definition test_revoke_and_check :: bool where
  "test_revoke_and_check \<longleftrightarrow> passes
     [rr_check (\<lambda>s. \<not> rr_is_revoked s (filled 1)),
      Call (reg (RrRevokeCall ''issuer'' ''subject'' (filled 1))),
      rr_check (\<lambda>s. rr_is_revoked s (filled 1))]"

definition test_unknown_hash_not_revoked :: bool where
  "test_unknown_hash_not_revoked \<longleftrightarrow> passes
     [Signed {}, rr_check (\<lambda>s. \<not> rr_is_revoked s (filled 2))]"

definition test_only_registered_issuer_can_revoke :: bool where
  "test_only_registered_issuer_can_revoke \<longleftrightarrow> passes
     [Call (reg (RrRevokeCall ''issuer_a'' ''subject'' (filled 3))),
      Call (reg (RrRevokeCall ''issuer_a'' ''subject'' (filled 3))),
      Refused (reg (RrRevokeCall ''issuer_b'' ''subject'' (filled 3))) (FromRegistry IssuerMismatch)]"

definition test_batch_revoke_five_hashes :: bool where
  "test_batch_revoke_five_hashes \<longleftrightarrow> passes
     [Call (reg (RrBatchRevokeCall ''issuer'' (map numbered [0, 1, 2, 3, 4]))),
      rr_check (\<lambda>s. list_all (rr_is_revoked s) (map numbered [0, 1, 2, 3, 4]))]"

definition batch_revoke_events :: bool where
  "batch_revoke_events \<longleftrightarrow> passes
     [Call (reg (RrInitializeCall ''admin'')),
      Call (reg (RrBatchRevokeCall ''issuer'' (map numbered [1, 2, 3]))),
      rr_emits [Revoked ''issuer'' (numbered 1), Revoked ''issuer'' (numbered 2), Revoked ''issuer'' (numbered 3),
        BatchRev ''issuer'' 3]]"

definition test_batch_revoke_exceeds_limit :: bool where
  "test_batch_revoke_exceeds_limit \<longleftrightarrow> passes
     [Refused (reg (RrBatchRevokeCall ''issuer''
          (map (\<lambda>i. of_nat (i mod 256) # of_nat (i div 256) # replicate 30 0) [0..<101])))
        (FromRegistry BatchTooLarge)]"

definition proptest_batch_revoke_all_marked :: "vc_hash list \<Rightarrow> bool" where
  "proptest_batch_revoke_all_marked hs \<longleftrightarrow> passes
     [Call (reg (RrBatchRevokeCall ''issuer'' hs)),
      rr_check (\<lambda>s. list_all (rr_is_revoked s) hs)]"

definition proptest_is_revoked_idempotent :: "vc_hash \<Rightarrow> bool" where
  "proptest_is_revoked_idempotent h \<longleftrightarrow> passes
     [Call (reg (RrRevokeCall ''issuer'' ''subject'' h)),
      rr_check (\<lambda>s. rr_is_revoked s h),
      Call (reg (RrRevokeCall ''issuer'' ''subject'' h)),
      rr_check (\<lambda>s. rr_is_revoked s h)]"

definition test_sequential_revokes_succeed :: bool where
  "test_sequential_revokes_succeed \<longleftrightarrow> passes (concat (map
     (\<lambda>i. [Call (reg (RrRevokeCall ''issuer'' ''subject'' (filled i))), rr_check (\<lambda>s. rr_is_revoked s (filled i))])
     [0, 1, 2, 3]))"

section \<open>Listing\<close>

definition test_get_revocation_count_and_list_revoked_single_and_batch :: bool where
  "test_get_revocation_count_and_list_revoked_single_and_batch \<longleftrightarrow> passes
     [rr_check (\<lambda>s. rr_get_revocation_count s ''issuer'' = 0),
      rr_check (\<lambda>s. rr_list_revoked s ''issuer'' 0 10 = Some []),
      Call (reg (RrRevokeCall ''issuer'' ''subject'' (filled 10))),
      rr_check (\<lambda>s. rr_get_revocation_count s ''issuer'' = 1),
      rr_check (\<lambda>s. rr_list_revoked s ''issuer'' 0 10 = Some [filled 10]),
      Call (reg (RrBatchRevokeCall ''issuer'' [filled 20, filled 30, filled 40])),
      rr_check (\<lambda>s. rr_get_revocation_count s ''issuer'' = 4),
      rr_check (\<lambda>s. rr_list_revoked s ''issuer'' 0 2 = Some [filled 10, filled 20]),
      rr_check (\<lambda>s. rr_list_revoked s ''issuer'' 2 2 = Some [filled 30, filled 40]),
      rr_check (\<lambda>s. rr_list_revoked s ''issuer'' 4 2 = Some []),
      rr_check (\<lambda>s. rr_list_revoked s ''issuer'' 0 0 = Some []),
      rr_check (\<lambda>s. rr_list_revoked_for_issuer s ''issuer'' = [filled 10, filled 20, filled 30, filled 40])]"

definition test_list_revoked_pagination_edge_cases :: bool where
  "test_list_revoked_pagination_edge_cases \<longleftrightarrow> passes
     [rr_check (\<lambda>s. rr_list_revoked s ''issuer'' 0 10 = Some []),
      Call (reg (RrRevokeCall ''issuer'' ''subject'' (filled 10))),
      Call (reg (RrRevokeCall ''issuer'' ''subject'' (filled 20))),
      Call (reg (RrRevokeCall ''issuer'' ''subject'' (filled 30))),
      rr_check (\<lambda>s. rr_list_revoked s ''issuer'' 3 10 = Some []),
      rr_check (\<lambda>s. rr_list_revoked s ''issuer'' 4 10 = Some []),
      rr_check (\<lambda>s. rr_list_revoked s ''issuer'' 0 0 = Some []),
      rr_check (\<lambda>s. rr_list_revoked s ''issuer'' 2 10 = Some [filled 30])]"

definition test_list_revoked_for_issuer :: bool where
  "test_list_revoked_for_issuer \<longleftrightarrow> passes
     [rr_check (\<lambda>s. rr_list_revoked_for_issuer s ''issuer'' = []),
      Call (reg (RrRevokeCall ''issuer'' ''subject'' (filled 1))),
      Call (reg (RrBatchRevokeCall ''issuer'' [filled 2])),
      rr_check (\<lambda>s. rr_list_revoked_for_issuer s ''issuer'' = [filled 1, filled 2])]"

definition test_get_revocation_count_and_list_revoked_idempotent :: bool where
  "test_get_revocation_count_and_list_revoked_idempotent \<longleftrightarrow> passes
     [Call (reg (RrRevokeCall ''issuer'' ''subject'' (filled 50))),
      rr_check (\<lambda>s. rr_get_revocation_count s ''issuer'' = 1),
      Call (reg (RrRevokeCall ''issuer'' ''subject'' (filled 50))),
      rr_check (\<lambda>s. rr_get_revocation_count s ''issuer'' = 1),
      rr_check (\<lambda>s. rr_list_revoked s ''issuer'' 0 10 = Some [filled 50])]"

section \<open>The reentrancy guard\<close>

definition test_guard_absent_without_identity_oracle :: bool where
  "test_guard_absent_without_identity_oracle \<longleftrightarrow> passes
     [Call (reg (RrRevokeCall ''issuer'' ''subject'' (filled 0xAA))),
      rr_check (\<lambda>s. rr_is_revoked s (filled 0xAA)),
      rr_check (\<lambda>s. rr_lock s = None)]"

definition test_enter_guard_detects_locked_state :: bool where
  "test_enter_guard_detects_locked_state \<longleftrightarrow> passes
     [Write (\<lambda>w. w\<lparr>wd_registry := (wd_registry w)\<lparr>rr_lock := Some True\<rparr>\<rparr>),
      rr_check (\<lambda>s. rr_enter_guard s = Err ReentrancyDetected)]"

section \<open>The tests pass\<close>

lemmas rr_test_defs = run_defs registry_defs rr_emits_def rr_check_def

lemma registry_admin_tests:
  "test_set_batch_limit_and_enforce" "test_set_batch_limit_rejects_invalid" "set_identity_oracle_event"
  "test_admin_transfer_two_step" "test_non_pending_admin_cannot_accept" "test_pause_and_unpause"
  "test_pause_requires_admin_auth" "test_maintain_storage_succeeds_for_admin"
  "test_maintain_storage_fails_for_non_admin" "test_initialize_already_initialized"
  unfolding test_set_batch_limit_and_enforce_def test_set_batch_limit_rejects_invalid_def
    set_identity_oracle_event_def test_admin_transfer_two_step_def test_non_pending_admin_cannot_accept_def
    test_pause_and_unpause_def test_pause_requires_admin_auth_def test_maintain_storage_succeeds_for_admin_def
    test_maintain_storage_fails_for_non_admin_def test_initialize_already_initialized_def
  by (simp_all add: rr_test_defs)

lemma registry_revoke_tests:
  "test_revoke_and_check" "test_unknown_hash_not_revoked" "test_only_registered_issuer_can_revoke"
  "test_batch_revoke_five_hashes" "batch_revoke_events" "test_batch_revoke_exceeds_limit"
  "test_sequential_revokes_succeed"
  unfolding test_revoke_and_check_def test_unknown_hash_not_revoked_def
    test_only_registered_issuer_can_revoke_def test_batch_revoke_five_hashes_def batch_revoke_events_def
    test_batch_revoke_exceeds_limit_def test_sequential_revokes_succeed_def
  by (simp_all add: rr_test_defs)

lemma registry_list_tests:
  "test_get_revocation_count_and_list_revoked_single_and_batch" "test_list_revoked_pagination_edge_cases"
  "test_list_revoked_for_issuer" "test_get_revocation_count_and_list_revoked_idempotent"
  unfolding test_get_revocation_count_and_list_revoked_single_and_batch_def
    test_list_revoked_pagination_edge_cases_def test_list_revoked_for_issuer_def
    test_get_revocation_count_and_list_revoked_idempotent_def
  by (simp_all add: rr_test_defs checked_add_def upt_rec)

lemma registry_guard_tests:
  "test_guard_absent_without_identity_oracle" "test_enter_guard_detects_locked_state"
  unfolding test_guard_absent_without_identity_oracle_def test_enter_guard_detects_locked_state_def
  by (simp_all add: rr_test_defs ex_bool_eq)

lemma revoke_twice: "proptest_is_revoked_idempotent h"
  by (simp add: proptest_is_revoked_idempotent_def rr_test_defs)

lemma fresh_claimable_all:
  "(\<forall>h. rr_registered_issuer s h = None \<or> rr_registered_issuer s h = Some i) \<Longrightarrow> rr_claimable_all i hs s"
  by (induction hs arbitrary: s) (auto simp: rr_claimable_def rr_recorded_fields)

lemma fold_recorded_status:
  "rr_status (fold (rr_recorded i) hs s) h = (if h \<in> set hs then Some True else rr_status s h)"
  by (induction hs arbitrary: s) (auto simp: rr_recorded_fields)

lemma revoke_batch:
  assumes "length hs \<le> 50"
  shows "proptest_batch_revoke_all_marked hs"
proof -
  let ?e = "invoked_at (dp_registry test_deployment) test_env"
  have a: "authorized ?e ''issuer''" by (simp add: authorized_def invoked_at_def test_env_def)
  have "rr_claimable_all ''issuer'' hs rr_new" by (rule fresh_claimable_all) (simp add: rr_new_def)
  moreover have "length hs \<le> unat (rr_get_batch_limit rr_new)" "\<not> rr_is_paused rr_new"
    using assms by (simp_all add: rr_get_batch_limit_def rr_new_def MAX_BATCH_SIZE_def rr_is_paused_def)
  ultimately obtain s' where s': "rr_batch_revoke ?e ''issuer'' hs rr_new = Ok s'"
    using rr_batch_revoke_total a unfolding is_ok_iff by metis
  then have "rr_status s' = rr_status (fold (rr_recorded ''issuer'') hs rr_new)"
    using rr_batch_revoke_Ok [OF s'] by (simp add: rr_view_def)
  then have "list_all (rr_is_revoked s') hs"
    by (simp add: list_all_iff rr_is_revoked_def fold_recorded_status)
  with s' show ?thesis
    by (simp add: proptest_batch_revoke_all_marked_def passes_def rr_check_def rr_local_def test_deployment_def world_new_def)
qed

section \<open>The suite\<close>

definition registry_tests_pass :: bool where
  "registry_tests_pass \<longleftrightarrow>
     test_set_batch_limit_and_enforce \<and>
     test_set_batch_limit_rejects_invalid \<and>
     set_identity_oracle_event \<and>
     test_admin_transfer_two_step \<and>
     test_non_pending_admin_cannot_accept \<and>
     test_pause_and_unpause \<and>
     test_pause_requires_admin_auth \<and>
     test_maintain_storage_succeeds_for_admin \<and>
     test_maintain_storage_fails_for_non_admin \<and>
     test_initialize_already_initialized \<and>
     test_revoke_and_check \<and>
     test_unknown_hash_not_revoked \<and>
     test_only_registered_issuer_can_revoke \<and>
     test_batch_revoke_five_hashes \<and>
     batch_revoke_events \<and>
     test_batch_revoke_exceeds_limit \<and>
     test_sequential_revokes_succeed \<and>
     test_get_revocation_count_and_list_revoked_single_and_batch \<and>
     test_list_revoked_pagination_edge_cases \<and>
     test_list_revoked_for_issuer \<and>
     test_get_revocation_count_and_list_revoked_idempotent \<and>
     test_guard_absent_without_identity_oracle \<and>
     test_enter_guard_detects_locked_state"

lemma registry_suite: registry_tests_pass
  unfolding registry_tests_pass_def
  by (intro conjI) (fact registry_admin_tests registry_revoke_tests registry_list_tests registry_guard_tests)+

end
