(* ===== verification/Conformance_Governance.thy ===== *)
theory Conformance_Governance
  imports Conformance
begin

text \<open>
  The tests of \<open>contracts/governance/src/lib.rs\<close>, each a bool that is true when the test passes on the
  model. They run governance against the model of the credit-oracle, linked as the tests link the two contracts.
\<close>

abbreviation gov :: "gov_call \<Rightarrow> sys_call" where "gov \<equiv> ToGovernance"

definition gov_check :: "(gov_state \<Rightarrow> bool) \<Rightarrow> sys_step" where
  "gov_check p = Check (\<lambda>e w. p (wd_governance w))"

text \<open>What holds of a stored proposal (\<open>get_proposal(..).unwrap()\<close>).\<close>

definition gov_proposal_check :: "u64 \<Rightarrow> (governance_proposal \<Rightarrow> bool) \<Rightarrow> sys_step" where
  "gov_proposal_check i p =
     gov_check (\<lambda>s. case gov_get_proposal s i of None \<Rightarrow> False | Some x \<Rightarrow> p x)"

text \<open>The id \<open>create_proposal\<close> answers, before the call is made.\<close>

definition gov_next_id :: "address \<Rightarrow> scoring_weights \<Rightarrow> u32 \<Rightarrow> u32 \<Rightarrow> u64 \<Rightarrow> sys_step" where
  "gov_next_id proposer w period delay i =
     Check (\<lambda>e x. case gov_create_proposal (invoked_at (dp_governance test_deployment) e) proposer w period delay (wd_governance x) of
        Ok (j, _) \<Rightarrow> j = i | Err _ \<Rightarrow> False | Trap \<Rightarrow> False)"

definition gov_rejects :: "gov_call \<Rightarrow> gov_error \<Rightarrow> sys_step" where
  "gov_rejects c err = Refused (gov c) (FromGovernance err)"

text \<open>Both contracts initialised, and governance made the admin of the credit-oracle.\<close>

definition gov_setup :: "i128 \<Rightarrow> sys_step list" where
  "gov_setup q = [Call (ToCredit (CoInitializeCall ''admin'')), Call (gov (GvInitializeCall ''admin'' (dp_credit test_deployment) q))]"

definition gov_handover :: "sys_step list" where
  "gov_handover = [Call (ToCredit (CoProposeAdminCall (dp_governance test_deployment))), Call (gov GvAcceptOracleAdminCall)]"

definition active_weights :: "scoring_weights \<Rightarrow> sys_step" where
  "active_weights x = Check (\<lambda>e w. co_get_scoring_weights (wd_credit w) = Ok x)"

definition pending_weights_check :: "scoring_weights \<Rightarrow> sys_step" where
  "pending_weights_check x =
     Check (\<lambda>e w. case co_get_pending_weights (wd_credit w) of
        Ok (Some r) \<Rightarrow> pw_weights r = x | Ok None \<Rightarrow> False | Err _ \<Rightarrow> False | Trap \<Rightarrow> False)"

section \<open>From proposal to new weights\<close>

definition test_governance_proposal_creation_voting_and_execution :: bool where
  "test_governance_proposal_creation_voting_and_execution \<longleftrightarrow> passes (gov_setup 1000 @ gov_handover @
     [gov_next_id ''proposer'' (weights 50 20 30) 100 0 1,
      Call (gov (GvCreateCall ''proposer'' (weights 50 20 30) 100 0)),
      Check (\<lambda>e w. case gov_get_proposal (wd_governance w) 1 of None \<Rightarrow> False
               | Some p \<Rightarrow> gp_expiry_ledger p = ledger_sequence e + 100 \<and> \<not> gp_executed p),
      Call (gov (GvRegisterVoterCall ''admin'' ''voter1'' 1000)),
      Call (gov (GvRegisterVoterCall ''admin'' ''voter2'' 400)),
      Call (gov (GvVoteCall ''voter1'' 1 True 1000)),
      Call (gov (GvVoteCall ''voter2'' 1 False 400)),
      gov_proposal_check 1 (\<lambda>p. gp_votes_for p = 1000 \<and> gp_votes_against p = 400),
      gov_rejects (GvExecuteCall 1) ProposalNotExpired,
      Ledgers 101,
      Call (gov (GvExecuteCall 1)),
      gov_proposal_check 1 gp_executed,
      active_weights (weights 40 30 30),
      pending_weights_check (weights 50 20 30),
      Ledgers (17280 + 2),
      Call (gov GvApplyWeightsCall),
      active_weights (weights 50 20 30)])"

definition test_initialize_emits_initialized_event :: bool where
  "test_initialize_emits_initialized_event \<longleftrightarrow> passes (gov_setup 500 @
     [Emitted (\<lambda>u w. drop (length (gv_events (wd_governance u))) (gv_events (wd_governance w))
        = [GvInitialized ''admin'' (dp_credit test_deployment)]),
      gov_rejects (GvInitializeCall ''admin'' (dp_credit test_deployment) 500) GvAlreadyInitialized])"

definition test_proposal_with_exactly_quorum_votes_succeeds :: bool where
  "test_proposal_with_exactly_quorum_votes_succeeds \<longleftrightarrow> passes (gov_setup 500 @ gov_handover @
     [Call (gov (GvCreateCall ''proposer'' (weights 40 30 30) 100 0)),
      gov_proposal_check 1 (\<lambda>p. gp_quorum_required p = 500),
      Call (gov (GvRegisterVoterCall ''admin'' ''voter1'' 300)),
      Call (gov (GvRegisterVoterCall ''admin'' ''voter2'' 200)),
      Call (gov (GvVoteCall ''voter1'' 1 True 300)),
      Call (gov (GvVoteCall ''voter2'' 1 False 200)),
      Ledgers 101,
      Call (gov (GvExecuteCall 1)),
      gov_proposal_check 1 gp_executed,
      Check (\<lambda>e w. case co_get_scoring_weights (wd_credit w) of
        Ok x \<Rightarrow> vc_weight x = 40 | Err _ \<Rightarrow> False | Trap \<Rightarrow> False),
      Ledgers (17280 + 2),
      Call (gov GvApplyWeightsCall),
      Check (\<lambda>e w. case co_get_scoring_weights (wd_credit w) of
        Ok x \<Rightarrow> vc_weight x = 40 | Err _ \<Rightarrow> False | Trap \<Rightarrow> False)])"

definition test_execution_timelock_delays_after_voting_ends :: bool where
  "test_execution_timelock_delays_after_voting_ends \<longleftrightarrow> passes (gov_setup 100 @ gov_handover @
     [Call (gov (GvCreateCall ''proposer'' (weights 50 20 30) 100 50)),
      gov_proposal_check 1 (\<lambda>p. gp_execution_delay_ledgers p = 50),
      Call (gov (GvRegisterVoterCall ''admin'' ''voter'' 200)),
      Call (gov (GvVoteCall ''voter'' 1 True 200)),
      Ledgers 101,
      gov_rejects (GvExecuteCall 1) GvTimelockNotExpired,
      gov_proposal_check 1 (\<lambda>p. \<not> gp_executed p),
      Ledgers 50,
      Call (gov (GvExecuteCall 1)),
      gov_proposal_check 1 gp_executed,
      Check (\<lambda>e w. case co_get_scoring_weights (wd_credit w) of
        Ok x \<Rightarrow> vc_weight x = 40 | Err _ \<Rightarrow> False | Trap \<Rightarrow> False),
      pending_weights_check (weights 50 20 30)])"

definition test_execute_rejected_proposal :: bool where
  "test_execute_rejected_proposal \<longleftrightarrow> passes (gov_setup 100 @
     [Call (gov (GvCreateCall ''proposer'' (weights 50 20 30) 100 0)),
      Call (gov (GvRegisterVoterCall ''admin'' ''voter_for'' 40)),
      Call (gov (GvRegisterVoterCall ''admin'' ''voter_against'' 60)),
      Call (gov (GvVoteCall ''voter_for'' 1 True 40)),
      Call (gov (GvVoteCall ''voter_against'' 1 False 60)),
      Ledgers 101,
      gov_rejects (GvExecuteCall 1) ProposalRejected])"

definition test_apply_weights_relay_propagates_timelock_error :: bool where
  "test_apply_weights_relay_propagates_timelock_error \<longleftrightarrow> passes (gov_setup 100 @ gov_handover @
     [Call (gov (GvCreateCall ''proposer'' (weights 50 20 30) 100 0)),
      Call (gov (GvRegisterVoterCall ''admin'' ''voter'' 200)),
      Call (gov (GvVoteCall ''voter'' 1 True 200)),
      Ledgers 101,
      Call (gov (GvExecuteCall 1)),
      gov_rejects GvApplyWeightsCall GvTimelockNotExpired])"

definition test_apply_weights_relay_propagates_no_pending_weights_error :: bool where
  "test_apply_weights_relay_propagates_no_pending_weights_error \<longleftrightarrow> passes (gov_setup 500 @ gov_handover @
     [gov_rejects GvApplyWeightsCall GvNoPendingWeights])"

text \<open>The two tests of issue 763 differ in their votes only.\<close>

definition rejected_by_majority :: "i128 \<Rightarrow> i128 \<Rightarrow> sys_step list" where
  "rejected_by_majority yes no = gov_setup 100 @
     [Call (gov (GvCreateCall ''proposer'' (weights 50 20 30) 100 10)),
      Call (gov (GvRegisterVoterCall ''admin'' ''voter_for'' yes)),
      Call (gov (GvRegisterVoterCall ''admin'' ''voter_against'' no)),
      Call (gov (GvVoteCall ''voter_for'' 1 True yes)),
      Call (gov (GvVoteCall ''voter_against'' 1 False no)),
      gov_proposal_check 1 (\<lambda>p. gp_votes_for p = yes \<and> gp_votes_against p = no \<and> gp_quorum_required p = 100 \<and>
        gp_votes_for p + gp_votes_against p = 100 \<and> \<not> gp_executed p),
      Ledgers (100 + 10 + 1),
      gov_rejects (GvExecuteCall 1) ProposalRejected,
      gov_proposal_check 1 (\<lambda>p. \<not> gp_executed p)]"

definition test_governance_majority_check :: bool where
  "test_governance_majority_check \<longleftrightarrow> passes (rejected_by_majority 40 60)"

definition test_governance_tie_is_rejected :: bool where
  "test_governance_tie_is_rejected \<longleftrightarrow> passes (rejected_by_majority 50 50)"

section \<open>Voting\<close>

definition test_vote_rejects_non_positive_weight :: bool where
  "test_vote_rejects_non_positive_weight \<longleftrightarrow> passes (gov_setup 500 @
     [Call (gov (GvCreateCall ''proposer'' (weights 40 30 30) 100 0)),
      Call (gov (GvRegisterVoterCall ''admin'' ''voter'' 100)),
      gov_rejects (GvVoteCall ''voter'' 1 True 0) InvalidVoteWeight,
      gov_rejects (GvVoteCall ''voter'' 1 True (- 10)) InvalidVoteWeight])"

definition test_vote_rejects_tally_overflow :: bool where
  "test_vote_rejects_tally_overflow \<longleftrightarrow> passes (gov_setup 500 @
     [Call (gov (GvCreateCall ''proposer'' (weights 40 30 30) 100 0)),
      Call (gov (GvRegisterVoterCall ''admin'' ''voter'' 1)),
      Write (\<lambda>w. w\<lparr>wd_governance := (wd_governance w)\<lparr>gv_proposal := (\<lambda>i.
        if i = 1 then map_option (\<lambda>p. p\<lparr>gp_votes_for := word_of_int (2 ^ 127 - 1)\<rparr>) (gv_proposal (wd_governance w) 1)
        else gv_proposal (wd_governance w) i)\<rparr>\<rparr>),
      gov_rejects (GvVoteCall ''voter'' 1 True 1) VoteTallyOverflow])"

definition test_unregistered_voter_cannot_vote :: bool where
  "test_unregistered_voter_cannot_vote \<longleftrightarrow> passes (gov_setup 100 @
     [Call (gov (GvCreateCall ''proposer'' (weights 50 25 25) 100 0)),
      gov_rejects (GvVoteCall ''voter'' 1 True 100) VoterNotRegistered])"

definition test_voter_cannot_exceed_weight_limit :: bool where
  "test_voter_cannot_exceed_weight_limit \<longleftrightarrow> passes (gov_setup 100 @
     [Call (gov (GvCreateCall ''proposer'' (weights 50 25 25) 100 0)),
      Call (gov (GvRegisterVoterCall ''admin'' ''voter'' 100)),
      gov_rejects (GvVoteCall ''voter'' 1 True 150) InsufficientVoteWeight])"

text \<open>The weight a voter has used and has left on a proposal.\<close>

definition weight_left :: "u64 \<Rightarrow> address \<Rightarrow> i128 \<Rightarrow> i128 \<Rightarrow> sys_step" where
  "weight_left i v used avail = gov_check (\<lambda>s. gov_get_vote_weight_used s i v = used \<and>
     gov_get_available_vote_weight s i v = Some avail)"

definition test_multiple_votes_within_weight_limit :: bool where
  "test_multiple_votes_within_weight_limit \<longleftrightarrow> passes (gov_setup 100 @
     [Call (gov (GvCreateCall ''proposer'' (weights 50 25 25) 100 0)),
      Call (gov (GvRegisterVoterCall ''admin'' ''voter'' 100)),
      Call (gov (GvVoteCall ''voter'' 1 True 60)),
      weight_left 1 ''voter'' 60 40,
      Call (gov (GvVoteCall ''voter'' 1 False 40)),
      weight_left 1 ''voter'' 100 0,
      gov_rejects (GvVoteCall ''voter'' 1 True 1) InsufficientVoteWeight,
      gov_proposal_check 1 (\<lambda>p. gp_votes_for p = 60 \<and> gp_votes_against p = 40)])"

definition test_vote_weight_used_survives_long_voting_period :: bool where
  "test_vote_weight_used_survives_long_voting_period \<longleftrightarrow> passes (gov_setup 100 @
     [Call (gov (GvCreateCall ''proposer'' (weights 50 25 25) 1000000 0)),
      Call (gov (GvRegisterVoterCall ''admin'' ''voter'' 100)),
      Call (gov (GvVoteCall ''voter'' 1 True 60)),
      Ledgers 500001,
      Call (gov (GvVoteCall ''voter'' 1 False 40)),
      weight_left 1 ''voter'' 100 0])"

definition test_weight_tracking_per_proposal :: bool where
  "test_weight_tracking_per_proposal \<longleftrightarrow> passes (gov_setup 100 @
     [gov_next_id ''proposer'' (weights 50 25 25) 100 0 1,
      Call (gov (GvCreateCall ''proposer'' (weights 50 25 25) 100 0)),
      gov_next_id ''proposer'' (weights 50 25 25) 100 0 2,
      Call (gov (GvCreateCall ''proposer'' (weights 50 25 25) 100 0)),
      Call (gov (GvRegisterVoterCall ''admin'' ''voter'' 100)),
      Call (gov (GvVoteCall ''voter'' 1 True 80)),
      weight_left 1 ''voter'' 80 20,
      weight_left 2 ''voter'' 0 100,
      Call (gov (GvVoteCall ''voter'' 2 False 100)),
      weight_left 2 ''voter'' 100 0,
      weight_left 1 ''voter'' 80 20])"

section \<open>Cancelling\<close>

definition test_cancel_emits_event :: bool where
  "test_cancel_emits_event \<longleftrightarrow> passes (gov_setup 500 @
     [Call (gov (GvCreateCall ''proposer'' (weights 40 30 30) 100 0)),
      Call (gov (GvCancelCall ''proposer'' 1)),
      Emitted (\<lambda>u w. PropCanc 1 ''proposer'' \<in>
        set (drop (length (gv_events (wd_governance u))) (gv_events (wd_governance w)))),
      gov_proposal_check 1 (\<lambda>p. gp_cancelled p \<and> \<not> gp_executed p)])"

definition test_vote_rejected_after_cancellation :: bool where
  "test_vote_rejected_after_cancellation \<longleftrightarrow> passes (gov_setup 100 @
     [Call (gov (GvCreateCall ''proposer'' (weights 40 30 30) 100 0)),
      Call (gov (GvRegisterVoterCall ''admin'' ''voter1'' 500)),
      Call (gov (GvRegisterVoterCall ''admin'' ''voter2'' 500)),
      Call (gov (GvVoteCall ''voter1'' 1 True 300)),
      Call (gov (GvCancelCall ''proposer'' 1)),
      gov_rejects (GvVoteCall ''voter2'' 1 True 100) ProposalAlreadyCancelled,
      gov_rejects (GvVoteCall ''voter1'' 1 True 100) ProposalAlreadyCancelled,
      gov_proposal_check 1 (\<lambda>p. gp_cancelled p \<and> gp_votes_for p = 300),
      Ledgers 101,
      gov_rejects (GvExecuteCall 1) ProposalAlreadyCancelled])"

definition test_admin_cancel_blocks_further_votes :: bool where
  "test_admin_cancel_blocks_further_votes \<longleftrightarrow> passes (gov_setup 100 @
     [Call (gov (GvCreateCall ''proposer'' (weights 40 30 30) 100 0)),
      Call (gov (GvCancelCall ''admin'' 1)),
      gov_proposal_check 1 gp_cancelled,
      Call (gov (GvRegisterVoterCall ''admin'' ''voter'' 100)),
      gov_rejects (GvVoteCall ''voter'' 1 True 100) ProposalAlreadyCancelled])"

section \<open>Voters and quorum\<close>

definition voter_weight_is :: "address \<Rightarrow> i128 option \<Rightarrow> sys_step" where
  "voter_weight_is v n = gov_check (\<lambda>s. gov_get_voter_weight s v = n)"

definition test_voter_registration_and_weight_management :: bool where
  "test_voter_registration_and_weight_management \<longleftrightarrow> passes (gov_setup 100 @
     [voter_weight_is ''voter'' None,
      Call (gov (GvRegisterVoterCall ''admin'' ''voter'' 500)),
      voter_weight_is ''voter'' (Some 500),
      Call (gov (GvUpdateVoterCall ''admin'' ''voter'' 750)),
      voter_weight_is ''voter'' (Some 750),
      Call (gov (GvDeregisterVoterCall ''admin'' ''voter'')),
      voter_weight_is ''voter'' None,
      Call (gov (GvRegisterVoterCall ''admin'' ''voter'' 100)),
      Call (gov (GvUpdateVoterCall ''admin'' ''voter'' 0)),
      voter_weight_is ''voter'' None])"

definition test_quorum_percent_uses_total_registered_weight_for_new_proposals :: bool where
  "test_quorum_percent_uses_total_registered_weight_for_new_proposals \<longleftrightarrow> passes (gov_setup 1 @
     [Call (gov (GvRegisterVoterCall ''admin'' ''voter'' 101)),
      Call (gov (GvSetQuorumPercentCall ''admin'' 50)),
      gov_check (\<lambda>s. gov_get_quorum_percent s = Some 50),
      Call (gov (GvCreateCall ''proposer'' (weights 40 30 30) 10 0)),
      gov_proposal_check 1 (\<lambda>p. gp_quorum_required p = 50)])"

definition test_reregistering_voter_keeps_relative_quorum_total_accurate :: bool where
  "test_reregistering_voter_keeps_relative_quorum_total_accurate \<longleftrightarrow> passes (gov_setup 1 @
     [Call (gov (GvRegisterVoterCall ''admin'' ''voter'' 100)),
      Call (gov (GvRegisterVoterCall ''admin'' ''voter'' 40)),
      gov_check (\<lambda>s. gov_get_total_registered_weight s = 40),
      Call (gov (GvSetQuorumPercentCall ''admin'' 50)),
      Call (gov (GvCreateCall ''proposer'' (weights 40 30 30) 10 0)),
      gov_proposal_check 1 (\<lambda>p. gp_quorum_required p = 20)])"

definition test_non_admin_cannot_register_voters :: bool where
  "test_non_admin_cannot_register_voters \<longleftrightarrow> passes (gov_setup 100 @
     [gov_rejects (GvRegisterVoterCall ''non_admin'' ''voter'' 100) GvNotAuthorized,
      gov_rejects (GvUpdateVoterCall ''non_admin'' ''voter'' 200) GvNotAuthorized,
      gov_rejects (GvDeregisterVoterCall ''non_admin'' ''voter'') GvNotAuthorized])"

definition test_invalid_weight_registration_rejected :: bool where
  "test_invalid_weight_registration_rejected \<longleftrightarrow> passes (gov_setup 100 @
     [gov_rejects (GvRegisterVoterCall ''admin'' ''voter'' 0) InvalidVoteWeight,
      gov_rejects (GvRegisterVoterCall ''admin'' ''voter'' (- 50)) InvalidVoteWeight,
      Call (gov (GvRegisterVoterCall ''admin'' ''voter'' 100)),
      gov_rejects (GvUpdateVoterCall ''admin'' ''voter'' (- 10)) InvalidVoteWeight])"

definition test_create_proposal_weight_component_bounds :: bool where
  "test_create_proposal_weight_component_bounds \<longleftrightarrow> passes (gov_setup 100 @
     [gov_rejects (GvCreateCall ''proposer'' (weights 60 0 40) 100 10) GvInvalidWeights,
      gov_rejects (GvCreateCall ''proposer'' (weights 51 9 40) 100 10) GvInvalidWeights,
      gov_rejects (GvCreateCall ''proposer'' (weights 9 45 46) 100 10) GvInvalidWeights,
      gov_rejects (GvCreateCall ''proposer'' (weights 45 46 9) 100 10) GvInvalidWeights,
      gov_next_id ''proposer'' (weights 50 10 40) 100 10 1,
      Call (gov (GvCreateCall ''proposer'' (weights 50 10 40) 100 10))])"

definition test_create_proposal_zero_period :: bool where
  "test_create_proposal_zero_period \<longleftrightarrow> passes (gov_setup 100 @
     [gov_rejects (GvCreateCall ''proposer'' (weights 40 30 30) 0 10) InvalidVotingPeriod])"

section \<open>The tests pass\<close>

lemmas gov_test_defs = run_defs governance_defs credit_admin_defs gov_check_def gov_proposal_check_def
  gov_next_id_def gov_rejects_def gov_setup_def gov_handover_def active_weights_def
  pending_weights_check_def weight_left_def voter_weight_is_def rejected_by_majority_def

lemma governance_flow_tests:
  "test_governance_proposal_creation_voting_and_execution" "test_initialize_emits_initialized_event"
  "test_proposal_with_exactly_quorum_votes_succeeds" "test_execution_timelock_delays_after_voting_ends"
  "test_execute_rejected_proposal" "test_apply_weights_relay_propagates_timelock_error"
  "test_apply_weights_relay_propagates_no_pending_weights_error" "test_governance_majority_check"
  "test_governance_tie_is_rejected"
  unfolding test_governance_proposal_creation_voting_and_execution_def
    test_initialize_emits_initialized_event_def test_proposal_with_exactly_quorum_votes_succeeds_def
    test_execution_timelock_delays_after_voting_ends_def test_execute_rejected_proposal_def
    test_apply_weights_relay_propagates_timelock_error_def
    test_apply_weights_relay_propagates_no_pending_weights_error_def test_governance_majority_check_def
    test_governance_tie_is_rejected_def
  by (simp_all add: gov_test_defs)

lemma governance_voting_tests:
  "test_vote_rejects_non_positive_weight" "test_vote_rejects_tally_overflow"
  "test_unregistered_voter_cannot_vote" "test_voter_cannot_exceed_weight_limit"
  "test_multiple_votes_within_weight_limit" "test_vote_weight_used_survives_long_voting_period"
  "test_weight_tracking_per_proposal"
  unfolding test_vote_rejects_non_positive_weight_def test_vote_rejects_tally_overflow_def
    test_unregistered_voter_cannot_vote_def test_voter_cannot_exceed_weight_limit_def
    test_multiple_votes_within_weight_limit_def test_vote_weight_used_survives_long_voting_period_def
    test_weight_tracking_per_proposal_def
  by (simp_all add: gov_test_defs)

lemma governance_cancel_tests:
  "test_cancel_emits_event" "test_vote_rejected_after_cancellation" "test_admin_cancel_blocks_further_votes"
  unfolding test_cancel_emits_event_def test_vote_rejected_after_cancellation_def
    test_admin_cancel_blocks_further_votes_def
  by (simp_all add: gov_test_defs)

lemma governance_voter_tests:
  "test_voter_registration_and_weight_management"
  "test_quorum_percent_uses_total_registered_weight_for_new_proposals"
  "test_reregistering_voter_keeps_relative_quorum_total_accurate" "test_non_admin_cannot_register_voters"
  "test_invalid_weight_registration_rejected" "test_create_proposal_weight_component_bounds"
  "test_create_proposal_zero_period"
  unfolding test_voter_registration_and_weight_management_def
    test_quorum_percent_uses_total_registered_weight_for_new_proposals_def
    test_reregistering_voter_keeps_relative_quorum_total_accurate_def
    test_non_admin_cannot_register_voters_def test_invalid_weight_registration_rejected_def
    test_create_proposal_weight_component_bounds_def test_create_proposal_zero_period_def
  by (simp_all add: gov_test_defs)

section \<open>The suite\<close>

definition governance_tests_pass :: bool where
  "governance_tests_pass \<longleftrightarrow>
     test_governance_proposal_creation_voting_and_execution \<and>
     test_initialize_emits_initialized_event \<and>
     test_proposal_with_exactly_quorum_votes_succeeds \<and>
     test_execution_timelock_delays_after_voting_ends \<and>
     test_execute_rejected_proposal \<and>
     test_apply_weights_relay_propagates_timelock_error \<and>
     test_apply_weights_relay_propagates_no_pending_weights_error \<and>
     test_governance_majority_check \<and>
     test_governance_tie_is_rejected \<and>
     test_vote_rejects_non_positive_weight \<and>
     test_vote_rejects_tally_overflow \<and>
     test_unregistered_voter_cannot_vote \<and>
     test_voter_cannot_exceed_weight_limit \<and>
     test_multiple_votes_within_weight_limit \<and>
     test_vote_weight_used_survives_long_voting_period \<and>
     test_weight_tracking_per_proposal \<and>
     test_cancel_emits_event \<and>
     test_vote_rejected_after_cancellation \<and>
     test_admin_cancel_blocks_further_votes \<and>
     test_voter_registration_and_weight_management \<and>
     test_quorum_percent_uses_total_registered_weight_for_new_proposals \<and>
     test_reregistering_voter_keeps_relative_quorum_total_accurate \<and>
     test_non_admin_cannot_register_voters \<and>
     test_invalid_weight_registration_rejected \<and>
     test_create_proposal_weight_component_bounds \<and>
     test_create_proposal_zero_period"

lemma governance_suite: governance_tests_pass
  unfolding governance_tests_pass_def
  by (intro conjI) (fact governance_flow_tests governance_voting_tests governance_cancel_tests governance_voter_tests)+

end
