(* ===== verification/Conformance_Identity.thy ===== *)
theory Conformance_Identity
  imports Conformance Anchoring
begin

text \<open>
  The tests of \<open>contracts/identity-oracle/src/lib.rs\<close>, each a bool that is true when the test passes on the
  model. The revocation-registry they link is the mock of the tests, at two addresses: it answers that nothing
  is revoked and accepts any identity-oracle. Left out are the three tests whose point is not on the model: the two
  that measure the CPU cost of the cached count, and the one of its lifetime in storage.
\<close>

definition mock_registries :: "address set" where
  "mock_registries = {contract_address CHR ''1'', contract_address CHR ''2''}"

definition mock_is_revoked :: registry_query where
  "mock_is_revoked a h = (if a \<in> mock_registries then Some False else None)"

definition mock_set_identity_oracle :: "unit link_call" where
  "mock_set_identity_oracle e a n w = (if a \<in> mock_registries then Some w else None)"

type_synonym io_step = "(io_call, io_error, io_state) step"

definition io_test_exec :: "env \<Rightarrow> io_call \<Rightarrow> io_state \<Rightarrow> (io_error, io_state) outcome" where
  "io_test_exec e c s =
     outcome_bind (io_exec (invoked_at (dp_identity test_deployment) e) mock_is_revoked mock_set_identity_oracle c (s, ()))
       (\<lambda>(s', _). Ok s')"

definition io_passes :: "io_step list \<Rightarrow> bool" where
  "io_passes ss = run_steps io_test_exec test_env io_new io_new ss"

definition io_check :: "(io_state \<Rightarrow> bool) \<Rightarrow> io_step" where
  "io_check p = Check (\<lambda>e s. p s)"

definition verified :: "address \<Rightarrow> bool \<Rightarrow> io_step" where
  "verified a b = io_check (\<lambda>s. io_is_verified mock_is_revoked s a = Some b)"

definition did_is :: "address \<Rightarrow> string option \<Rightarrow> io_step" where
  "did_is a c = io_check (\<lambda>s. io_get_did_document s a = c)"

definition listed_issuers :: "address list \<Rightarrow> io_step" where
  "listed_issuers as = io_check (\<lambda>s. io_list_issuers s = as)"

definition deactivated_is :: "address \<Rightarrow> bool \<Rightarrow> io_step" where
  "deactivated_is a b = io_check (\<lambda>s. io_is_deactivated s a = b)"

definition stats_are :: "u64 \<Rightarrow> u64 \<Rightarrow> u64 \<Rightarrow> io_step" where
  "stats_are dids vcs revs = io_check (\<lambda>s. io_get_protocol_stats s =
     \<lparr>total_dids_anchored = dids, total_vcs_anchored = vcs, total_vcs_revoked = revs\<rparr>)"

text \<open>
  \<open>get_active_vc_count\<close>, which may fill its cache, and \<open>deactivate_identity\<close>: what the call answers, and the call.
\<close>

definition active_count :: "address \<Rightarrow> u32 \<Rightarrow> io_step list" where
  "active_count a n =
     [io_check (\<lambda>s. map_option fst (io_get_active_vc_count mock_is_revoked a s) = Some n),
      Call (IoGetActiveVcCountCall a)]"

definition deactivates :: "address \<Rightarrow> u32 \<Rightarrow> io_step list" where
  "deactivates a n =
     [Check (\<lambda>e s. case io_deactivate_identity (invoked_at (dp_identity test_deployment) e) a s of
        Ok (k, _) \<Rightarrow> k = n | Err _ \<Rightarrow> False | Trap \<Rightarrow> False),
      Call (IoDeactivateIdentityCall a)]"

definition io_admin_setup :: "io_step list" where
  "io_admin_setup = [Call (IoInitializeCall ''admin'')]"

definition io_setup :: "io_step list" where
  "io_setup = [Call (IoInitializeCall ''admin''), Call (IoRegisterIssuerCall ''issuer'')]"

text \<open>An anchor of the issuer for the subject, and the hash array with its first two bytes set.\<close>

definition anchor :: "vc_hash \<Rightarrow> io_step" where
  "anchor h = Call (IoAnchorVcCall ''issuer'' ''subject'' h)"

definition tagged :: "8 word \<Rightarrow> 8 word \<Rightarrow> vc_hash" where
  "tagged k b = b # k # replicate 30 0"

lemma tagged_eq [simp]: "tagged k b = tagged l c \<longleftrightarrow> k = l \<and> b = c"
  by (auto simp: tagged_def)

section \<open>Issuers and anchors\<close>

definition test_anchor_vc_by_trusted_issuer :: bool where
  "test_anchor_vc_by_trusted_issuer \<longleftrightarrow> io_passes (io_setup @ [anchor (filled 1)])"

definition test_unregistered_issuer_fails :: bool where
  "test_unregistered_issuer_fails \<longleftrightarrow> io_passes
     [Refused (IoAnchorVcCall ''issuer'' ''subject'' (filled 1)) IssuerNotRegistered]"

definition test_deregister_issuer_succeeds :: bool where
  "test_deregister_issuer_succeeds \<longleftrightarrow> io_passes (io_setup @
     [Ledgers (518400 - 120960 + 1),
      Call (IoDeregisterIssuerCall ''issuer''),
      io_check (\<lambda>s. \<not> unwrap_or (io_trusted_issuer s ''issuer'') True),
      io_check (\<lambda>s. unwrap_or (io_issuers_index s) [] = [])])"

definition test_deregistered_issuer_cannot_anchor_vc :: bool where
  "test_deregistered_issuer_cannot_anchor_vc \<longleftrightarrow> io_passes (io_setup @
     [anchor (filled 1),
      Call (IoDeregisterIssuerCall ''issuer''),
      Refused (IoAnchorVcCall ''issuer'' ''subject'' (filled 2)) IssuerNotRegistered])"

definition test_list_issuers_reflects_register_and_deregister_operations :: bool where
  "test_list_issuers_reflects_register_and_deregister_operations \<longleftrightarrow> io_passes (io_admin_setup @
     [listed_issuers [],
      Call (IoRegisterIssuerCall ''issuer1''),
      listed_issuers [''issuer1''],
      Call (IoRegisterIssuerCall ''issuer2''),
      listed_issuers [''issuer1'', ''issuer2''],
      Call (IoRegisterIssuerCall ''issuer3''),
      listed_issuers [''issuer1'', ''issuer2'', ''issuer3''],
      Call (IoRegisterIssuerCall ''issuer1''),
      listed_issuers [''issuer1'', ''issuer2'', ''issuer3''],
      Call (IoDeregisterIssuerCall ''issuer1''),
      listed_issuers [''issuer2'', ''issuer3'']])"

definition test_reregistering_deregistered_issuer_does_not_duplicate_index :: bool where
  "test_reregistering_deregistered_issuer_does_not_duplicate_index \<longleftrightarrow> io_passes (io_setup @
     [Call (IoDeregisterIssuerCall ''issuer''),
      Call (IoRegisterIssuerCall ''issuer''),
      listed_issuers [''issuer''],
      anchor (filled 3)])"

definition test_is_verified_true_after_vc_anchored :: bool where
  "test_is_verified_true_after_vc_anchored \<longleftrightarrow> io_passes (io_setup @
     [verified ''subject'' False,
      anchor (filled 1),
      verified ''subject'' True])"

definition test_vc_count_increments_correctly :: bool where
  "test_vc_count_increments_correctly \<longleftrightarrow> io_passes (io_setup @
     [io_check (\<lambda>s. io_get_vc_count s ''subject'' = 0),
      anchor (numbered 0), anchor (numbered 1), anchor (numbered 2),
      io_check (\<lambda>s. io_get_vc_count s ''subject'' = 3)])"

definition test_duplicate_vc_hash_same_issuer_is_noop :: bool where
  "test_duplicate_vc_hash_same_issuer_is_noop \<longleftrightarrow> io_passes (io_setup @
     [anchor (filled 42), anchor (filled 42),
      io_check (\<lambda>s. io_get_total_vc_count s ''subject'' = 1)] @
     active_count ''subject'' 1)"

definition test_get_active_vc_count_excludes_revoked :: bool where
  "test_get_active_vc_count_excludes_revoked \<longleftrightarrow> io_passes (io_setup @
     [anchor (filled 0), anchor (filled 1), anchor (filled 2),
      Call (IoMarkVcRevokedCall ''issuer'' ''subject'' (filled 0)),
      Call (IoMarkVcRevokedCall ''issuer'' ''subject'' (filled 1))] @
     active_count ''subject'' 1)"

definition test_mark_vc_revoked_panics_for_unknown_hash :: bool where
  "test_mark_vc_revoked_panics_for_unknown_hash \<longleftrightarrow> io_passes (io_setup @
     [anchor (filled 1),
      Refused (IoMarkVcRevokedCall ''issuer'' ''subject'' (filled 2)) VCNotFound])"

definition test_revoked_vc_fails_is_verified :: bool where
  "test_revoked_vc_fails_is_verified \<longleftrightarrow> io_passes (io_setup @
     [anchor (filled 1),
      verified ''subject'' True,
      Call (IoMarkVcRevokedCall ''issuer'' ''subject'' (filled 1)),
      verified ''subject'' False])"

definition test_list_revoked_for_subject :: bool where
  "test_list_revoked_for_subject \<longleftrightarrow> io_passes (io_setup @
     [anchor (filled 1), anchor (filled 2), anchor (filled 3),
      io_check (\<lambda>s. io_list_revoked_for_subject mock_is_revoked s ''subject'' = Some []),
      Call (IoMarkVcRevokedCall ''issuer'' ''subject'' (filled 2)),
      io_check (\<lambda>s. io_list_revoked_for_subject mock_is_revoked s ''subject'' = Some [filled 2])])"

definition test_anchor_vc_typed_with_arbitrary_credential_types :: bool where
  "test_anchor_vc_typed_with_arbitrary_credential_types \<longleftrightarrow> io_passes (io_setup @
     map (\<lambda>(i, ty). Call (IoAnchorVcTypedCall ''issuer'' ''subject'' (tagged 42 i) ty))
       (zip [0, 1, 2, 3, 4, 5, 6, 7]
          [''kyc'', ''employment'', ''education'', ''identity'', ''credit_score'', ''test'', ''a'', ''very_long_type_name'']))"

definition test_get_vc_credential_type_returns_shared_credential_type :: bool where
  "test_get_vc_credential_type_returns_shared_credential_type \<longleftrightarrow> io_passes (io_setup @
     [anchor (filled 1),
      Call (IoAnchorVcTypedCall ''issuer'' ''subject'' (filled 2) ''kyc''),
      io_check (\<lambda>s. io_get_vc_credential_type s ''subject'' (filled 1) = ''generic''),
      io_check (\<lambda>s. io_get_vc_credential_type s ''subject'' (filled 2) = ''kyc'')])"

section \<open>The cap on live credentials\<close>

text \<open>\<open>n\<close> anchors of the hashes of one tag.\<close>

definition anchor_tagged :: "8 word \<Rightarrow> nat \<Rightarrow> io_step list" where
  "anchor_tagged k n = map (\<lambda>i. anchor (tagged k (of_nat i))) [0..<n]"

definition test_vc_limit_reached_at_max :: bool where
  "test_vc_limit_reached_at_max \<longleftrightarrow> io_passes (io_setup @ anchor_tagged 1 100 @
     [Refused (IoAnchorVcCall ''issuer'' ''subject'' (tagged 1 101)) VCLimitReached])"

definition test_revoked_vcs_do_not_count_toward_limit :: bool where
  "test_revoked_vcs_do_not_count_toward_limit \<longleftrightarrow> io_passes (io_setup @ anchor_tagged 2 100 @
     map (\<lambda>i. Call (IoMarkVcRevokedCall ''issuer'' ''subject'' (tagged 2 (of_nat i)))) [0..<50] @
     anchor_tagged 3 50 @ active_count ''subject'' 100)"

definition test_anchor_vc_typed_vc_limit_with_credential_types :: bool where
  "test_anchor_vc_typed_vc_limit_with_credential_types \<longleftrightarrow> io_passes (io_setup @
     map (\<lambda>i. Call (IoAnchorVcTypedCall ''issuer'' ''subject'' (tagged 10 (of_nat i))
       (if i mod 4 = 0 then ''kyc'' else if i mod 4 = 1 then ''employment''
        else if i mod 4 = 2 then ''education'' else ''identity''))) [0..<100] @
     [Refused (IoAnchorVcTypedCall ''issuer'' ''subject'' (tagged 10 101) ''test'') VCLimitReached])"

section \<open>DID documents\<close>

definition test_anchor_did_stores_cid :: bool where
  "test_anchor_did_stores_cid \<longleftrightarrow> io_passes [Call (IoAnchorDidCall ''subject'' ''ipfs://Qm...'')]"

definition test_anchor_did_rejects_empty_cid :: bool where
  "test_anchor_did_rejects_empty_cid \<longleftrightarrow> io_passes [Refused (IoAnchorDidCall ''subject'' '''') InvalidCID]"

definition test_anchor_did_rejects_single_space_cid :: bool where
  "test_anchor_did_rejects_single_space_cid \<longleftrightarrow> io_passes [Refused (IoAnchorDidCall ''subject'' '' '') InvalidCID]"

definition test_anchor_did_rejects_invalid_prefix :: bool where
  "test_anchor_did_rejects_invalid_prefix \<longleftrightarrow> io_passes
     [Refused (IoAnchorDidCall ''subject'' ''invalid-cid-data'') InvalidCID]"

definition anchor_did_cid_validation_v0 :: bool where
  "anchor_did_cid_validation_v0 \<longleftrightarrow>
     length ''QmYwAPJzagoJzrKSTTkG8w6zWZSNxrCYhpDkxQottEwHym'' = 46 \<and> io_passes
     [Call (IoAnchorDidCall ''subject'' ''QmYwAPJzagoJzrKSTTkG8w6zWZSNxrCYhpDkxQottEwHym''),
      did_is ''subject'' (Some ''QmYwAPJzagoJzrKSTTkG8w6zWZSNxrCYhpDkxQottEwHym'')]"

definition anchor_did_cid_validation_v1 :: bool where
  "anchor_did_cid_validation_v1 \<longleftrightarrow>
     length ''bafy2bzacedw4hc6k2vxtcmfmr3jtcl6yvqohqmvtqj7lhyzuejcxgxvl6yv4'' \<le> MAX_CID_LENGTH \<and> io_passes
     [Call (IoAnchorDidCall ''subject'' ''bafy2bzacedw4hc6k2vxtcmfmr3jtcl6yvqohqmvtqj7lhyzuejcxgxvl6yv4''),
      did_is ''subject'' (Some ''bafy2bzacedw4hc6k2vxtcmfmr3jtcl6yvqohqmvtqj7lhyzuejcxgxvl6yv4'')]"

definition anchor_did_cid_validation_invalid :: bool where
  "anchor_did_cid_validation_invalid \<longleftrightarrow> io_passes
     [Refused (IoAnchorDidCall ''subject'' '''') InvalidCID,
      Refused (IoAnchorDidCall ''subject'' ''notacidvalue'') InvalidCID,
      Refused (IoAnchorDidCall ''subject'' ''hello world'') InvalidCID]"

text \<open>Not run by the repository: the function has lost its \<open>#[test]\<close> attribute.\<close>

definition test_anchor_did_accepts_valid_ipfs_cid :: bool where
  "test_anchor_did_accepts_valid_ipfs_cid \<longleftrightarrow> io_passes
     [Call (IoAnchorDidCall ''subject'' ''ipfs://QmYwAPJzagoJzrKSTTkG8w6zWZSNxrCYhpDkxQottEwHym''),
      Call (IoAnchorDidCall ''subject2'' ''bafy2bzacedw4hc6k2vxtcmfmr3jtcl6yvqohqmvtqj7lhyzuejcxgxvl6yv4''),
      Call (IoAnchorDidCall ''subject3'' ''QmVocdeKSNbd9jkc3pDjq9FdAVLpiHrfQFwcJMgB7aXZi3'')]"

definition test_get_did_document_returns_cid_after_anchor :: bool where
  "test_get_did_document_returns_cid_after_anchor \<longleftrightarrow> io_passes
     [did_is ''subject'' None,
      Call (IoAnchorDidCall ''subject'' ''ipfs://QmTestDIDDocument''),
      did_is ''subject'' (Some ''ipfs://QmTestDIDDocument'')]"

definition test_get_did_document_returns_none_for_unknown_subject :: bool where
  "test_get_did_document_returns_none_for_unknown_subject \<longleftrightarrow> io_passes [did_is ''subject'' None]"

definition test_anchor_did_overwrite :: bool where
  "test_anchor_did_overwrite \<longleftrightarrow> io_passes
     [Call (IoAnchorDidCall ''subject'' ''ipfs://QmFirstCID123456789''),
      Call (IoAnchorDidCall ''subject'' ''ipfs://QmSecondCID987654321''),
      io_check (\<lambda>s. io_did_document s ''subject'' = Some ''ipfs://QmSecondCID987654321'')]"

definition test_anchor_did_accepts_exactly_65_byte_cid :: bool where
  "test_anchor_did_accepts_exactly_65_byte_cid \<longleftrightarrow> io_passes
     [Call (IoAnchorDidCall ''subject'' (''ipfs://'' @ replicate 58 CHR ''a'')),
      did_is ''subject'' (Some (''ipfs://'' @ replicate 58 CHR ''a''))]"

definition test_anchor_did_rejects_256_byte_cid :: bool where
  "test_anchor_did_rejects_256_byte_cid \<longleftrightarrow> io_passes
     [Refused (IoAnchorDidCall ''subject'' (''ipfs://'' @ replicate 249 CHR ''a'')) InvalidCID]"

section \<open>Administration\<close>

definition test_upgrade_rejects_without_admin_auth :: bool where
  "test_upgrade_rejects_without_admin_auth \<longleftrightarrow> io_passes (io_admin_setup @
     [Signed {}, Fails (IoUpgradeCall (filled 0))])"

definition test_initialize_sets_admin_and_emits_event :: bool where
  "test_initialize_sets_admin_and_emits_event \<longleftrightarrow> io_passes (io_admin_setup @
     [io_check (\<lambda>s. io_admin s = Some ''admin'')])"

definition test_get_admin_returns_none_until_initialized_then_admin :: bool where
  "test_get_admin_returns_none_until_initialized_then_admin \<longleftrightarrow> io_passes
     [io_check (\<lambda>s. io_get_admin s = None),
      Call (IoInitializeCall ''admin''),
      io_check (\<lambda>s. io_get_admin s = Some ''admin'')]"

definition test_is_paused_default_false_and_pause_unpause :: bool where
  "test_is_paused_default_false_and_pause_unpause \<longleftrightarrow> io_passes
     [io_check (\<lambda>s. \<not> io_is_paused s),
      Call (IoInitializeCall ''admin''),
      io_check (\<lambda>s. \<not> io_is_paused s),
      Call IoPauseCall,
      io_check io_is_paused,
      Call IoUnpauseCall,
      io_check (\<lambda>s. \<not> io_is_paused s)]"

definition io_test_admin_transfer_two_step :: bool where
  "io_test_admin_transfer_two_step \<longleftrightarrow> io_passes
     [Call (IoInitializeCall ''admin1''),
      Call (IoProposeAdminCall ''admin2''),
      Call (IoAcceptAdminCall ''admin2''),
      Call (IoRegisterIssuerCall ''issuer'')]"

definition io_test_non_pending_admin_cannot_accept :: bool where
  "io_test_non_pending_admin_cannot_accept \<longleftrightarrow> io_passes
     [Call (IoInitializeCall ''admin1''),
      Call (IoProposeAdminCall ''admin2''),
      Refused (IoAcceptAdminCall ''non_admin'') IoNotAuthorized]"

definition io_test_maintain_storage_succeeds_for_admin :: bool where
  "io_test_maintain_storage_succeeds_for_admin \<longleftrightarrow> io_passes (io_admin_setup @ [Call IoMaintainCall])"

definition io_test_maintain_storage_fails_for_non_admin :: bool where
  "io_test_maintain_storage_fails_for_non_admin \<longleftrightarrow> io_passes (io_admin_setup @ [Signed {}, Fails IoMaintainCall])"

definition io_test_initialize_already_initialized :: bool where
  "io_test_initialize_already_initialized \<longleftrightarrow> io_passes (io_admin_setup @
     [Refused (IoInitializeCall ''admin2'') IoAlreadyInitialized])"

definition registry_is :: "address option \<Rightarrow> io_step" where
  "registry_is a = io_check (\<lambda>s. io_get_revocation_registry s = a)"

definition test_get_revocation_registry_returns_none_after_initialize :: bool where
  "test_get_revocation_registry_returns_none_after_initialize \<longleftrightarrow> io_passes (io_admin_setup @ [registry_is None])"

definition test_set_revocation_registry_sets_address :: bool where
  "test_set_revocation_registry_sets_address \<longleftrightarrow> io_passes (io_admin_setup @
     [registry_is None,
      Call (IoSetRegistryCall (contract_address CHR ''1'')),
      registry_is (Some (contract_address CHR ''1''))])"

definition test_set_revocation_registry_can_update :: bool where
  "test_set_revocation_registry_can_update \<longleftrightarrow> io_passes (io_admin_setup @
     [Call (IoSetRegistryCall (contract_address CHR ''1'')),
      registry_is (Some (contract_address CHR ''1'')),
      Call (IoSetRegistryCall (contract_address CHR ''2'')),
      registry_is (Some (contract_address CHR ''2''))])"

section \<open>Statistics\<close>

definition io_test_protocol_stats_default_zero :: bool where
  "io_test_protocol_stats_default_zero \<longleftrightarrow> io_passes [Signed {}, stats_are 0 0 0]"

definition test_protocol_stats_increments_on_anchor_did :: bool where
  "test_protocol_stats_increments_on_anchor_did \<longleftrightarrow> io_passes (io_admin_setup @
     [Call (IoAnchorDidCall ''subject'' ''ipfs://QmTestDIDStats''),
      io_check (\<lambda>s. total_dids_anchored (io_get_protocol_stats s) = 1),
      Call (IoAnchorDidCall ''subject2'' ''ipfs://QmTestDIDStats2''),
      io_check (\<lambda>s. total_dids_anchored (io_get_protocol_stats s) = 2)])"

definition test_protocol_stats_increments_on_anchor_vc :: bool where
  "test_protocol_stats_increments_on_anchor_vc \<longleftrightarrow> io_passes (io_setup @
     [anchor (filled 1),
      io_check (\<lambda>s. total_vcs_anchored (io_get_protocol_stats s) = 1),
      anchor (filled 2),
      io_check (\<lambda>s. total_vcs_anchored (io_get_protocol_stats s) = 2)])"

definition test_protocol_stats_increments_on_mark_vc_revoked :: bool where
  "test_protocol_stats_increments_on_mark_vc_revoked \<longleftrightarrow> io_passes (io_setup @
     [anchor (filled 1),
      Call (IoMarkVcRevokedCall ''issuer'' ''subject'' (filled 1)),
      io_check (\<lambda>s. total_vcs_anchored (io_get_protocol_stats s) = 1),
      io_check (\<lambda>s. total_vcs_revoked (io_get_protocol_stats s) = 1)])"

definition test_protocol_stats_increments_on_deactivate_did :: bool where
  "test_protocol_stats_increments_on_deactivate_did \<longleftrightarrow> io_passes (io_setup @
     [Call (IoAnchorDidCall ''subject'' ''ipfs://QmTestDIDDeact''),
      anchor (filled 1), anchor (filled 2),
      Call (IoDeactivateDidCall ''subject''),
      stats_are 1 2 2])"

definition test_protocol_stats_no_increment_on_dedup_vc :: bool where
  "test_protocol_stats_no_increment_on_dedup_vc \<longleftrightarrow> io_passes (io_setup @
     [anchor (filled 42),
      io_check (\<lambda>s. total_vcs_anchored (io_get_protocol_stats s) = 1),
      anchor (filled 42),
      io_check (\<lambda>s. total_vcs_anchored (io_get_protocol_stats s) = 1)])"

section \<open>Deactivation\<close>

definition test_deactivate_did_removes_did_and_revokes_vcs :: bool where
  "test_deactivate_did_removes_did_and_revokes_vcs \<longleftrightarrow> io_passes (io_setup @
     [Call (IoAnchorDidCall ''subject'' ''ipfs://QmTestDID''),
      anchor (filled 1),
      verified ''subject'' True,
      io_check (\<lambda>s. io_get_did_document s ''subject'' \<noteq> None),
      Call (IoDeactivateDidCall ''subject''),
      verified ''subject'' False,
      did_is ''subject'' None])"

definition test_deactivate_did_sets_deactivated_flag_and_removes_did_document :: bool where
  "test_deactivate_did_sets_deactivated_flag_and_removes_did_document \<longleftrightarrow> io_passes (io_setup @
     [Call (IoAnchorDidCall ''subject'' ''ipfs://QmTestDeactivateDidFlag''),
      anchor (filled 7),
      verified ''subject'' True,
      deactivated_is ''subject'' False,
      io_check (\<lambda>s. io_get_did_document s ''subject'' \<noteq> None),
      Call (IoDeactivateDidCall ''subject''),
      deactivated_is ''subject'' True,
      did_is ''subject'' None,
      verified ''subject'' False] @
     active_count ''subject'' 0)"

definition test_deactivate_identity_does_not_remove_did_document :: bool where
  "test_deactivate_identity_does_not_remove_did_document \<longleftrightarrow> io_passes (io_admin_setup @
     [Call (IoAnchorDidCall ''subject'' ''ipfs://QmTestDeactivateIdentityKeepsDid''),
      Call (IoDeactivateIdentityCall ''subject''),
      did_is ''subject'' (Some ''ipfs://QmTestDeactivateIdentityKeepsDid''),
      deactivated_is ''subject'' True])"

definition test_deactivate_identity_sets_flag_and_revokes_vcs :: bool where
  "test_deactivate_identity_sets_flag_and_revokes_vcs \<longleftrightarrow> io_passes (io_setup @
     [Call (IoAnchorDidCall ''subject'' ''ipfs://QmTestDID''),
      anchor (filled 1), anchor (filled 2), anchor (filled 3),
      verified ''subject'' True] @
     active_count ''subject'' 3 @ [deactivated_is ''subject'' False] @ deactivates ''subject'' 3 @
     [deactivated_is ''subject'' True, verified ''subject'' False] @ active_count ''subject'' 0 @
     [io_check (\<lambda>s. io_get_total_vc_count s ''subject'' = 3)])"

definition test_reactivate_identity_clears_flag :: bool where
  "test_reactivate_identity_clears_flag \<longleftrightarrow> io_passes (io_setup @
     [anchor (filled 1),
      verified ''subject'' True,
      Call (IoDeactivateIdentityCall ''subject''),
      deactivated_is ''subject'' True,
      verified ''subject'' False,
      Call (IoReactivateIdentityCall ''subject''),
      deactivated_is ''subject'' False,
      verified ''subject'' False] @
     active_count ''subject'' 0)"

definition test_deactivate_reactivate_full_lifecycle :: bool where
  "test_deactivate_reactivate_full_lifecycle \<longleftrightarrow> io_passes (io_setup @
     [anchor (filled 1), verified ''subject'' True] @ active_count ''subject'' 1 @
     deactivates ''subject'' 1 @
     [deactivated_is ''subject'' True, verified ''subject'' False] @ active_count ''subject'' 0 @
     [Call (IoReactivateIdentityCall ''subject''), deactivated_is ''subject'' False, verified ''subject'' False] @
     active_count ''subject'' 0 @
     [anchor (filled 2), verified ''subject'' True] @ active_count ''subject'' 1)"

definition test_deactivate_identity_with_no_vcs_returns_zero :: bool where
  "test_deactivate_identity_with_no_vcs_returns_zero \<longleftrightarrow> io_passes (io_admin_setup @
     [verified ''subject'' False, deactivated_is ''subject'' False] @ deactivates ''subject'' 0 @
     [deactivated_is ''subject'' True])"

section \<open>The tests pass\<close>

lemmas io_test_defs = run_defs io_passes_def io_test_exec_def io_check_def verified_def did_is_def listed_issuers_def
  deactivated_is_def stats_are_def active_count_def deactivates_def io_admin_setup_def io_setup_def anchor_def
  registry_is_def mock_registries_def mock_is_revoked_def mock_set_identity_oracle_def
  io_admin_defs io_new_def io_local_def io_anchor_did_def io_deactivate_did_def
  io_deactivate_identity_def io_anchor_vc_def io_anchor_vc_typed_def io_mark_vc_revoked_def
  io_get_admin_def io_is_paused_def io_get_revocation_registry_def validate_revocation_registry_ref_def
  io_trusted_def io_index_def io_list_issuers_def io_get_did_document_def
  io_is_deactivated_def io_is_verified_def io_get_total_vc_count_def io_get_vc_count_def
  io_get_active_vc_count_def io_list_revoked_for_subject_def io_get_vc_credential_type_def
  io_get_protocol_stats_def io_load_protocol_stats_def io_save_protocol_stats_def io_default_stats_def
  increment_dids_anchored_def increment_vcs_anchored_def increment_vcs_revoked_def
  is_record_revoked_def io_anchors_def compute_active_vc_count_def seed_active_vc_count_def
  load_active_vc_count_def record_last_state_change_def deactivate_core_def cid_starts_with_def
  cid_prefix_valid_def has_anchor_def bump_active_count_def drop_active_count_def store_credential_type_def
  get_stored_credential_type_def generic_credential_type_def checked_add_def checked_sub_def
  MAX_VCS_PER_SUBJECT_def MAX_CID_LENGTH_def

lemma identity_anchor_tests:
  "test_anchor_vc_by_trusted_issuer" "test_unregistered_issuer_fails" "test_deregister_issuer_succeeds"
  "test_deregistered_issuer_cannot_anchor_vc"
  "test_list_issuers_reflects_register_and_deregister_operations"
  "test_reregistering_deregistered_issuer_does_not_duplicate_index"
  "test_is_verified_true_after_vc_anchored" "test_vc_count_increments_correctly"
  "test_duplicate_vc_hash_same_issuer_is_noop"
  "test_get_active_vc_count_excludes_revoked"
  "test_mark_vc_revoked_panics_for_unknown_hash" "test_revoked_vc_fails_is_verified"
  "test_list_revoked_for_subject" "test_anchor_vc_typed_with_arbitrary_credential_types"
  "test_get_vc_credential_type_returns_shared_credential_type"
  unfolding test_anchor_vc_by_trusted_issuer_def test_unregistered_issuer_fails_def
    test_deregister_issuer_succeeds_def test_deregistered_issuer_cannot_anchor_vc_def
    test_list_issuers_reflects_register_and_deregister_operations_def
    test_reregistering_deregistered_issuer_does_not_duplicate_index_def
    test_is_verified_true_after_vc_anchored_def test_vc_count_increments_correctly_def
    test_duplicate_vc_hash_same_issuer_is_noop_def
    test_get_active_vc_count_excludes_revoked_def
    test_mark_vc_revoked_panics_for_unknown_hash_def test_revoked_vc_fails_is_verified_def
    test_list_revoked_for_subject_def test_anchor_vc_typed_with_arbitrary_credential_types_def
    test_get_vc_credential_type_returns_shared_credential_type_def
  by (simp_all add: io_test_defs)

text \<open>The tests that anchor in loops run by induction: \<open>f\<close> is the call for an index and \<open>g\<close> its hash.\<close>

lemma run_anchors:
  assumes x: "\<And>i s. x e (f i) s = io_anchor_vc_typed e' rq issu a (g i) (ty i) s"
  shows "ready rq e' issu m s \<Longrightarrow> m + length ns \<le> 1000 \<Longrightarrow> distinct (map g ns)
    \<Longrightarrow> (\<And>i. i \<in> set ns \<Longrightarrow> \<not> has_anchor issu (g i) (io_anchors s a))
    \<Longrightarrow> length (live (io_anchors s a)) + length ns \<le> 100
    \<Longrightarrow> \<exists>v s'. (\<forall>ss. run_steps x e u s (map (\<lambda>i. Call (f i)) ns @ ss) = run_steps x e v s' ss)
      \<and> ready rq e' issu (m + length ns) s'
      \<and> io_anchors s' a = io_anchors s a @ map (\<lambda>i. new_record e' issu (g i)) ns
      \<and> (\<forall>b. b \<noteq> a \<longrightarrow> io_anchors s' b = io_anchors s b)
      \<and> (ns \<noteq> [] \<or> io_active_vc_count s a \<noteq> None \<longrightarrow> io_active_vc_count s' a \<noteq> None)"
proof (induction ns arbitrary: u s m)
  case Nil
  then show ?case by (intro exI [of _ u] exI [of _ s]) simp
next
  case (Cons n ns)
  obtain t where t: "io_anchor_vc_typed e' rq issu a (g n) (ty n) s = Ok t" "ready rq e' issu (m + 1) t"
      "io_anchors t a = io_anchors s a @ [new_record e' issu (g n)]" "io_active_vc_count t a \<noteq> None"
      "\<forall>b. b \<noteq> a \<longrightarrow> io_anchors t b = io_anchors s b"
    using ready_anchor [OF Cons.prems(1), of "g n" a "ty n"] Cons.prems(2,4,5) by fastforce
  have fresh: "\<not> has_anchor issu (g j) (io_anchors t a)" if "j \<in> set ns" for j
    using that Cons.prems(3,4) t(3) by (force simp: has_anchor_def new_record_def)
  have "length (live (io_anchors t a)) + length ns \<le> 100" using Cons.prems(5) t(3) by (simp add: new_record_def)
  from Cons.IH [OF t(2) _ _ fresh this, of s] Cons.prems(2,3)
  obtain v s' where "\<forall>ss. run_steps x e s t (map (\<lambda>i. Call (f i)) ns @ ss) = run_steps x e v s' ss"
      "ready rq e' issu (m + 1 + length ns) s'"
      "io_anchors s' a = io_anchors t a @ map (\<lambda>i. new_record e' issu (g i)) ns"
      "\<forall>b. b \<noteq> a \<longrightarrow> io_anchors s' b = io_anchors t b"
      "ns \<noteq> [] \<or> io_active_vc_count t a \<noteq> None \<longrightarrow> io_active_vc_count s' a \<noteq> None"
    by auto
  then show ?case using t x [of n s] by (intro exI [of _ v] exI [of _ s']) (simp add: add.commute)
qed

lemma run_marks:
  assumes x: "\<And>h s. x e (f h) s = io_mark_vc_revoked e' rq issu a h s"
  shows "ready rq e' issu m s \<Longrightarrow> m + length hs \<le> 1000 \<Longrightarrow> distinct hs
    \<Longrightarrow> (\<And>h. h \<in> set hs \<Longrightarrow> has_live_anchor issu h (io_anchors s a)) \<Longrightarrow> io_active_vc_count s a \<noteq> None
    \<Longrightarrow> \<exists>v s'. (\<forall>ss. run_steps x e u s (map (\<lambda>h. Call (f h)) hs @ ss) = run_steps x e v s' ss)
      \<and> ready rq e' issu (m + length hs) s' \<and> anchor_keys (io_anchors s' a) = anchor_keys (io_anchors s a)
      \<and> length (live (io_anchors s' a)) + length hs = length (live (io_anchors s a))
      \<and> io_active_vc_count s' a \<noteq> None"
proof (induction hs arbitrary: u s m)
  case Nil
  then show ?case by (intro exI [of _ u] exI [of _ s]) simp
next
  case (Cons h hs)
  have here: "has_live_anchor issu h (io_anchors s a)" and little: "m < 1000" using Cons.prems(2,4) by auto
  obtain t where t: "io_mark_vc_revoked e' rq issu a h s = Ok t" "ready rq e' issu (m + 1) t"
      "io_anchors t a = map (mark_record issu h) (io_anchors s a)" "io_active_vc_count t a \<noteq> None"
    using ready_mark [OF Cons.prems(1) here Cons.prems(5) little] by blast
  have still: "has_live_anchor issu k (io_anchors t a)" if "k \<in> set hs" for k
  proof -
    have "k \<noteq> h" using that Cons.prems(3) by auto
    have "has_live_anchor issu k (io_anchors s a)" using Cons.prems(4) that by simp
    then obtain r where "r \<in> set (io_anchors s a)" "vc_hash_of r = k" "issuer r = issu" "\<not> revoked r"
      by (auto simp: has_live_anchor_def)
    with \<open>k \<noteq> h\<close> have "mark_record issu h r = r" "r \<in> set (io_anchors t a)"
      by (simp_all add: mark_record_def t(3) image_iff)
    with \<open>vc_hash_of r = k\<close> \<open>issuer r = issu\<close> \<open>\<not> revoked r\<close> show ?thesis by (auto simp: has_live_anchor_def)
  qed
  have one: "length (live (io_anchors s a)) = length (live (io_anchors t a)) + 1"
    using live_mark_one [of "io_anchors s a" issu h] Cons.prems(1,4) t(3) by (simp add: ready_def)
  from Cons.IH [OF t(2) _ _ still t(4), of s] Cons.prems(2,3)
  obtain v s' where "\<forall>ss. run_steps x e s t (map (\<lambda>h. Call (f h)) hs @ ss) = run_steps x e v s' ss"
      "ready rq e' issu (m + 1 + length hs) s'" "anchor_keys (io_anchors s' a) = anchor_keys (io_anchors t a)"
      "length (live (io_anchors s' a)) + length hs = length (live (io_anchors t a))"
      "io_active_vc_count s' a \<noteq> None"
    by auto
  then show ?case using t one x [of h s] by (intro exI [of _ v] exI [of _ s']) (simp add: add.commute)
qed

text \<open>Where the loops start, and how the calls of the tests run.\<close>

abbreviation io_env :: env where "io_env \<equiv> invoked_at (dp_identity test_deployment) test_env"

definition io_started :: io_state where
  "io_started = io_new\<lparr>io_admin := Some ''admin'', io_storage_version := Some 2, io_events := [IoInitialized ''admin'']\<rparr>"

definition io_registered :: io_state where
  "io_registered = io_started\<lparr>io_issuers_index := Some [''issuer''], io_trusted_issuer := [''issuer'' \<mapsto> True],
     io_events := [IoInitialized ''admin'', IssReg ''issuer'']\<rparr>"

definition io_linked :: io_state where
  "io_linked = io_registered\<lparr>io_registry_id := Some (contract_address CHR ''1'')\<rparr>"

lemma io_setup_run:
  "io_passes (io_setup @ ss) = run_steps io_test_exec test_env io_started io_registered ss"
  "run_steps io_test_exec test_env u io_registered (Call (IoSetRegistryCall (contract_address CHR ''1'')) # ss) =
     run_steps io_test_exec test_env io_registered io_linked ss"
  by (simp_all add: io_test_defs io_started_def io_registered_def io_linked_def)

lemma io_setup_ready:
  "ready mock_is_revoked io_env ''issuer'' 0 io_registered" "ready mock_is_revoked io_env ''issuer'' 0 io_linked"
  "io_anchors io_registered a = []" "io_anchors io_linked a = []"
  by (simp_all add: ready_def quiet_def io_linked_def io_registered_def io_started_def io_new_def io_is_paused_def
      io_trusted_def io_load_protocol_stats_def io_default_stats_def io_anchors_def anchor_keys_def
      mock_is_revoked_def mock_registries_def authorized_def invoked_at_def test_env_def)

lemma io_test_exec_calls:
  "io_test_exec test_env (IoAnchorVcCall i a h) s =
     io_anchor_vc_typed io_env mock_is_revoked i a h generic_credential_type s"
  "io_test_exec test_env (IoAnchorVcTypedCall i a h t) s = io_anchor_vc_typed io_env mock_is_revoked i a h t s"
  "io_test_exec test_env (IoMarkVcRevokedCall i a h) s = io_mark_vc_revoked io_env mock_is_revoked i a h s"
proof -
  have "outcome_bind (outcome_bind x (\<lambda>s'. Ok (s', ()))) (\<lambda>(s', _). Ok s') = x"
    for x :: "(io_error, io_state) outcome" by (cases x) simp_all
  then show
    "io_test_exec test_env (IoAnchorVcCall i a h) s =
       io_anchor_vc_typed io_env mock_is_revoked i a h generic_credential_type s"
    "io_test_exec test_env (IoAnchorVcTypedCall i a h t) s = io_anchor_vc_typed io_env mock_is_revoked i a h t s"
    "io_test_exec test_env (IoMarkVcRevokedCall i a h) s = io_mark_vc_revoked io_env mock_is_revoked i a h s"
    by (simp_all add: io_test_exec_def io_local_def io_anchor_vc_def)
qed

lemma byte_inj: "n \<le> 256 \<Longrightarrow> inj_on (of_nat :: nat \<Rightarrow> 8 word) {0..<n}"
  by (rule inj_onI) (simp add: word_of_nat_eq_iff take_bit_nat_eq_self)

lemma distinct_hashes:
  "n \<le> 256 \<Longrightarrow> distinct (map (\<lambda>i. tagged k (of_nat i)) [0..<n])"
  "n \<le> 256 \<Longrightarrow> distinct (map (\<lambda>i. numbered (of_nat i)) [0..<n])"
  using byte_inj by (auto simp: distinct_map inj_on_def)

lemma live_new [simp]: "live (map (\<lambda>i. new_record e issu (g i)) is) = map (\<lambda>i. new_record e issu (g i)) is"
  by (induction "is") (simp_all add: new_record_def)

lemma fresh_tag:
  "\<not> has_anchor issu (tagged k b) (map (\<lambda>i. new_record e issu (g i)) is)" if "\<And>i. i \<in> set is \<Longrightarrow> g i \<noteq> tagged k b"
  using that by (auto simp: has_anchor_def new_record_def)

lemma hundred_fill:
  assumes "\<And>i s. io_test_exec test_env (f i) s =
      io_anchor_vc_typed io_env mock_is_revoked ''issuer'' ''subject'' (tagged k (of_nat i)) (ty i) s"
  shows "\<exists>v s. (\<forall>ss. io_passes (io_setup @ map (\<lambda>i. Call (f i)) [0..<100] @ ss) = run_steps io_test_exec test_env v s ss)
    \<and> ready mock_is_revoked io_env ''issuer'' 100 s \<and> io_active_vc_count s ''subject'' \<noteq> None
    \<and> io_anchors s ''subject'' = map (\<lambda>i. new_record io_env ''issuer'' (tagged k (of_nat i))) [0..<100]"
  using run_anchors [where x = io_test_exec and e = test_env and f = f and ty = ty
      and g = "\<lambda>i. tagged k (of_nat i)", OF assms io_setup_ready(1), of "[0..<100]" io_started]
    distinct_hashes(1) [of 100 k]
  by (simp add: io_setup_run(1) io_setup_ready(3) has_anchor_def) blast

lemma identity_limit_tests:
  "test_vc_limit_reached_at_max" "test_anchor_vc_typed_vc_limit_with_credential_types"
proof -
  have full: "io_anchor_vc_typed io_env mock_is_revoked ''issuer'' ''subject'' (tagged k 101) ty s = Err VCLimitReached"
    if "ready mock_is_revoked io_env ''issuer'' 100 s"
      and a: "io_anchors s ''subject'' = map (\<lambda>i. new_record io_env ''issuer'' (tagged k (of_nat i))) [0..<100]"
    for s k ty
  proof (rule limit_reached [OF that(1)])
    show "\<not> has_anchor ''issuer'' (tagged k 101) (io_anchors s ''subject'')"
      unfolding a
    proof (rule fresh_tag)
      fix i :: nat assume "i \<in> set [0..<100]"
      then have "(of_nat i :: 8 word) \<noteq> of_nat 101"
        using inj_onD [OF byte_inj [of 256], of i 101] by auto
      then show "tagged k (of_nat i) \<noteq> tagged k 101" by simp
    qed
  qed (simp_all add: a)
  obtain v s where s: "\<forall>ss. io_passes (io_setup @ anchor_tagged 1 100 @ ss) = run_steps io_test_exec test_env v s ss"
      "ready mock_is_revoked io_env ''issuer'' 100 s"
      "io_anchors s ''subject'' = map (\<lambda>i. new_record io_env ''issuer'' (tagged 1 (of_nat i))) [0..<100]"
    using hundred_fill [OF io_test_exec_calls(1), of 1] unfolding anchor_tagged_def anchor_def by blast
  show test_vc_limit_reached_at_max
    by (simp add: test_vc_limit_reached_at_max_def s(1) io_test_exec_calls full [OF s(2,3)])
  let ?ty = "\<lambda>i :: nat. if i mod 4 = 0 then ''kyc'' else if i mod 4 = 1 then ''employment''
     else if i mod 4 = 2 then ''education'' else ''identity''"
  obtain v s where s: "\<forall>ss. io_passes (io_setup @
        map (\<lambda>i. Call (IoAnchorVcTypedCall ''issuer'' ''subject'' (tagged 10 (of_nat i)) (?ty i))) [0..<100] @ ss) =
      run_steps io_test_exec test_env v s ss"
      "ready mock_is_revoked io_env ''issuer'' 100 s"
      "io_anchors s ''subject'' = map (\<lambda>i. new_record io_env ''issuer'' (tagged 10 (of_nat i))) [0..<100]"
    using hundred_fill [OF io_test_exec_calls(2), of 10 ?ty] by blast
  show test_anchor_vc_typed_vc_limit_with_credential_types
    unfolding test_anchor_vc_typed_vc_limit_with_credential_types_def
    by (simp only: s(1)) (simp add: io_test_exec_calls full [OF s(2,3)])
qed

lemma run_active_count:
  assumes "ready rq e' issu m s" and "io_active_vc_count s a \<noteq> None" and "length (live (io_anchors s a)) = n"
    and "n < 1000"
  shows "run_steps io_test_exec e u s (active_count a (of_nat n) @ ss) = run_steps io_test_exec e s s ss"
proof -
  obtain c where c: "io_active_vc_count s a = Some c" "unat c = n" using assms(1-3) by (auto simp: ready_def)
  then have "c = of_nat n" by auto
  then show ?thesis
    using c by (simp add: active_count_def io_check_def io_get_active_vc_count_def io_test_exec_def io_local_def)
qed

lemma identity_revoked_limit_test: test_revoked_vcs_do_not_count_toward_limit
proof -
  let ?mark = "\<lambda>h. IoMarkVcRevokedCall ''issuer'' ''subject'' h"
  let ?hs = "map (\<lambda>i. tagged 2 (of_nat i)) [0..<50]"
  obtain v s where s: "\<And>ss. io_passes (io_setup @ anchor_tagged 2 100 @ ss) = run_steps io_test_exec test_env v s ss"
      "ready mock_is_revoked io_env ''issuer'' 100 s" "io_active_vc_count s ''subject'' \<noteq> None"
      "io_anchors s ''subject'' = map (\<lambda>i. new_record io_env ''issuer'' (tagged 2 (of_nat i))) [0..<100]"
    using hundred_fill [OF io_test_exec_calls(1), of 2] unfolding anchor_tagged_def anchor_def by blast
  have there: "has_live_anchor ''issuer'' h (io_anchors s ''subject'')" if "h \<in> set ?hs" for h
    using that by (auto simp: has_live_anchor_def s(4) new_record_def)
  have "distinct ?hs" using distinct_hashes(1) [of 50] by simp
  from run_marks [where x = io_test_exec and e = test_env and f = ?mark, OF io_test_exec_calls(3) s(2) _ this there s(3), of v]
  obtain v' t where t:
      "\<And>ss. run_steps io_test_exec test_env v s (map (\<lambda>h. Call (?mark h)) ?hs @ ss) = run_steps io_test_exec test_env v' t ss"
      "ready mock_is_revoked io_env ''issuer'' 150 t" "io_active_vc_count t ''subject'' \<noteq> None"
      "anchor_keys (io_anchors t ''subject'') = anchor_keys (io_anchors s ''subject'')"
      "length (live (io_anchors t ''subject'')) = 50"
    by (auto simp: s(4))
  have fresh: "\<not> has_anchor ''issuer'' (tagged 3 (of_nat i)) (io_anchors t ''subject'')" for i
    by (simp add: has_anchor_keys t(4)) (auto simp: s(4) anchor_keys_def new_record_def)
  from run_anchors [where x = io_test_exec and e = test_env and f = "\<lambda>i. IoAnchorVcCall ''issuer'' ''subject'' (tagged 3 (of_nat i))"
      and g = "\<lambda>i. tagged 3 (of_nat i)" and ns = "[0..<50]", OF io_test_exec_calls(1) t(2) _ _ fresh, of v']
    distinct_hashes(1) [of 50 3] t(5)
  obtain v'' q where q:
      "\<And>ss. run_steps io_test_exec test_env v' t (anchor_tagged 3 50 @ ss) = run_steps io_test_exec test_env v'' q ss"
      "ready mock_is_revoked io_env ''issuer'' 200 q" "io_active_vc_count q ''subject'' \<noteq> None"
      "length (live (io_anchors q ''subject'')) = 100"
    by (auto simp: anchor_tagged_def anchor_def)
  have m: "map (\<lambda>i. Call (?mark (tagged 2 (of_nat i)))) [0..<50] = map (\<lambda>h. Call (?mark h)) ?hs" by simp
  have "run_steps io_test_exec test_env v'' q (active_count ''subject'' 100 @ [])"
    using run_active_count [OF q(2,3,4), of test_env v'' "[]"] by simp
  then show ?thesis
    unfolding test_revoked_vcs_do_not_count_toward_limit_def s(1) m t(1) q(1) by simp
qed

lemma identity_did_tests:
  "test_anchor_did_stores_cid" "test_anchor_did_rejects_empty_cid"
  "test_anchor_did_rejects_single_space_cid" "test_anchor_did_rejects_invalid_prefix"
  "anchor_did_cid_validation_v0" "anchor_did_cid_validation_v1" "anchor_did_cid_validation_invalid"
  "test_anchor_did_accepts_valid_ipfs_cid" "test_get_did_document_returns_cid_after_anchor"
  "test_get_did_document_returns_none_for_unknown_subject" "test_anchor_did_overwrite"
  "test_anchor_did_accepts_exactly_65_byte_cid" "test_anchor_did_rejects_256_byte_cid"
  unfolding test_anchor_did_stores_cid_def test_anchor_did_rejects_empty_cid_def
    test_anchor_did_rejects_single_space_cid_def test_anchor_did_rejects_invalid_prefix_def
    anchor_did_cid_validation_v0_def anchor_did_cid_validation_v1_def anchor_did_cid_validation_invalid_def
    test_anchor_did_accepts_valid_ipfs_cid_def test_get_did_document_returns_cid_after_anchor_def
    test_get_did_document_returns_none_for_unknown_subject_def test_anchor_did_overwrite_def
    test_anchor_did_accepts_exactly_65_byte_cid_def test_anchor_did_rejects_256_byte_cid_def
  by (simp_all add: io_test_defs)

lemma identity_admin_tests:
  "test_upgrade_rejects_without_admin_auth" "test_initialize_sets_admin_and_emits_event"
  "test_get_admin_returns_none_until_initialized_then_admin"
  "test_is_paused_default_false_and_pause_unpause" "io_test_admin_transfer_two_step"
  "io_test_non_pending_admin_cannot_accept" "io_test_maintain_storage_succeeds_for_admin"
  "io_test_maintain_storage_fails_for_non_admin" "io_test_initialize_already_initialized"
  "test_get_revocation_registry_returns_none_after_initialize" "test_set_revocation_registry_sets_address"
  "test_set_revocation_registry_can_update"
  unfolding test_upgrade_rejects_without_admin_auth_def test_initialize_sets_admin_and_emits_event_def
    test_get_admin_returns_none_until_initialized_then_admin_def
    test_is_paused_default_false_and_pause_unpause_def io_test_admin_transfer_two_step_def
    io_test_non_pending_admin_cannot_accept_def io_test_maintain_storage_succeeds_for_admin_def
    io_test_maintain_storage_fails_for_non_admin_def io_test_initialize_already_initialized_def
    test_get_revocation_registry_returns_none_after_initialize_def
    test_set_revocation_registry_sets_address_def test_set_revocation_registry_can_update_def
  by (simp_all add: io_test_defs)

lemma identity_stats_tests:
  "io_test_protocol_stats_default_zero" "test_protocol_stats_increments_on_anchor_did"
  "test_protocol_stats_increments_on_anchor_vc" "test_protocol_stats_increments_on_mark_vc_revoked"
  "test_protocol_stats_increments_on_deactivate_did" "test_protocol_stats_no_increment_on_dedup_vc"
  unfolding io_test_protocol_stats_default_zero_def test_protocol_stats_increments_on_anchor_did_def
    test_protocol_stats_increments_on_anchor_vc_def test_protocol_stats_increments_on_mark_vc_revoked_def
    test_protocol_stats_increments_on_deactivate_did_def test_protocol_stats_no_increment_on_dedup_vc_def
  by (simp_all add: io_test_defs)

lemma identity_deactivation_tests:
  "test_deactivate_did_removes_did_and_revokes_vcs"
  "test_deactivate_did_sets_deactivated_flag_and_removes_did_document"
  "test_deactivate_identity_does_not_remove_did_document"
  "test_deactivate_identity_sets_flag_and_revokes_vcs" "test_reactivate_identity_clears_flag"
  "test_deactivate_reactivate_full_lifecycle" "test_deactivate_identity_with_no_vcs_returns_zero"
  unfolding test_deactivate_did_removes_did_and_revokes_vcs_def
    test_deactivate_did_sets_deactivated_flag_and_removes_did_document_def
    test_deactivate_identity_does_not_remove_did_document_def
    test_deactivate_identity_sets_flag_and_revokes_vcs_def test_reactivate_identity_clears_flag_def
    test_deactivate_reactivate_full_lifecycle_def test_deactivate_identity_with_no_vcs_returns_zero_def
  by (simp_all add: io_test_defs)

section \<open>The suite\<close>

definition identity_tests_pass :: bool where
  "identity_tests_pass \<longleftrightarrow>
     test_anchor_vc_by_trusted_issuer \<and>
     test_unregistered_issuer_fails \<and>
     test_deregister_issuer_succeeds \<and>
     test_deregistered_issuer_cannot_anchor_vc \<and>
     test_list_issuers_reflects_register_and_deregister_operations \<and>
     test_reregistering_deregistered_issuer_does_not_duplicate_index \<and>
     test_is_verified_true_after_vc_anchored \<and>
     test_vc_count_increments_correctly \<and>
     test_duplicate_vc_hash_same_issuer_is_noop \<and>
     test_get_active_vc_count_excludes_revoked \<and>
     test_mark_vc_revoked_panics_for_unknown_hash \<and>
     test_revoked_vc_fails_is_verified \<and>
     test_list_revoked_for_subject \<and>
     test_anchor_vc_typed_with_arbitrary_credential_types \<and>
     test_get_vc_credential_type_returns_shared_credential_type \<and>
     test_vc_limit_reached_at_max \<and>
     test_revoked_vcs_do_not_count_toward_limit \<and>
     test_anchor_vc_typed_vc_limit_with_credential_types \<and>
     test_anchor_did_stores_cid \<and>
     test_anchor_did_rejects_empty_cid \<and>
     test_anchor_did_rejects_single_space_cid \<and>
     test_anchor_did_rejects_invalid_prefix \<and>
     anchor_did_cid_validation_v0 \<and>
     anchor_did_cid_validation_v1 \<and>
     anchor_did_cid_validation_invalid \<and>
     test_anchor_did_accepts_valid_ipfs_cid \<and>
     test_get_did_document_returns_cid_after_anchor \<and>
     test_get_did_document_returns_none_for_unknown_subject \<and>
     test_anchor_did_overwrite \<and>
     test_anchor_did_accepts_exactly_65_byte_cid \<and>
     test_anchor_did_rejects_256_byte_cid \<and>
     test_upgrade_rejects_without_admin_auth \<and>
     test_initialize_sets_admin_and_emits_event \<and>
     test_get_admin_returns_none_until_initialized_then_admin \<and>
     test_is_paused_default_false_and_pause_unpause \<and>
     io_test_admin_transfer_two_step \<and>
     io_test_non_pending_admin_cannot_accept \<and>
     io_test_maintain_storage_succeeds_for_admin \<and>
     io_test_maintain_storage_fails_for_non_admin \<and>
     io_test_initialize_already_initialized \<and>
     test_get_revocation_registry_returns_none_after_initialize \<and>
     test_set_revocation_registry_sets_address \<and>
     test_set_revocation_registry_can_update \<and>
     io_test_protocol_stats_default_zero \<and>
     test_protocol_stats_increments_on_anchor_did \<and>
     test_protocol_stats_increments_on_anchor_vc \<and>
     test_protocol_stats_increments_on_mark_vc_revoked \<and>
     test_protocol_stats_increments_on_deactivate_did \<and>
     test_protocol_stats_no_increment_on_dedup_vc \<and>
     test_deactivate_did_removes_did_and_revokes_vcs \<and>
     test_deactivate_did_sets_deactivated_flag_and_removes_did_document \<and>
     test_deactivate_identity_does_not_remove_did_document \<and>
     test_deactivate_identity_sets_flag_and_revokes_vcs \<and>
     test_reactivate_identity_clears_flag \<and>
     test_deactivate_reactivate_full_lifecycle \<and>
     test_deactivate_identity_with_no_vcs_returns_zero"

lemma identity_suite: identity_tests_pass
  unfolding identity_tests_pass_def
  by (intro conjI) (fact identity_anchor_tests identity_limit_tests identity_revoked_limit_test identity_did_tests identity_admin_tests identity_stats_tests identity_deactivation_tests)+

end
