(* ===== verification/Conformance_Credit.thy ===== *)
theory Conformance_Credit
  imports Conformance
begin

text \<open>
  The tests of \<open>contracts/credit-oracle/src/lib.rs\<close>, each a bool that is true when the test passes on the
  model. The identity-oracle that some of them link is the model of the repository's, at its address in the
  deployment; the tests of the pure functions evaluate those.
\<close>

abbreviation cr :: "co_call \<Rightarrow> sys_call" where "cr \<equiv> ToCredit"

definition cr_refuses :: "co_call \<Rightarrow> credit_error \<Rightarrow> sys_step" where
  "cr_refuses c err = Refused (cr c) (FromCredit err)"

definition co_check :: "(co_state \<Rightarrow> bool) \<Rightarrow> sys_step" where
  "co_check p = Check (\<lambda>e w. p (wd_credit w))"

text \<open>The environment of a call of the credit-oracle, and the identity-oracle as it sees it.\<close>

definition co_env :: "env \<Rightarrow> env" where
  "co_env e = invoked_at (dp_credit test_deployment) e"

definition co_view :: "env \<Rightarrow> world \<Rightarrow> identity_view" where
  "co_view e w = pr_view (dp_registry test_deployment) (dp_identity test_deployment) (co_env e)
     (wd_registry w) (wd_identity w)"

text \<open>
  \<open>compute_score\<close>: what the call answers, and the call. \<open>rescores\<close> compares the answer with the score that an
  earlier call stored for \<open>b\<close> (without a linked identity-oracle a call stores the score it answers).
\<close>

definition answers_score :: "address \<Rightarrow> (u32 \<Rightarrow> bool) \<Rightarrow> env \<Rightarrow> world \<Rightarrow> bool" where
  "answers_score a p e w =
     (case co_compute_score (co_env e) (co_view e w) a (wd_credit w) of
        Ok (n, _) \<Rightarrow> p n | Err _ \<Rightarrow> False | Trap \<Rightarrow> False)"

definition answers_beside :: "address \<Rightarrow> address \<Rightarrow> (u32 \<Rightarrow> u32 \<Rightarrow> bool) \<Rightarrow> env \<Rightarrow> world \<Rightarrow> bool" where
  "answers_beside a b rel e w =
     (case co_score (wd_credit w) b of None \<Rightarrow> False | Some old \<Rightarrow> answers_score a (\<lambda>n. rel n (score old)) e w)"

definition scores :: "address \<Rightarrow> (u32 \<Rightarrow> bool) \<Rightarrow> sys_step list" where
  "scores a p = [Check (answers_score a p), Call (cr (CoComputeScoreCall a))]"

definition rescores :: "address \<Rightarrow> address \<Rightarrow> (u32 \<Rightarrow> u32 \<Rightarrow> bool) \<Rightarrow> sys_step list" where
  "rescores a b rel = [Check (answers_beside a b rel), Call (cr (CoComputeScoreCall a))]"

definition record_holds :: "address \<Rightarrow> (score_record \<Rightarrow> bool) \<Rightarrow> env \<Rightarrow> world \<Rightarrow> bool" where
  "record_holds a p e w =
     (case co_get_score (co_env e) (co_view e w) (wd_credit w) a of None \<Rightarrow> False | Some r \<Rightarrow> p r)"

definition co_record_check :: "address \<Rightarrow> (score_record \<Rightarrow> bool) \<Rightarrow> sys_step" where
  "co_record_check a p = Check (record_holds a p)"

text \<open>The events of the last call that \<open>p\<close> picks.\<close>

definition co_emits :: "(co_event \<Rightarrow> bool) \<Rightarrow> (co_event list \<Rightarrow> bool) \<Rightarrow> sys_step" where
  "co_emits p q = Emitted (\<lambda>u w. q (filter p (drop (length (co_events (wd_credit u))) (co_events (wd_credit w)))))"

definition co_setup :: "sys_step list" where
  "co_setup = [Call (cr (CoInitializeCall ''admin''))]"

definition co_feeder_setup :: "sys_step list" where
  "co_feeder_setup = co_setup @ [Call (cr (CoRegisterFeederCall ''admin'' ''feeder''))]"

definition co_lender_setup :: "sys_step list" where
  "co_lender_setup = co_setup @ [Call (cr (CoRegisterLenderCall ''admin'' ''lender''))]"

definition tx_of :: "i128 \<Rightarrow> u32 \<Rightarrow> u32 \<Rightarrow> tx_stats" where
  "tx_of v n c = \<lparr>volume_30d = v, tx_count_30d = n, avg_counterparties = c\<rparr>"

definition feed :: "address \<Rightarrow> tx_stats \<Rightarrow> sys_step" where
  "feed a t = Call (cr (CoUpdateTxStatsCall ''feeder'' a t))"

definition repay :: "address \<Rightarrow> i128 \<Rightarrow> bool \<Rightarrow> sys_step" where
  "repay a n on_time = Call (cr (CoRecordRepaymentCall ''lender'' a n on_time))"

definition co_anchor :: "vc_hash \<Rightarrow> symbol option \<Rightarrow> sys_step" where
  "co_anchor h t = Call (cr (CoAnchorVcCall ''feeder'' ''subject'' h t))"

definition co_write :: "(co_state \<Rightarrow> co_state) \<Rightarrow> sys_step" where
  "co_write f = Write (\<lambda>w. w\<lparr>wd_credit := f (wd_credit w)\<rparr>)"

section \<open>The pure functions\<close>

definition test_scoring_spec_example_1_new_user_scores_300 :: bool where
  "test_scoring_spec_example_1_new_user_scores_300 \<longleftrightarrow> compute_score_pure 0 0 0 0 0 0 40 30 30 = 300"

definition test_scoring_spec_example_2_moderate_scores_569 :: bool where
  "test_scoring_spec_example_2_moderate_scores_569 \<longleftrightarrow>
     compute_score_pure 60 3000000000 0 8 10 3000000000 40 30 30 = 569"

definition test_scoring_spec_example_3_strong_scores_817 :: bool where
  "test_scoring_spec_example_3_strong_scores_817 \<longleftrightarrow>
     compute_score_pure 100 8000000000 0 20 20 10000000000 40 30 30 = 817"

definition test_scoring_spec_perfect_scores_850 :: bool where
  "test_scoring_spec_perfect_scores_850 \<longleftrightarrow>
     compute_score_pure 100 10000000000 100 20 20 10000000000 40 30 30 = 850"

text \<open>One row of the README's table of example scores.\<close>

definition example_row :: "u32 \<Rightarrow> u32 \<Rightarrow> u32 \<Rightarrow> u32 \<Rightarrow> u32 \<Rightarrow> u32 \<Rightarrow> u32" where
  "example_row vcs volume_xlm repaid_xlm counterparties on_time total_n =
     compute_score_pure (min (saturating_mul vcs 20) 100) (ucast volume_xlm * 100000000) counterparties on_time
       total_n (ucast repaid_xlm * 100000000) 40 30 30"

definition scoring_examples :: bool where
  "scoring_examples \<longleftrightarrow>
     example_row 2 20 20 0 17 20 = 503 \<and>
     example_row 0 0 0 0 0 0 = 300 \<and>
     example_row 1 5 5 0 7 10 = 410 \<and>
     example_row 3 50 50 5 19 20 = 630 \<and>
     example_row 5 100 100 100 20 20 = 850"

definition test_recency_multiplier_full_weight_within_first_day :: bool where
  "test_recency_multiplier_full_weight_within_first_day \<longleftrightarrow>
     recency_multiplier_bps 0 0 5 5000 = 10000 \<and>
     recency_multiplier_bps 0 (SECONDS_PER_DAY - 1) 5 5000 = 10000 \<and>
     recency_multiplier_bps 0 SECONDS_PER_DAY 5 5000 = 9995"

definition test_recency_multiplier_decays_linearly_per_day :: bool where
  "test_recency_multiplier_decays_linearly_per_day \<longleftrightarrow>
     recency_multiplier_bps 0 (100 * SECONDS_PER_DAY) 5 5000 = 9500 \<and>
     recency_multiplier_bps 0 (365 * SECONDS_PER_DAY) 5 5000 = 8175"

definition test_recency_multiplier_clamps_to_floor :: bool where
  "test_recency_multiplier_clamps_to_floor \<longleftrightarrow>
     recency_multiplier_bps 0 (5000 * SECONDS_PER_DAY) 5 5000 = 5000 \<and>
     recency_multiplier_bps 0 (5000 * SECONDS_PER_DAY) 5 0 = 0"

text \<open>\<open>u32::MAX\<close> and \<open>u64::MAX\<close> are \<open>- 1\<close>.\<close>

definition test_recency_multiplier_saturates_on_extreme_inputs :: bool where
  "test_recency_multiplier_saturates_on_extreme_inputs \<longleftrightarrow>
     recency_multiplier_bps (1000 * SECONDS_PER_DAY) 0 5 5000 = 10000 \<and>
     recency_multiplier_bps 0 (- 1) (- 1) 5000 = 5000 \<and>
     recency_multiplier_bps 0 0 5 (- 1) = 10000"

definition test_apply_recency_bps_scales_points :: bool where
  "test_apply_recency_bps_scales_points \<longleftrightarrow>
     apply_recency_bps 20 10000 = 20 \<and>
     apply_recency_bps 20 5000 = 10 \<and>
     apply_recency_bps 20 9500 = 19 \<and>
     apply_recency_bps 20 0 = 0 \<and>
     apply_recency_bps (- 1) 10000 = - 1"

text \<open>The property test of issue 530, with its six random inputs as arguments.\<close>

definition proptest_younger_credentials_score_at_least_as_high ::
  "u64 \<Rightarrow> u64 \<Rightarrow> u32 \<Rightarrow> u32 \<Rightarrow> u32 \<Rightarrow> u32 \<Rightarrow> bool" where
  "proptest_younger_credentials_score_at_least_as_high younger_age extra_age decay lowest vcs type_weight \<longleftrightarrow>
     (let now = 10000 * SECONDS_PER_DAY;
          younger_anchor = now - younger_age * SECONDS_PER_DAY;
          older_anchor = now - (younger_age + extra_age) * SECONDS_PER_DAY;
          base_points = saturating_mul 20 type_weight div 100;
          vc_points_at = (\<lambda>anchored. min (saturating_mul
            (apply_recency_bps base_points (recency_multiplier_bps anchored now decay lowest)) vcs) 100);
          score_at = (\<lambda>anchored.
            compute_score_pure (vc_points_at anchored) 3000000000 7 8 10 3000000000 40 30 30)
      in older_anchor \<le> younger_anchor \<and>
         recency_multiplier_bps older_anchor now decay lowest \<le> recency_multiplier_bps younger_anchor now decay lowest \<and>
         score_at older_anchor \<le> score_at younger_anchor)"

section \<open>Feeders, lenders and their inputs\<close>

definition test_only_admin_can_register_feeder :: bool where
  "test_only_admin_can_register_feeder \<longleftrightarrow> passes (co_setup @
     [cr_refuses (CoRegisterFeederCall ''non_admin'' ''feeder'') CoNotAuthorized])"

definition test_register_lender_succeeds :: bool where
  "test_register_lender_succeeds \<longleftrightarrow> passes (co_lender_setup @
     [co_check (\<lambda>s. unwrap_or (co_trusted_lender s ''lender'') False)])"

definition test_tx_stats_stored_and_retrieved :: bool where
  "test_tx_stats_stored_and_retrieved \<longleftrightarrow> passes (co_feeder_setup @
     [feed ''subject'' (tx_of 5000 10 3),
      co_check (\<lambda>s. case co_tx_stats s ''subject'' of None \<Rightarrow> False
        | Some t \<Rightarrow> volume_30d t = 5000 \<and> tx_count_30d t = 10)])"

definition test_repayment_rate_calculated_correctly :: bool where
  "test_repayment_rate_calculated_correctly \<longleftrightarrow> passes (co_lender_setup @
     replicate 8 (repay ''subject'' 1000 True) @ replicate 2 (repay ''subject'' 1000 False) @
     [co_check (\<lambda>s. case co_repayment s ''subject'' of
        Some (StoredV2 r) \<Rightarrow> on_time_count r * 10000 div total_count r = 8000
      | Some (StoredV1 r) \<Rightarrow> False | None \<Rightarrow> False)])"

definition test_deregistered_feeder_cannot_update_tx_stats :: bool where
  "test_deregistered_feeder_cannot_update_tx_stats \<longleftrightarrow> passes (co_feeder_setup @
     [feed ''subject'' (tx_of 5000 10 3),
      Call (cr (CoDeregisterFeederCall ''admin'' ''feeder'')),
      cr_refuses (CoUpdateTxStatsCall ''feeder'' ''subject'' (tx_of 6000 11 4)) FeederNotRegistered])"

definition test_deregistered_lender_cannot_record_repayment :: bool where
  "test_deregistered_lender_cannot_record_repayment \<longleftrightarrow> passes (co_lender_setup @
     [repay ''subject'' 1000 True,
      Call (cr (CoDeregisterLenderCall ''admin'' ''lender'')),
      cr_refuses (CoRecordRepaymentCall ''lender'' ''subject'' 1000 True) LenderNotRegistered])"

definition test_record_repayment_invalid_amount :: bool where
  "test_record_repayment_invalid_amount \<longleftrightarrow> passes (co_lender_setup @
     [cr_refuses (CoRecordRepaymentCall ''lender'' ''subject'' (- 1) True) InvalidAmount,
      cr_refuses (CoRecordRepaymentCall ''lender'' ''subject'' 0 True) InvalidAmount])"

definition test_list_feeders_returns_only_currently_registered :: bool where
  "test_list_feeders_returns_only_currently_registered \<longleftrightarrow> passes (co_setup @
     [Call (cr (CoRegisterFeederCall ''admin'' ''feeder1'')),
      Call (cr (CoRegisterFeederCall ''admin'' ''feeder2'')),
      co_check (\<lambda>s. co_list_feeders s = [''feeder1'', ''feeder2'']),
      Call (cr (CoDeregisterFeederCall ''admin'' ''feeder1'')),
      co_check (\<lambda>s. co_list_feeders s = [''feeder2'']),
      co_check (\<lambda>s. length (unwrap_or (co_feeders_index s) []) = 2)])"

definition test_list_lenders_returns_only_currently_registered :: bool where
  "test_list_lenders_returns_only_currently_registered \<longleftrightarrow> passes (co_setup @
     [Call (cr (CoRegisterLenderCall ''admin'' ''lender1'')),
      Call (cr (CoRegisterLenderCall ''admin'' ''lender2'')),
      co_check (\<lambda>s. co_list_lenders s = [''lender1'', ''lender2'']),
      Call (cr (CoDeregisterLenderCall ''admin'' ''lender1'')),
      co_check (\<lambda>s. co_list_lenders s = [''lender2'']),
      co_check (\<lambda>s. length (unwrap_or (co_lenders_index s) []) = 2)])"

definition test_list_feeders_empty_index_returns_empty_vec :: bool where
  "test_list_feeders_empty_index_returns_empty_vec \<longleftrightarrow> passes (co_setup @ [co_check (\<lambda>s. co_list_feeders s = [])])"

definition test_list_lenders_empty_index_returns_empty_vec :: bool where
  "test_list_lenders_empty_index_returns_empty_vec \<longleftrightarrow> passes (co_setup @ [co_check (\<lambda>s. co_list_lenders s = [])])"

definition test_reregistering_deregistered_feeder_does_not_duplicate_index :: bool where
  "test_reregistering_deregistered_feeder_does_not_duplicate_index \<longleftrightarrow> passes (co_feeder_setup @
     [Call (cr (CoDeregisterFeederCall ''admin'' ''feeder'')),
      Call (cr (CoRegisterFeederCall ''admin'' ''feeder'')),
      co_check (\<lambda>s. co_list_feeders s = [''feeder'']),
      co_check (\<lambda>s. length (unwrap_or (co_feeders_index s) []) = 1)])"

definition test_deregister_feeder_emits_event :: bool where
  "test_deregister_feeder_emits_event \<longleftrightarrow> passes (co_feeder_setup @
     [Call (cr (CoDeregisterFeederCall ''admin'' ''feeder'')),
      co_emits (\<lambda>_. True) (\<lambda>evs. evs = [FdrDeReg ''feeder''])])"

definition test_deregister_lender_emits_event :: bool where
  "test_deregister_lender_emits_event \<longleftrightarrow> passes (co_lender_setup @
     [Call (cr (CoDeregisterLenderCall ''admin'' ''lender'')),
      co_emits (\<lambda>_. True) (\<lambda>evs. evs = [LndDeReg ''lender''])])"

text \<open>The deprecation warning of \<open>set_vc_count\<close>.\<close>

fun is_vc_count_deprecated :: "co_event \<Rightarrow> bool" where
  "is_vc_count_deprecated (VcCntDep _ _) = True"
| "is_vc_count_deprecated _ = False"

definition test_set_vc_count_emits_deprecation_event_when_oracle_configured :: bool where
  "test_set_vc_count_emits_deprecation_event_when_oracle_configured \<longleftrightarrow> passes (co_feeder_setup @
     [Call (cr (CoSetIdentityOracleCall ''admin'' (dp_identity test_deployment))),
      Call (cr (CoSetVcCountCall ''feeder'' ''subject'' 5)),
      co_emits is_vc_count_deprecated (\<lambda>evs. take 1 evs = [VcCntDep ''subject'' 5])])"

definition test_set_vc_count_does_not_emit_deprecation_event_without_oracle :: bool where
  "test_set_vc_count_does_not_emit_deprecation_event_without_oracle \<longleftrightarrow> passes (co_feeder_setup @
     [Call (cr (CoSetVcCountCall ''feeder'' ''subject'' 5)),
      co_emits is_vc_count_deprecated (\<lambda>evs. evs = [])])"

section \<open>Computing scores\<close>

definition test_compute_score_repayment_rate_does_not_overflow :: bool where
  "test_compute_score_repayment_rate_does_not_overflow \<longleftrightarrow> passes (co_setup @
     [co_write (\<lambda>s. s\<lparr>co_storage_version := Some 2, co_repayment := (co_repayment s)(''subject'' \<mapsto>
        StoredV2 \<lparr>on_time_count = 1000000, total_count = 1000000, total_repaid = 0\<rparr>)\<rparr>)] @
     scores ''subject'' (\<lambda>n. MIN_SCORE \<le> n \<and> n \<le> MAX_SCORE) @
     [co_record_check ''subject'' (\<lambda>r. repayment_rate r = 10000)])"

definition test_base_score_is_300 :: bool where
  "test_base_score_is_300 \<longleftrightarrow> passes (co_setup @ scores ''subject'' (\<lambda>n. n = MIN_SCORE))"

text \<open>The only event of the call is the score it answered.\<close>

definition score_event :: "world \<Rightarrow> world \<Rightarrow> bool" where
  "score_event u w = answers_score ''subject''
     (\<lambda>n. drop (length (co_events (wd_credit u))) (co_events (wd_credit w)) = [ScoreSet ''subject'' n]) test_env u"

definition test_compute_score_emits_score_event :: bool where
  "test_compute_score_emits_score_event \<longleftrightarrow> passes (co_setup @
     [Call (cr (CoComputeScoreCall ''subject'')),
      Emitted score_event])"

definition test_counterparty_bonus_adds_points :: bool where
  "test_counterparty_bonus_adds_points \<longleftrightarrow> passes (co_feeder_setup @
     [Call (cr (CoRegisterLenderCall ''admin'' ''lender'')),
      co_anchor (filled 0) None, co_anchor (filled 1) None, co_anchor (filled 2) None,
      feed ''subject'' (tx_of 3000000000 100 0)] @
     replicate 8 (repay ''subject'' 1000 True) @
     scores ''subject'' (\<lambda>_. True) @
     [feed ''subject'' (tx_of 3000000000 100 35),
      Ledgers 1] @
     rescores ''subject'' ''subject'' (\<lambda>with_bonus without_bonus. without_bonus < with_bonus))"

definition test_score_increases_with_repayments :: bool where
  "test_score_increases_with_repayments \<longleftrightarrow> passes (co_lender_setup @
     replicate 10 (repay ''subject'' 1000 True) @
     scores ''subject'' (\<lambda>n. MIN_SCORE < n))"

definition test_repayment_amount_affects_score :: bool where
  "test_repayment_amount_affects_score \<longleftrightarrow> passes (co_lender_setup @
     [repay ''small_subject'' 1 True, repay ''large_subject'' 10000000000 True] @
     scores ''small_subject'' (\<lambda>_. True) @
     rescores ''large_subject'' ''small_subject'' (\<lambda>large small. small < large))"

definition test_score_bounded_300_850 :: bool where
  "test_score_bounded_300_850 \<longleftrightarrow> passes (co_feeder_setup @
     [Call (cr (CoRegisterLenderCall ''admin'' ''lender''))] @
     map (\<lambda>i. co_anchor (filled i) None) [0, 1, 2, 3, 4] @
     [feed ''subject'' (tx_of 100000000000 1000 100)] @
     replicate 100 (repay ''subject'' 1000 True) @
     scores ''subject'' (\<lambda>n. MIN_SCORE \<le> n \<and> n \<le> MAX_SCORE))"

definition test_compute_score_not_initialized :: bool where
  "test_compute_score_not_initialized \<longleftrightarrow> passes
     [co_write (\<lambda>s. s\<lparr>co_admin := Some ''admin''\<rparr>),
      cr_refuses (CoComputeScoreCall ''subject'') CoNotInitialized]"

text \<open>When a stored record was last written, before and after the last call.\<close>

definition last_written :: "(u64 \<Rightarrow> u64 \<Rightarrow> bool) \<Rightarrow> sys_step" where
  "last_written rel = Emitted (\<lambda>u w. case (co_score (wd_credit u) ''subject'', co_score (wd_credit w) ''subject'') of
     (Some old, Some new) \<Rightarrow> rel (last_updated old) (last_updated new) | _ \<Rightarrow> False)"

definition test_compute_score_skips_write_when_inputs_unchanged :: bool where
  "test_compute_score_skips_write_when_inputs_unchanged \<longleftrightarrow> passes (co_setup @
     [Call (cr (CoComputeScoreCall ''subject'')),
      Ledgers 1, Seconds 100,
      Call (cr (CoComputeScoreCall ''subject'')),
      last_written (\<lambda>t1 t2. t1 = t2),
      Call (cr (CoRegisterFeederCall ''admin'' ''feeder'')),
      co_anchor (filled 1) None,
      Ledgers 1, Seconds 100,
      Call (cr (CoComputeScoreCall ''subject'')),
      last_written (\<lambda>t2 t3. t2 < t3),
      co_record_check ''subject'' (\<lambda>r. vc_count r = 1)])"

definition test_vc_type_weight_scoring :: bool where
  "test_vc_type_weight_scoring \<longleftrightarrow> passes (co_feeder_setup @
     [Call (cr (CoSetVcTypeWeightCall ''admin'' ''premium'' 200)),
      Call (cr (CoSetVcTypeWeightCall ''admin'' ''basic'' 50)),
      co_anchor (filled 0) None,
      co_anchor (filled 1) (Some ''premium''),
      co_anchor (filled 2) (Some ''basic''),
      co_anchor (filled 3) (Some ''unknown'')] @
     scores ''subject'' (\<lambda>n. n = compute_score_pure 90 0 0 0 0 0 40 30 30) @
     [co_record_check ''subject'' (\<lambda>r. vc_count r = 4)])"

definition test_recency_decay_ignored_without_identity_oracle :: bool where
  "test_recency_decay_ignored_without_identity_oracle \<longleftrightarrow> passes (co_feeder_setup @
     [Clock 1700000000] @
     map (\<lambda>i. co_anchor (filled i) None) [0, 1, 2] @
     scores ''subject'' (\<lambda>_. True) @
     [Call (cr (CoSetRecencyDecayCall ''admin'' True 5 5000)),
      Clock (1700000000 + 1825 * 86400),
      Ledgers 1] @
     rescores ''subject'' ''subject'' (\<lambda>after before. before = after))"

definition co_stats_check :: "(co_protocol_stats \<Rightarrow> bool) \<Rightarrow> sys_step" where
  "co_stats_check p = co_check (\<lambda>s. p (co_get_protocol_stats s))"

definition co_test_protocol_stats_default_zero :: bool where
  "co_test_protocol_stats_default_zero \<longleftrightarrow> passes [Signed {},
     co_stats_check (\<lambda>t. total_subjects_scored t = 0 \<and> total_repayments_recorded t = 0)]"

definition test_protocol_stats_increments_on_record_repayment :: bool where
  "test_protocol_stats_increments_on_record_repayment \<longleftrightarrow> passes (co_lender_setup @
     [repay ''subject'' 1000 True,
      co_stats_check (\<lambda>t. total_repayments_recorded t = 1),
      repay ''subject'' 1000 False,
      co_stats_check (\<lambda>t. total_repayments_recorded t = 2)])"

definition test_protocol_stats_increments_subjects_scored :: bool where
  "test_protocol_stats_increments_subjects_scored \<longleftrightarrow> passes (co_setup @
     [Call (cr (CoComputeScoreCall ''subject1'')),
      co_stats_check (\<lambda>t. total_subjects_scored t = 1),
      Call (cr (CoComputeScoreCall ''subject2'')),
      co_stats_check (\<lambda>t. total_subjects_scored t = 2)])"

definition test_protocol_stats_no_double_count_recompute :: bool where
  "test_protocol_stats_no_double_count_recompute \<longleftrightarrow> passes (co_setup @
     [Call (cr (CoComputeScoreCall ''subject'')),
      co_stats_check (\<lambda>t. total_subjects_scored t = 1),
      Ledgers 1,
      Call (cr (CoComputeScoreCall ''subject'')),
      co_stats_check (\<lambda>t. total_subjects_scored t = 1)])"

section \<open>Weights\<close>

definition co_active_weights :: "(scoring_weights \<Rightarrow> bool) \<Rightarrow> sys_step" where
  "co_active_weights p = co_check (\<lambda>s. case co_get_scoring_weights s of Ok x \<Rightarrow> p x | Err _ \<Rightarrow> False | Trap \<Rightarrow> False)"

definition test_default_weights_sum_to_100 :: bool where
  "test_default_weights_sum_to_100 \<longleftrightarrow> passes (co_setup @
     [co_active_weights (\<lambda>x. vc_weight x + tx_weight x + repayment_weight x = 100)])"

definition test_weights_must_sum_to_100 :: bool where
  "test_weights_must_sum_to_100 \<longleftrightarrow> passes (co_setup @
     [cr_refuses (CoProposeWeightsCall (weights 40 40 40)) CoInvalidWeights,
      cr_refuses (CoProposeWeightsCall (weights 9 45 46)) CoInvalidWeights,
      cr_refuses (CoProposeWeightsCall (weights 55 0 45)) CoInvalidWeights,
      cr_refuses (CoProposeWeightsCall (weights 45 46 9)) CoInvalidWeights,
      Call (cr (CoProposeWeightsCall (weights 50 10 40)))])"

definition test_propose_weights_unchanged_until_applied :: bool where
  "test_propose_weights_unchanged_until_applied \<longleftrightarrow> passes (co_setup @
     [co_active_weights (\<lambda>x. vc_weight x = 40),
      Call (cr (CoProposeWeightsCall (weights 50 30 20))),
      co_active_weights (\<lambda>x. vc_weight x = 40)])"

definition test_get_pending_weights_returns_correct_record :: bool where
  "test_get_pending_weights_returns_correct_record \<longleftrightarrow> passes (co_setup @
     [Call (cr (CoProposeWeightsCall (weights 50 30 20))),
      Check (\<lambda>e w. case co_get_pending_weights (wd_credit w) of
         Ok (Some r) \<Rightarrow> pw_weights r = weights 50 30 20 \<and> pw_effective_ledger r = ledger_sequence e + TIMELOCK_LEDGERS
       | Ok None \<Rightarrow> False | Err _ \<Rightarrow> False | Trap \<Rightarrow> False)])"

definition test_apply_weights_before_timelock_fails :: bool where
  "test_apply_weights_before_timelock_fails \<longleftrightarrow> passes (co_setup @
     [Call (cr (CoProposeWeightsCall (weights 50 30 20))),
      cr_refuses CoApplyWeightsCall CoTimelockNotExpired])"

definition test_apply_weights_with_no_pending_weights_fails :: bool where
  "test_apply_weights_with_no_pending_weights_fails \<longleftrightarrow> passes (co_setup @
     [cr_refuses CoApplyWeightsCall CoNoPendingWeights])"

definition test_apply_weights_after_timelock_succeeds :: bool where
  "test_apply_weights_after_timelock_succeeds \<longleftrightarrow> passes (co_setup @
     [Call (cr (CoProposeWeightsCall (weights 50 25 25))),
      Ledgers (TIMELOCK_LEDGERS + 2),
      Call (cr CoApplyWeightsCall),
      co_active_weights (\<lambda>x. x = weights 50 25 25)])"

definition test_counterparty_bonus_zero_when_tx_weight_is_zero :: bool where
  "test_counterparty_bonus_zero_when_tx_weight_is_zero \<longleftrightarrow>
     passes (co_setup @ [cr_refuses (CoProposeWeightsCall (weights 60 0 40)) CoInvalidWeights]) \<and>
     compute_score_pure 0 0 100 0 0 0 60 0 40 = compute_score_pure 0 0 0 0 0 0 60 0 40"

definition test_counterparty_bonus_applied_when_tx_weight_is_high :: bool where
  "test_counterparty_bonus_applied_when_tx_weight_is_high \<longleftrightarrow> passes (co_setup @
     [Call (cr (CoProposeWeightsCall (weights 10 80 10))),
      Ledgers (TIMELOCK_LEDGERS + 2),
      Call (cr CoApplyWeightsCall),
      Call (cr (CoRegisterFeederCall ''admin'' ''feeder'')),
      feed ''subject_with'' (tx_of 0 0 100),
      feed ''subject_without'' (tx_of 0 0 0)] @
     scores ''subject_with'' (\<lambda>_. True) @
     rescores ''subject_without'' ''subject_with'' (\<lambda>without with_bonus. without < with_bonus))"

section \<open>Administration and configuration\<close>

definition test_upgrade_rejects_non_admin :: bool where
  "test_upgrade_rejects_non_admin \<longleftrightarrow> passes (co_setup @
     [cr_refuses (CoUpgradeCall ''non_admin'' (filled 0)) CoNotAuthorized])"

definition test_get_identity_oracle_returns_none_when_not_configured :: bool where
  "test_get_identity_oracle_returns_none_when_not_configured \<longleftrightarrow> passes (co_setup @
     [co_check (\<lambda>s. co_get_identity_oracle s = None)])"

definition test_set_and_get_identity_oracle :: bool where
  "test_set_and_get_identity_oracle \<longleftrightarrow> passes (co_setup @
     [Call (cr (CoSetIdentityOracleCall ''admin'' (dp_identity test_deployment))),
      co_check (\<lambda>s. co_get_identity_oracle s = Some (dp_identity test_deployment))])"

fun is_identity_oracle_updated :: "co_event \<Rightarrow> bool" where
  "is_identity_oracle_updated (IdentityOracleUpdated _) = True"
| "is_identity_oracle_updated _ = False"

definition test_set_identity_oracle_emits_descriptive_event :: bool where
  "test_set_identity_oracle_emits_descriptive_event \<longleftrightarrow> passes (co_setup @
     [Call (cr (CoSetIdentityOracleCall ''admin'' (dp_identity test_deployment))),
      co_emits is_identity_oracle_updated (\<lambda>evs. evs = [IdentityOracleUpdated (dp_identity test_deployment)])])"

definition co_test_admin_transfer_two_step :: bool where
  "co_test_admin_transfer_two_step \<longleftrightarrow> passes
     [Call (cr (CoInitializeCall ''admin1'')),
      Call (cr (CoProposeAdminCall ''admin2'')),
      Call (cr (CoAcceptAdminCall ''admin2'')),
      Call (cr (CoRegisterFeederCall ''admin2'' ''feeder'')),
      cr_refuses (CoRegisterFeederCall ''admin1'' ''feeder2'') CoNotAuthorized]"

definition co_test_non_pending_admin_cannot_accept :: bool where
  "co_test_non_pending_admin_cannot_accept \<longleftrightarrow> passes
     [Call (cr (CoInitializeCall ''admin1'')),
      Call (cr (CoProposeAdminCall ''admin2'')),
      cr_refuses (CoAcceptAdminCall ''non_admin'') CoNotAuthorized]"

definition governance_is :: "address option \<Rightarrow> sys_step" where
  "governance_is a = co_check (\<lambda>s. co_get_governance s = a)"

definition admin_is :: "address option \<Rightarrow> sys_step" where
  "admin_is a = co_check (\<lambda>s. co_get_admin s = a)"

definition test_get_governance_returns_none_when_not_configured :: bool where
  "test_get_governance_returns_none_when_not_configured \<longleftrightarrow> passes
     [governance_is None, Call (cr (CoInitializeCall ''admin'')), governance_is None]"

definition test_get_governance_set_when_contract_accepts_admin :: bool where
  "test_get_governance_set_when_contract_accepts_admin \<longleftrightarrow> passes (co_setup @
     [Call (cr (CoProposeAdminCall (contract_address CHR ''1''))),
      governance_is None,
      Call (cr (CoAcceptAdminCall (contract_address CHR ''1''))),
      governance_is (Some (contract_address CHR ''1'')),
      admin_is (Some (contract_address CHR ''1''))])"

definition test_get_governance_not_set_when_account_accepts_admin :: bool where
  "test_get_governance_not_set_when_account_accepts_admin \<longleftrightarrow> passes (co_setup @
     [Call (cr (CoProposeAdminCall (account_address CHR ''1''))),
      Call (cr (CoAcceptAdminCall (account_address CHR ''1''))),
      admin_is (Some (account_address CHR ''1'')),
      governance_is None])"

definition test_get_governance_cleared_when_admin_returns_to_account :: bool where
  "test_get_governance_cleared_when_admin_returns_to_account \<longleftrightarrow> passes (co_setup @
     [Call (cr (CoProposeAdminCall (contract_address CHR ''1''))),
      Call (cr (CoAcceptAdminCall (contract_address CHR ''1''))),
      governance_is (Some (contract_address CHR ''1'')),
      Call (cr (CoProposeAdminCall (account_address CHR ''2''))),
      Call (cr (CoAcceptAdminCall (account_address CHR ''2''))),
      admin_is (Some (account_address CHR ''2'')),
      governance_is None])"

definition recency_is :: "bool \<Rightarrow> u32 \<Rightarrow> u32 \<Rightarrow> sys_step" where
  "recency_is on d m = co_check (\<lambda>s. co_get_recency_decay s =
     \<lparr>rd_enabled = on, rd_decay_bps_per_day = d, rd_min_recency_bps = m\<rparr>)"

definition test_get_recency_decay_defaults_to_disabled :: bool where
  "test_get_recency_decay_defaults_to_disabled \<longleftrightarrow> passes (co_setup @
     [recency_is False DEFAULT_DECAY_BPS_PER_DAY DEFAULT_MIN_RECENCY_BPS])"

definition test_compute_cooldown_getter_and_setter :: bool where
  "test_compute_cooldown_getter_and_setter \<longleftrightarrow> passes (co_setup @
     [co_check (\<lambda>s. co_get_compute_cooldown_ledgers s = 1),
      Call (cr (CoSetCooldownCall ''admin'' 100)),
      co_check (\<lambda>s. co_get_compute_cooldown_ledgers s = 100)])"

definition test_compute_cooldown_setter_rejects_invalid_values :: bool where
  "test_compute_cooldown_setter_rejects_invalid_values \<longleftrightarrow> passes (co_setup @
     [cr_refuses (CoSetCooldownCall ''admin'' 0) InvalidComputeCooldown,
      cr_refuses (CoSetCooldownCall ''admin'' (MAX_COMPUTE_COOLDOWN_LEDGERS + 1)) InvalidComputeCooldown])"

definition test_set_recency_decay_stores_config :: bool where
  "test_set_recency_decay_stores_config \<longleftrightarrow> passes (co_setup @
     [Call (cr (CoSetRecencyDecayCall ''admin'' True 10 2500)),
      recency_is True 10 2500])"

definition test_set_recency_decay_rejects_non_admin :: bool where
  "test_set_recency_decay_rejects_non_admin \<longleftrightarrow> passes (co_setup @
     [cr_refuses (CoSetRecencyDecayCall ''non_admin'' True 5 5000) CoNotAuthorized])"

definition test_set_recency_decay_rejects_floor_above_full_weight :: bool where
  "test_set_recency_decay_rejects_floor_above_full_weight \<longleftrightarrow> passes (co_setup @
     [cr_refuses (CoSetRecencyDecayCall ''admin'' True 5 10001) InvalidRecencyConfig,
      co_check (\<lambda>s. \<not> rd_enabled (co_get_recency_decay s))])"

section \<open>Disputes\<close>

definition dispute_check :: "symbol \<Rightarrow> (env \<Rightarrow> dispute_record \<Rightarrow> bool) \<Rightarrow> sys_step" where
  "dispute_check k p = Check (\<lambda>e w. case co_get_dispute (wd_credit w) ''subject'' k of None \<Rightarrow> False | Some r \<Rightarrow> p e r)"

definition flag :: "symbol \<Rightarrow> string \<Rightarrow> sys_step" where
  "flag k r = Call (cr (CoFlagCall ''subject'' k r))"

definition resolve :: "symbol \<Rightarrow> bool \<Rightarrow> sys_step" where
  "resolve k b = Call (cr (CoResolveCall ''subject'' k b))"

definition test_flag_score_input_stores_pending_dispute :: bool where
  "test_flag_score_input_stores_pending_dispute \<longleftrightarrow> passes (co_setup @
     [flag ''tx_stats'' ''Volume looks inflated'',
      dispute_check ''tx_stats'' (\<lambda>e r. dr_subject r = ''subject'' \<and> dr_input_key r = ''tx_stats'' \<and>
        dr_status r = Pending \<and> dr_filed_at_ledger r = ledger_sequence e)])"

definition flag_score_input_invalid_key :: bool where
  "flag_score_input_invalid_key \<longleftrightarrow> passes (co_setup @
     [cr_refuses (CoFlagCall ''subject'' ''invalid'' ''test'') InvalidInputKey])"

definition test_flag_score_input_rejects_duplicate_pending :: bool where
  "test_flag_score_input_rejects_duplicate_pending \<longleftrightarrow> passes (co_setup @
     [flag ''repayment'' ''Repayment not recorded'',
      cr_refuses (CoFlagCall ''subject'' ''repayment'' ''Repayment not recorded'') DisputeAlreadyPending])"

definition test_resolve_dispute_accepted :: bool where
  "test_resolve_dispute_accepted \<longleftrightarrow> passes (co_setup @
     [flag ''vc_count'' ''VC count is wrong'',
      resolve ''vc_count'' True,
      dispute_check ''vc_count'' (\<lambda>e r. dr_status r = Resolved)])"

definition test_resolve_dispute_rejected :: bool where
  "test_resolve_dispute_rejected \<longleftrightarrow> passes (co_setup @
     [flag ''tx_stats'' ''Tx volume wrong'',
      resolve ''tx_stats'' False,
      dispute_check ''tx_stats'' (\<lambda>e r. dr_status r = Rejected)])"

definition test_resolve_nonexistent_dispute_fails :: bool where
  "test_resolve_nonexistent_dispute_fails \<longleftrightarrow> passes (co_setup @
     [cr_refuses (CoResolveCall ''subject'' ''repayment'' True) DisputeNotFound])"

definition test_resolve_already_resolved_dispute_fails :: bool where
  "test_resolve_already_resolved_dispute_fails \<longleftrightarrow> passes (co_setup @
     [flag ''repayment'' ''test'',
      resolve ''repayment'' True,
      cr_refuses (CoResolveCall ''subject'' ''repayment'' True) DisputeNotFound])"

definition test_new_dispute_allowed_after_resolution :: bool where
  "test_new_dispute_allowed_after_resolution \<longleftrightarrow> passes (co_setup @
     [flag ''tx_stats'' ''First dispute'',
      resolve ''tx_stats'' False,
      flag ''tx_stats'' ''Still wrong after review'',
      dispute_check ''tx_stats'' (\<lambda>e r. dr_status r = Pending)])"

definition test_list_disputes_returns_all_filed :: bool where
  "test_list_disputes_returns_all_filed \<longleftrightarrow> passes (co_setup @
     [flag ''tx_stats'' ''reason'', flag ''repayment'' ''reason'',
      co_check (\<lambda>s. length (co_list_disputes s ''subject'') = 2)])"

definition test_list_disputes_empty_for_new_subject :: bool where
  "test_list_disputes_empty_for_new_subject \<longleftrightarrow> passes (co_setup @
     [co_check (\<lambda>s. co_list_disputes s ''subject'' = [])])"

definition test_get_dispute_returns_none_when_no_dispute :: bool where
  "test_get_dispute_returns_none_when_no_dispute \<longleftrightarrow> passes (co_setup @
     [co_check (\<lambda>s. co_get_dispute s ''subject'' ''vc_count'' = None)])"

fun is_dispute_filed :: "co_event \<Rightarrow> bool" where
  "is_dispute_filed (DsptFild _ _) = True"
| "is_dispute_filed _ = False"

definition test_flag_score_input_emits_event :: bool where
  "test_flag_score_input_emits_event \<longleftrightarrow> passes (co_setup @
     [flag ''tx_stats'' ''inflated volume'',
      co_emits is_dispute_filed (\<lambda>evs. length evs = 1)])"

section \<open>The tests pass\<close>

text \<open>A score is evaluated by the published formula.\<close>

lemma score_value:
  "compute_score_pure vp vol avg n t rep a b c =
     of_nat (score_spec (unat vp) (sint vol) (unat avg) (unat n) (unat t) (sint rep) (unat a) (unat b) (unat c))"
  by (simp flip: unat_compute_score_pure)

text \<open>A computation evaluates the score once, and records it.\<close>

definition record_score ::
  "env \<Rightarrow> address \<Rightarrow> u32 \<Rightarrow> u32 \<Rightarrow> u32 \<Rightarrow> i128 \<Rightarrow> co_state \<Rightarrow> (credit_error, u32 \<times> co_state) outcome" where
  "record_score e a sc count rate vol s =
     outcome_bind
       (case co_score s a of
          None \<Rightarrow> outcome_bind (expect (increment_subjects_scored s)) (\<lambda>s1.
            Ok (s1\<lparr>co_score := (co_score s1)(a \<mapsto>
              \<lparr>score = sc, last_updated = ledger_timestamp e, vc_count = count, repayment_rate = rate,
               tx_volume_30d = vol, previous_score = None, computed_at_ledger = ledger_sequence e, stale = False\<rparr>)\<rparr>))
        | Some p \<Rightarrow>
            if score p = sc \<and> vc_count p = count \<and> repayment_rate p = rate \<and> tx_volume_30d p = vol then Ok s
            else Ok (s\<lparr>co_score := (co_score s)(a \<mapsto>
              \<lparr>score = sc, last_updated = ledger_timestamp e, vc_count = count, repayment_rate = rate,
               tx_volume_30d = vol, previous_score = Some (score p), computed_at_ledger = ledger_sequence e,
               stale = False\<rparr>)\<rparr>))
       (\<lambda>s2. Ok (sc, co_publish (ScoreSet a sc) s2))"

lemma finish_score_records:
  "finish_score e a r points count s = outcome_bind (ok_or (co_config s) CoNotInitialized) (\<lambda>x.
     record_score e a
       (compute_score_pure (min points 100) (volume_30d (load_tx_stats s a)) (avg_counterparties (load_tx_stats s a))
          (on_time_count r) (total_count r) (total_repaid r) (vc_weight x) (tx_weight x) (repayment_weight x))
       count (rate_bps r) (volume_30d (load_tx_stats s a)) s)"
  by (cases "co_config s"; cases "co_score s a") (simp_all add: finish_score_def record_score_def Let_def)

lemmas score_spec_defs = score_value score_spec_def final_spec_def composite_spec_def tx_spec_def repay_spec_def
  rate_spec_def capped_volume_def

lemmas co_test_defs = run_defs credit_admin_defs cr_refuses_def co_check_def co_env_def co_view_def scores_def
  rescores_def answers_score_def answers_beside_def score_event_def co_record_check_def record_holds_def co_emits_def co_setup_def co_feeder_setup_def co_lender_setup_def
  tx_of_def feed_def repay_def co_anchor_def co_write_def co_stats_check_def last_written_def
  co_active_weights_def governance_is_def admin_is_def recency_is_def dispute_check_def flag_def resolve_def
  co_set_compute_cooldown_ledgers_def co_set_vc_type_weight_def co_set_recency_decay_def co_upgrade_def
  co_register_feeder_def co_deregister_feeder_def co_register_lender_def co_deregister_lender_def
  co_update_tx_stats_def co_set_vc_count_def co_anchor_vc_def co_record_repayment_def co_set_identity_oracle_def
  co_flag_score_input_def co_resolve_dispute_def co_compute_score_def co_get_score_def finish_score_records record_score_def
  check_compute_cooldown_def load_repayment_def load_tx_stats_def load_recency_config_def local_points_def
  rate_bps_def type_points_def read_repayment_v1_def read_repayment_v2_def bump_v1_def bump_v2_def
  increment_repayments_recorded_def increment_subjects_scored_def co_load_protocol_stats_def
  co_save_protocol_stats_def co_default_stats_def feeders_index_def lenders_index_def is_trusted_feeder_def
  is_trusted_lender_def co_list_feeders_eq co_list_lenders_eq co_get_vc_list_def co_get_dispute_def
  co_list_disputes_def dispute_keys_def dispute_index_def co_get_protocol_stats_def
  co_get_identity_oracle_def co_get_admin_def co_get_governance_def co_get_recency_decay_def
  co_get_compute_cooldown_ledgers_def is_valid_def MIN_COMPONENT_WEIGHT_def checked_add_def checked_div_def
  saturating_add_def saturating_sub_def saturating_mul_def i128_saturating_add_def scoring_constants
  MAX_COMPUTE_COOLDOWN_LEDGERS_def STALE_LEDGER_AGE_def
  pr_probe_def io_get_active_vc_count_def seed_active_vc_count_def compute_active_vc_count_def io_anchors_def
  score_spec_defs

text \<open>The continuation of an operation is simplified once its first part has a value.\<close>

lemma outcome_bind_later: "m = m' \<Longrightarrow> outcome_bind m f = outcome_bind m' f"
  by simp

lemma replicate_numeral [simp]: "replicate (numeral k) x = x # replicate (pred_numeral k) x"
  by (simp add: numeral_eq_Suc)

lemma recency_multiplier_eq:
  "recency_multiplier_bps a n r m = c \<longleftrightarrow> recency_spec (unat a) (unat n) (unat r) (unat m) = unat c"
  by (simp add: word_unat_eq_iff unat_recency_multiplier)

lemma apply_recency_eq:
  "unat b \<le> 10000 \<Longrightarrow> apply_recency_bps p b = c \<longleftrightarrow> unat p * unat b div 10000 = unat c"
  by (simp add: word_unat_eq_iff unat_apply_recency)

lemma credit_recency_tests:
  "test_recency_multiplier_full_weight_within_first_day" "test_recency_multiplier_decays_linearly_per_day"
  "test_recency_multiplier_clamps_to_floor" "test_recency_multiplier_saturates_on_extreme_inputs"
  "test_apply_recency_bps_scales_points"
  unfolding test_recency_multiplier_full_weight_within_first_day_def
    test_recency_multiplier_decays_linearly_per_day_def test_recency_multiplier_clamps_to_floor_def
    test_recency_multiplier_saturates_on_extreme_inputs_def test_apply_recency_bps_scales_points_def
  by (simp_all add: recency_multiplier_eq apply_recency_eq recency_spec_def SECONDS_PER_DAY_def unat_max_word)

lemma credit_pure_tests:
  "test_scoring_spec_example_1_new_user_scores_300" "test_scoring_spec_example_2_moderate_scores_569"
  "test_scoring_spec_example_3_strong_scores_817" "test_scoring_spec_perfect_scores_850" "scoring_examples"
  unfolding test_scoring_spec_example_1_new_user_scores_300_def
    test_scoring_spec_example_2_moderate_scores_569_def test_scoring_spec_example_3_strong_scores_817_def
    test_scoring_spec_perfect_scores_850_def scoring_examples_def
  by (simp_all add: co_test_defs example_row_def)

lemma credit_input_tests:
  "test_only_admin_can_register_feeder" "test_register_lender_succeeds" "test_tx_stats_stored_and_retrieved"
  "test_repayment_rate_calculated_correctly" "test_deregistered_feeder_cannot_update_tx_stats"
  "test_deregistered_lender_cannot_record_repayment" "test_record_repayment_invalid_amount"
  "test_list_feeders_returns_only_currently_registered"
  "test_list_lenders_returns_only_currently_registered" "test_list_feeders_empty_index_returns_empty_vec"
  "test_list_lenders_empty_index_returns_empty_vec"
  "test_reregistering_deregistered_feeder_does_not_duplicate_index" "test_deregister_feeder_emits_event"
  "test_deregister_lender_emits_event" "test_set_vc_count_emits_deprecation_event_when_oracle_configured"
  "test_set_vc_count_does_not_emit_deprecation_event_without_oracle"
  unfolding test_only_admin_can_register_feeder_def test_register_lender_succeeds_def
    test_tx_stats_stored_and_retrieved_def test_repayment_rate_calculated_correctly_def
    test_deregistered_feeder_cannot_update_tx_stats_def test_deregistered_lender_cannot_record_repayment_def
    test_record_repayment_invalid_amount_def test_list_feeders_returns_only_currently_registered_def
    test_list_lenders_returns_only_currently_registered_def
    test_list_feeders_empty_index_returns_empty_vec_def test_list_lenders_empty_index_returns_empty_vec_def
    test_reregistering_deregistered_feeder_does_not_duplicate_index_def
    test_deregister_feeder_emits_event_def test_deregister_lender_emits_event_def
    test_set_vc_count_emits_deprecation_event_when_oracle_configured_def
    test_set_vc_count_does_not_emit_deprecation_event_without_oracle_def
  by (simp_all add: co_test_defs io_new_def cong: outcome_bind_later)

lemma credit_score_tests:
  "test_compute_score_repayment_rate_does_not_overflow" "test_base_score_is_300"
  "test_compute_score_emits_score_event" "test_counterparty_bonus_adds_points"
  "test_score_increases_with_repayments" "test_repayment_amount_affects_score"
  "test_compute_score_not_initialized" "test_compute_score_skips_write_when_inputs_unchanged"
  "test_vc_type_weight_scoring" "test_recency_decay_ignored_without_identity_oracle"
  "co_test_protocol_stats_default_zero" "test_protocol_stats_increments_on_record_repayment"
  "test_protocol_stats_increments_subjects_scored" "test_protocol_stats_no_double_count_recompute"
  unfolding test_compute_score_repayment_rate_does_not_overflow_def test_base_score_is_300_def
    test_compute_score_emits_score_event_def test_counterparty_bonus_adds_points_def
    test_score_increases_with_repayments_def test_repayment_amount_affects_score_def
    test_compute_score_not_initialized_def
    test_compute_score_skips_write_when_inputs_unchanged_def test_vc_type_weight_scoring_def
    test_recency_decay_ignored_without_identity_oracle_def co_test_protocol_stats_default_zero_def
    test_protocol_stats_increments_on_record_repayment_def
    test_protocol_stats_increments_subjects_scored_def test_protocol_stats_no_double_count_recompute_def
  by (simp_all add: co_test_defs cong: outcome_bind_later)

lemma credit_weight_tests:
  "test_default_weights_sum_to_100" "test_weights_must_sum_to_100"
  "test_propose_weights_unchanged_until_applied" "test_get_pending_weights_returns_correct_record"
  "test_apply_weights_before_timelock_fails" "test_apply_weights_with_no_pending_weights_fails"
  "test_apply_weights_after_timelock_succeeds" "test_counterparty_bonus_zero_when_tx_weight_is_zero"
  "test_counterparty_bonus_applied_when_tx_weight_is_high"
  unfolding test_default_weights_sum_to_100_def test_weights_must_sum_to_100_def
    test_propose_weights_unchanged_until_applied_def test_get_pending_weights_returns_correct_record_def
    test_apply_weights_before_timelock_fails_def test_apply_weights_with_no_pending_weights_fails_def
    test_apply_weights_after_timelock_succeeds_def test_counterparty_bonus_zero_when_tx_weight_is_zero_def
    test_counterparty_bonus_applied_when_tx_weight_is_high_def
  by (simp_all add: co_test_defs cong: outcome_bind_later)

lemma credit_admin_tests:
  "test_upgrade_rejects_non_admin" "test_get_identity_oracle_returns_none_when_not_configured"
  "test_set_and_get_identity_oracle" "test_set_identity_oracle_emits_descriptive_event"
  "co_test_admin_transfer_two_step" "co_test_non_pending_admin_cannot_accept"
  "test_get_governance_returns_none_when_not_configured"
  "test_get_governance_set_when_contract_accepts_admin"
  "test_get_governance_not_set_when_account_accepts_admin"
  "test_get_governance_cleared_when_admin_returns_to_account" "test_get_recency_decay_defaults_to_disabled"
  "test_compute_cooldown_getter_and_setter" "test_compute_cooldown_setter_rejects_invalid_values"
  "test_set_recency_decay_stores_config" "test_set_recency_decay_rejects_non_admin"
  "test_set_recency_decay_rejects_floor_above_full_weight"
  unfolding test_upgrade_rejects_non_admin_def test_get_identity_oracle_returns_none_when_not_configured_def
    test_set_and_get_identity_oracle_def test_set_identity_oracle_emits_descriptive_event_def
    co_test_admin_transfer_two_step_def co_test_non_pending_admin_cannot_accept_def
    test_get_governance_returns_none_when_not_configured_def
    test_get_governance_set_when_contract_accepts_admin_def
    test_get_governance_not_set_when_account_accepts_admin_def
    test_get_governance_cleared_when_admin_returns_to_account_def
    test_get_recency_decay_defaults_to_disabled_def test_compute_cooldown_getter_and_setter_def
    test_compute_cooldown_setter_rejects_invalid_values_def test_set_recency_decay_stores_config_def
    test_set_recency_decay_rejects_non_admin_def test_set_recency_decay_rejects_floor_above_full_weight_def
  by (simp_all add: co_test_defs io_new_def cong: outcome_bind_later)

lemma credit_dispute_tests:
  "test_flag_score_input_stores_pending_dispute" "flag_score_input_invalid_key"
  "test_flag_score_input_rejects_duplicate_pending" "test_resolve_dispute_accepted"
  "test_resolve_dispute_rejected" "test_resolve_nonexistent_dispute_fails"
  "test_resolve_already_resolved_dispute_fails" "test_new_dispute_allowed_after_resolution"
  "test_list_disputes_returns_all_filed" "test_list_disputes_empty_for_new_subject"
  "test_get_dispute_returns_none_when_no_dispute" "test_flag_score_input_emits_event"
  unfolding test_flag_score_input_stores_pending_dispute_def flag_score_input_invalid_key_def
    test_flag_score_input_rejects_duplicate_pending_def test_resolve_dispute_accepted_def
    test_resolve_dispute_rejected_def test_resolve_nonexistent_dispute_fails_def
    test_resolve_already_resolved_dispute_fails_def test_new_dispute_allowed_after_resolution_def
    test_list_disputes_returns_all_filed_def test_list_disputes_empty_for_new_subject_def
    test_get_dispute_returns_none_when_no_dispute_def test_flag_score_input_emits_event_def
  by (simp_all add: co_test_defs cong: outcome_bind_later)

subsection \<open>A hundred repayments\<close>

text \<open>What repayments change: the record of the subject and the counter of repayments.\<close>

definition repaid :: "nat \<Rightarrow> world \<Rightarrow> world \<Rightarrow> bool" where
  "repaid n w w' \<longleftrightarrow> (\<exists>m t. w' = w\<lparr>wd_credit := (wd_credit w)\<lparr>co_repayment := m, co_stats := Some t\<rparr>\<rparr>
     \<and> total_subjects_scored t = 0 \<and> unat (total_repayments_recorded t) \<le> n
     \<and> (\<exists>r. m ''subject'' = Some (StoredV2 r)))"

lemma run_repayments:
  assumes "co_paused (wd_credit w) = None" and "co_trusted_lender (wd_credit w) ''lender'' = Some True"
    and "co_storage_version (wd_credit w) = Some 2"
  shows "repaid m w w1 \<Longrightarrow> m + n \<le> 1000 \<Longrightarrow> \<exists>v w2. (\<forall>ss. run_steps (sys_exec test_deployment) test_env u w1
      (replicate n (repay ''subject'' 1000 True) @ ss) = run_steps (sys_exec test_deployment) test_env v w2 ss)
    \<and> repaid (m + n) w w2"
proof (induction n arbitrary: u w1 m)
  case 0
  then show ?case by auto
next
  case (Suc n)
  obtain k t r where w1: "w1 = w\<lparr>wd_credit := (wd_credit w)\<lparr>co_repayment := k, co_stats := Some t\<rparr>\<rparr>"
      "total_subjects_scored t = 0" "unat (total_repayments_recorded t) \<le> m" "k ''subject'' = Some (StoredV2 r)"
    using Suc.prems by (auto simp: repaid_def)
  obtain c where c: "checked_add (total_repayments_recorded t) 1 = Some c"
    using w1(3) Suc.prems by (auto simp: checked_add_def)
  define w2 where "w2 = w\<lparr>wd_credit := (wd_credit w)\<lparr>co_repayment := k(''subject'' \<mapsto> StoredV2 (bump_v2 1000 True r)),
     co_stats := Some (t\<lparr>total_repayments_recorded := c\<rparr>)\<rparr>\<rparr>"
  have one: "sys_exec test_deployment test_env
      (cr (CoRecordRepaymentCall ''lender'' ''subject'' 1000 True)) w1 = Ok w2"
    using assms w1 c
    by (simp add: w2_def co_record_repayment_def co_local_def co_ensure_not_paused_def is_trusted_lender_def
        read_repayment_v2_def increment_repayments_recorded_def co_load_protocol_stats_def
        co_save_protocol_stats_def authorized_def invoked_at_def test_env_def Let_def)
  have "repaid (m + 1) w w2"
    unfolding repaid_def w2_def using w1 unat_checked_add [OF c]
    by (intro exI [of _ "k(''subject'' \<mapsto> StoredV2 (bump_v2 1000 True r))"]
        exI [of _ "t\<lparr>total_repayments_recorded := c\<rparr>"]) simp
  from Suc.IH [OF this, of w1] Suc.prems
  obtain v w3 where "\<forall>ss. run_steps (sys_exec test_deployment) test_env w1 w2
      (replicate n (repay ''subject'' 1000 True) @ ss) = run_steps (sys_exec test_deployment) test_env v w3 ss"
      "repaid (m + 1 + n) w w3"
    by auto
  then show ?case using one by (intro exI [of _ v] exI [of _ w3]) (simp add: repay_def del: sys_exec.simps)
qed

lemma score_in_range: "MIN_SCORE \<le> compute_score_pure vp vol avg n t rep a b c"
  "compute_score_pure vp vol avg n t rep a b c \<le> MAX_SCORE"
  by (simp_all add: word_le_nat_alt unat_compute_score_pure score_spec_def final_spec_def MIN_SCORE_def MAX_SCORE_def)

lemma fresh_score:
  assumes "co_paused s = None" "co_identity_oracle_id s = None" "co_score s a = None"
    "load_repayment s a = Some r" "co_config s = Some x" "total_subjects_scored (co_load_protocol_stats s) = 0"
  shows "\<exists>n s'. co_compute_score e iv a s = Ok (n, s') \<and> MIN_SCORE \<le> n \<and> n \<le> MAX_SCORE"
  using assms score_in_range
  by (cases "local_points s a")
    (simp add: co_compute_score_def finish_score_records record_score_def co_ensure_not_paused_def
      check_compute_cooldown_def increment_subjects_scored_def checked_add_def Let_def)

lemma fresh_score_passes:
  assumes "co_paused (wd_credit w) = None" "co_identity_oracle_id (wd_credit w) = None"
    "co_score (wd_credit w) a = None" "load_repayment (wd_credit w) a = Some r"
    "co_config (wd_credit w) = Some x" "total_subjects_scored (co_load_protocol_stats (wd_credit w)) = 0"
  shows "run_steps (sys_exec test_deployment) test_env v w (scores a (\<lambda>n. MIN_SCORE \<le> n \<and> n \<le> MAX_SCORE))"
proof -
  have all: "\<exists>n s'. co_compute_score e iv a (wd_credit w) = Ok (n, s') \<and> MIN_SCORE \<le> n \<and> n \<le> MAX_SCORE" for e iv
    using fresh_score [OF assms] .
  show ?thesis
    using all [of "co_env test_env" "co_view test_env w"]
    by (auto simp: scores_def answers_score_def co_env_def co_view_def co_local_def)
qed

text \<open>The oracle of the test before its first repayment, and after it.\<close>

definition ready_to_repay :: co_state where
  "ready_to_repay = co_new\<lparr>co_admin := Some ''admin'', co_config := Some default_weights,
     co_compute_cooldown := Some 1, co_storage_version := Some 2,
     co_feeders_index := Some [''feeder''], co_trusted_feeder := [''feeder'' \<mapsto> True],
     co_lenders_index := Some [''lender''], co_trusted_lender := [''lender'' \<mapsto> True],
     co_vc_list := [''subject'' \<mapsto> map (\<lambda>i. \<lparr>vc_id = filled i, vc_type = None\<rparr>) [0, 1, 2, 3, 4]],
     co_tx_stats := [''subject'' \<mapsto> tx_of 100000000000 1000 100],
     co_events := [CoInitialized ''admin'', FdrReg ''feeder'', LndReg ''lender''] @ replicate 5 (VcAnchCr ''subject'' None)\<rparr>"

definition one_repaid :: co_state where
  "one_repaid = ready_to_repay\<lparr>
     co_repayment := [''subject'' \<mapsto> StoredV2 \<lparr>on_time_count = 1, total_count = 1, total_repaid = 1000\<rparr>],
     co_stats := Some \<lparr>total_subjects_scored = 0, total_repayments_recorded = 1\<rparr>\<rparr>"

lemma bounded_prefix:
  "passes (co_feeder_setup @ [Call (cr (CoRegisterLenderCall ''admin'' ''lender''))] @
     map (\<lambda>i. co_anchor (filled i) None) [0, 1, 2, 3, 4] @
     feed ''subject'' (tx_of 100000000000 1000 100) # repay ''subject'' 1000 True # ss) =
   run_steps (sys_exec test_deployment) test_env (world_new\<lparr>wd_credit := ready_to_repay\<rparr>)
     (world_new\<lparr>wd_credit := one_repaid\<rparr>) ss"
  by (simp add: co_test_defs ready_to_repay_def one_repaid_def cong: outcome_bind_later)

lemma credit_bounded_test: test_score_bounded_300_850
proof -
  let ?w = "world_new\<lparr>wd_credit := one_repaid\<rparr>"
  have "repaid 1 ?w ?w"
    unfolding repaid_def
    by (intro exI [of _ "co_repayment one_repaid"] exI [of _ "the (co_stats one_repaid)"])
      (simp add: one_repaid_def ready_to_repay_def)
  from run_repayments [OF _ _ _ this, of 99 "world_new\<lparr>wd_credit := ready_to_repay\<rparr>"]
  obtain v w where w: "\<And>ss. run_steps (sys_exec test_deployment) test_env (world_new\<lparr>wd_credit := ready_to_repay\<rparr>) ?w
      (replicate 99 (repay ''subject'' 1000 True) @ ss) = run_steps (sys_exec test_deployment) test_env v w ss"
      "repaid 100 ?w w"
    by (auto simp: one_repaid_def ready_to_repay_def co_new_def simp del: replicate_numeral)
  obtain m t r where s: "wd_credit w = one_repaid\<lparr>co_repayment := m, co_stats := Some t\<rparr>"
      "total_subjects_scored t = 0" "m ''subject'' = Some (StoredV2 r)"
    using w(2) by (auto simp: repaid_def)
  have "co_paused (wd_credit w) = None" "co_identity_oracle_id (wd_credit w) = None"
    "co_score (wd_credit w) ''subject'' = None" "load_repayment (wd_credit w) ''subject'' = Some r"
    "co_config (wd_credit w) = Some default_weights" "total_subjects_scored (co_load_protocol_stats (wd_credit w)) = 0"
    using s by (simp_all add: one_repaid_def ready_to_repay_def co_new_def load_repayment_def read_repayment_v2_def
        co_load_protocol_stats_def)
  from fresh_score_passes [OF this]
  have "run_steps (sys_exec test_deployment) test_env v w (scores ''subject'' (\<lambda>n. MIN_SCORE \<le> n \<and> n \<le> MAX_SCORE))" .
  moreover have "replicate 100 (repay ''subject'' 1000 True) = repay ''subject'' 1000 True # replicate 99 (repay ''subject'' 1000 True)"
    by (simp add: numeral_eq_Suc del: replicate_numeral)
  ultimately show ?thesis
    unfolding test_score_bounded_300_850_def using bounded_prefix w(1) by simp
qed

lemma younger_scores_higher:
  assumes "younger_age < 3650" and "extra_age < 3650"
  shows "proptest_younger_credentials_score_at_least_as_high younger_age extra_age decay lowest vcs type_weight"
proof -
  let ?now = "10000 * SECONDS_PER_DAY :: u64"
  let ?young = "?now - younger_age * SECONDS_PER_DAY"
  let ?old = "?now - (younger_age + extra_age) * SECONDS_PER_DAY"
  have y: "unat younger_age < 3650" and x: "unat extra_age < 3650"
    using assms by (simp_all add: word_less_nat_alt)
  have now: "unat ?now = 864000000" by (simp add: SECONDS_PER_DAY_def)
  have p: "unat (younger_age * SECONDS_PER_DAY) = unat younger_age * 86400"
    "unat ((younger_age + extra_age) * SECONDS_PER_DAY) = (unat younger_age + unat extra_age) * 86400"
    using y x by (simp_all add: unat_word_ariths)
  have ages: "?old \<le> ?young"
    using y x p now by (simp add: word_le_nat_alt unat_sub_if')
  have mult: "unat (recency_multiplier_bps ?old ?now decay lowest)
      \<le> unat (recency_multiplier_bps ?young ?now decay lowest)"
    using ages by (simp add: unat_recency_multiplier recency_spec_mono word_le_nat_alt)
  let ?pts = "\<lambda>a. apply_recency_bps (saturating_mul 20 type_weight div 100) (recency_multiplier_bps a ?now decay lowest)"
  have pts: "unat (?pts ?old) \<le> unat (?pts ?young)"
    using mult by (simp add: unat_apply_recency unat_recency_multiplier recency_spec_bounds div_le_mono mult_le_mono)
  then have "unat (saturating_mul (?pts ?old) vcs) \<le> unat (saturating_mul (?pts ?young) vcs)"
    unfolding unat_saturating_mul by (intro min.mono mult_le_mono) simp_all
  then have "unat (min (saturating_mul (?pts ?old) vcs) 100) \<le> unat (min (saturating_mul (?pts ?young) vcs) 100)"
    unfolding unat_min_word by (intro min.mono) simp_all
  then show ?thesis
    using ages mult
    by (simp add: proptest_younger_credentials_score_at_least_as_high_def Let_def word_le_nat_alt
        unat_compute_score_pure score_spec_mono del: unat_min_word)
qed

section \<open>The suite\<close>

definition credit_tests_pass :: bool where
  "credit_tests_pass \<longleftrightarrow>
     test_scoring_spec_example_1_new_user_scores_300 \<and>
     test_scoring_spec_example_2_moderate_scores_569 \<and>
     test_scoring_spec_example_3_strong_scores_817 \<and>
     test_scoring_spec_perfect_scores_850 \<and>
     scoring_examples \<and>
     test_recency_multiplier_full_weight_within_first_day \<and>
     test_recency_multiplier_decays_linearly_per_day \<and>
     test_recency_multiplier_clamps_to_floor \<and>
     test_recency_multiplier_saturates_on_extreme_inputs \<and>
     test_apply_recency_bps_scales_points \<and>
     test_only_admin_can_register_feeder \<and>
     test_register_lender_succeeds \<and>
     test_tx_stats_stored_and_retrieved \<and>
     test_repayment_rate_calculated_correctly \<and>
     test_deregistered_feeder_cannot_update_tx_stats \<and>
     test_deregistered_lender_cannot_record_repayment \<and>
     test_record_repayment_invalid_amount \<and>
     test_list_feeders_returns_only_currently_registered \<and>
     test_list_lenders_returns_only_currently_registered \<and>
     test_list_feeders_empty_index_returns_empty_vec \<and>
     test_list_lenders_empty_index_returns_empty_vec \<and>
     test_reregistering_deregistered_feeder_does_not_duplicate_index \<and>
     test_deregister_feeder_emits_event \<and>
     test_deregister_lender_emits_event \<and>
     test_set_vc_count_emits_deprecation_event_when_oracle_configured \<and>
     test_set_vc_count_does_not_emit_deprecation_event_without_oracle \<and>
     test_compute_score_repayment_rate_does_not_overflow \<and>
     test_base_score_is_300 \<and>
     test_compute_score_emits_score_event \<and>
     test_counterparty_bonus_adds_points \<and>
     test_score_increases_with_repayments \<and>
     test_repayment_amount_affects_score \<and>
     test_score_bounded_300_850 \<and>
     test_compute_score_not_initialized \<and>
     test_compute_score_skips_write_when_inputs_unchanged \<and>
     test_vc_type_weight_scoring \<and>
     test_recency_decay_ignored_without_identity_oracle \<and>
     co_test_protocol_stats_default_zero \<and>
     test_protocol_stats_increments_on_record_repayment \<and>
     test_protocol_stats_increments_subjects_scored \<and>
     test_protocol_stats_no_double_count_recompute \<and>
     test_default_weights_sum_to_100 \<and>
     test_weights_must_sum_to_100 \<and>
     test_propose_weights_unchanged_until_applied \<and>
     test_get_pending_weights_returns_correct_record \<and>
     test_apply_weights_before_timelock_fails \<and>
     test_apply_weights_with_no_pending_weights_fails \<and>
     test_apply_weights_after_timelock_succeeds \<and>
     test_counterparty_bonus_zero_when_tx_weight_is_zero \<and>
     test_counterparty_bonus_applied_when_tx_weight_is_high \<and>
     test_upgrade_rejects_non_admin \<and>
     test_get_identity_oracle_returns_none_when_not_configured \<and>
     test_set_and_get_identity_oracle \<and>
     test_set_identity_oracle_emits_descriptive_event \<and>
     co_test_admin_transfer_two_step \<and>
     co_test_non_pending_admin_cannot_accept \<and>
     test_get_governance_returns_none_when_not_configured \<and>
     test_get_governance_set_when_contract_accepts_admin \<and>
     test_get_governance_not_set_when_account_accepts_admin \<and>
     test_get_governance_cleared_when_admin_returns_to_account \<and>
     test_get_recency_decay_defaults_to_disabled \<and>
     test_compute_cooldown_getter_and_setter \<and>
     test_compute_cooldown_setter_rejects_invalid_values \<and>
     test_set_recency_decay_stores_config \<and>
     test_set_recency_decay_rejects_non_admin \<and>
     test_set_recency_decay_rejects_floor_above_full_weight \<and>
     test_flag_score_input_stores_pending_dispute \<and>
     flag_score_input_invalid_key \<and>
     test_flag_score_input_rejects_duplicate_pending \<and>
     test_resolve_dispute_accepted \<and>
     test_resolve_dispute_rejected \<and>
     test_resolve_nonexistent_dispute_fails \<and>
     test_resolve_already_resolved_dispute_fails \<and>
     test_new_dispute_allowed_after_resolution \<and>
     test_list_disputes_returns_all_filed \<and>
     test_list_disputes_empty_for_new_subject \<and>
     test_get_dispute_returns_none_when_no_dispute \<and>
     test_flag_score_input_emits_event"

lemma credit_suite: credit_tests_pass
  unfolding credit_tests_pass_def
  by (intro conjI) (fact credit_pure_tests credit_recency_tests credit_input_tests credit_score_tests credit_bounded_test credit_weight_tests credit_admin_tests credit_dispute_tests)+

end
