(* ===== verification/Conformance_Verifier.thy ===== *)
theory Conformance_Verifier
  imports Conformance Range_Verifier
begin

text \<open>
  The tests of \<open>contracts/score-range-verifier/src/lib.rs\<close> whose outcome does not rest on the curve
  arithmetic of the host, for an arbitrary host \<open>h\<close>. The tests with points at infinity or
  with bytes that are no points (\<open>..._tampered_proof_...\<close>, \<open>..._malformed_points\<close>) ask that arithmetic for its answer.
  One test is about lifetimes of storage entries; its \<open>while\<close> loop is \<open>replay_loop\<close>.
\<close>

section \<open>Calls\<close>

type_synonym srv_step = "(srv_call, srv_error, srv_state) step"

definition srv_passes :: "('g1, 'g2, 'fr) bls_host \<Rightarrow> srv_step list \<Rightarrow> bool" where
  "srv_passes h ss =
     run_steps (\<lambda>e. srv_exec (invoked_at (contract_address CHR ''v'') e) h) test_env srv_new srv_new ss"

definition srv_setup :: srv_step where
  "srv_setup = Call (SrvInitializeCall ''admin'' (filled 0xAB) CIRCUIT_VERSION)"

definition srv_check :: "(srv_state \<Rightarrow> bool) \<Rightarrow> srv_step" where
  "srv_check p = Check (\<lambda>e s. p s)"

text \<open>The point at infinity is the infinity flag and zeros.\<close>

definition infinity_g1_bytes :: bytes where
  "infinity_g1_bytes = 0x40 # replicate 95 0"

definition infinity_g2_bytes :: bytes where
  "infinity_g2_bytes = 0x40 # replicate 191 0"

definition make_proof :: bytes where
  "make_proof = infinity_g1_bytes @ infinity_g2_bytes @ infinity_g1_bytes"

definition make_public_inputs :: score_range_public_inputs where
  "make_public_inputs = \<lparr>pi_threshold = 700, pi_subject = ''subject'', pi_credit_oracle_id = ''oracle'',
     pi_score_commitment = filled 0x11, pi_snapshot_ledger = 12345, pi_domain_separator = filled 0x22\<rparr>"

section \<open>The tests\<close>

definition test_initialize_stores_config :: "('g1, 'g2, 'fr) bls_host \<Rightarrow> bool" where
  "test_initialize_stores_config h \<longleftrightarrow> srv_passes h
     [srv_setup,
      srv_check (\<lambda>s. srv_get_vk_hash s = Some (filled 0xAB)),
      srv_check (\<lambda>s. srv_get_circuit_version s = Some CIRCUIT_VERSION),
      srv_check (\<lambda>s. srv_get_admin s = Some ''admin'')]"

definition test_initialize_rejects_double_init :: "('g1, 'g2, 'fr) bls_host \<Rightarrow> bool" where
  "test_initialize_rejects_double_init h \<longleftrightarrow> srv_passes h
     [srv_setup,
      Refused (SrvInitializeCall ''admin'' (filled 0xAB) CIRCUIT_VERSION) SrvAlreadyInitialized]"

definition test_verify_score_range_rejects_wrong_size_proof :: "('g1, 'g2, 'fr) bls_host \<Rightarrow> bool" where
  "test_verify_score_range_rejects_wrong_size_proof h \<longleftrightarrow> srv_passes h
     [srv_setup,
      srv_check (\<lambda>s. srv_verify_score_range h s (replicate 100 1) make_public_inputs = Some False)]"

definition test_verify_and_consume_requires_auth :: "('g1, 'g2, 'fr) bls_host \<Rightarrow> bool" where
  "test_verify_and_consume_requires_auth h \<longleftrightarrow> srv_passes h
     [srv_setup,
      Signed {},
      Fails (SrvConsumeCall ''consumer'' make_proof make_public_inputs (filled 0x44))]"

definition test_verify_and_consume_rejects_wrong_size_proof :: "('g1, 'g2, 'fr) bls_host \<Rightarrow> bool" where
  "test_verify_and_consume_rejects_wrong_size_proof h \<longleftrightarrow> srv_passes h
     [srv_setup,
      Refused (SrvConsumeCall ''consumer'' (replicate 100 1) make_public_inputs (filled 0x55)) InvalidProofSize]"

definition test_verify_score_range_requires_initialization :: "('g1, 'g2, 'fr) bls_host \<Rightarrow> bool" where
  "test_verify_score_range_requires_initialization h \<longleftrightarrow> srv_passes h
     [srv_check (\<lambda>s. srv_verify_score_range h s make_proof make_public_inputs = Some False)]"

definition test_public_inputs_encoding_is_deterministic :: "('g1, 'g2, 'fr) bls_host \<Rightarrow> bool" where
  "test_public_inputs_encoding_is_deterministic h \<longleftrightarrow>
     (let fields1 = public_inputs_to_fields h make_public_inputs;
          fields2 = public_inputs_to_fields h make_public_inputs
      in length fields1 = length fields2 \<and> length fields1 = NUM_PUBLIC_INPUTS
       \<and> list_all2 (=) fields1 fields2)"

section \<open>Lifetimes\<close>

definition INSTANCE_BUMP_THRESHOLD :: u32 where "INSTANCE_BUMP_THRESHOLD = 5000"
definition INSTANCE_BUMP_AMOUNT :: u32 where "INSTANCE_BUMP_AMOUNT = 500000"
definition PERS_TTL_THRESHOLD :: u32 where "PERS_TTL_THRESHOLD = 120960"
definition PERS_TTL_EXTEND :: u32 where "PERS_TTL_EXTEND = 518400"

text \<open>
  \<open>extend_ttl\<close> of the host, from the ledger, the threshold, the amount and the last ledger of an entry to its new last
  ledger; documented to set the lifetime to the amount when it is below the threshold, and to leave it otherwise.
\<close>

type_synonym ttl_call = "u32 \<Rightarrow> u32 \<Rightarrow> u32 \<Rightarrow> u32 \<Rightarrow> u32"

definition ttl_documented :: "ttl_call \<Rightarrow> bool" where
  "ttl_documented ext \<longleftrightarrow> (\<forall>now threshold amount until.
     now \<le> until \<longrightarrow> unat now + unat amount < 2 ^ 32 \<longrightarrow>
       ext now threshold amount until = (if until - now < threshold then now + amount else until))"

text \<open>
  The loop of the test: the next ledger, the extension of the instance (which fails when the
  instance is archived), the move to the next ledger. It stops at \<open>target\<close>.
\<close>

partial_function (option) replay_loop ::
  "ttl_call \<Rightarrow> u32 \<Rightarrow> u32 \<Rightarrow> u32 \<Rightarrow> u32 \<Rightarrow> (unit, u32 \<times> u32) outcome option" where
  "replay_loop ext chunk target current until =
     (if current < target then
        (case checked_add current chunk of
           None \<Rightarrow> Some Trap
         | Some stop \<Rightarrow>
             if until < current then Some Trap
             else replay_loop ext chunk target (min stop target)
                    (ext current INSTANCE_BUMP_THRESHOLD INSTANCE_BUMP_AMOUNT until))
      else Some (Ok (current, until)))"

text \<open>
  The test from the ledger \<open>start\<close>, where the host gives the instance a life until \<open>inst\<close> when it is registered
  and the entry one until \<open>entry\<close> when it is set: the ledger reached, and whether the entry is alive there.
\<close>

definition test_consumed_proof_replay_protection_survives_ledger_advance ::
  "ttl_call \<Rightarrow> u32 \<Rightarrow> u32 \<Rightarrow> u32 \<Rightarrow> (unit, u32 \<times> bool) outcome option" where
  "test_consumed_proof_replay_protection_survives_ledger_advance ext start inst entry =
     (let inst1 = ext start INSTANCE_BUMP_THRESHOLD INSTANCE_BUMP_AMOUNT inst;
          entry1 = ext start PERS_TTL_THRESHOLD PERS_TTL_EXTEND entry
      in case checked_sub INSTANCE_BUMP_AMOUNT 1000 of
           None \<Rightarrow> Some Trap
         | Some chunk \<Rightarrow>
             (case checked_add start PERS_TTL_EXTEND of
                None \<Rightarrow> Some Trap
              | Some later \<Rightarrow>
                  (case checked_sub later 1000 of
                     None \<Rightarrow> Some Trap
                   | Some target \<Rightarrow>
                       map_option (\<lambda>m. outcome_bind m (\<lambda>(current, until).
                           if until < current then Trap else Ok (current, current \<le> entry1)))
                         (replay_loop ext chunk target start inst1))))"

section \<open>Proofs\<close>

lemmas srv_test_defs = srv_passes_def srv_setup_def srv_check_def test_env_def invoked_at_def srv_new_def
  srv_initialize_def srv_verify_score_range_def srv_verify_and_consume_def srv_get_vk_hash_def
  srv_get_circuit_version_def srv_get_admin_def authorized_def PROOF_SIZE_def NUM_PUBLIC_INPUTS_def
  make_proof_def infinity_g1_bytes_def infinity_g2_bytes_def public_inputs_to_fields_def

definition verifier_tests_pass :: "('g1, 'g2, 'fr) bls_host \<Rightarrow> bool" where
  "verifier_tests_pass h \<longleftrightarrow>
     test_initialize_stores_config h \<and>
     test_initialize_rejects_double_init h \<and>
     test_verify_score_range_rejects_wrong_size_proof h \<and>
     test_verify_and_consume_requires_auth h \<and>
     test_verify_and_consume_rejects_wrong_size_proof h \<and>
     test_verify_score_range_requires_initialization h \<and>
     test_public_inputs_encoding_is_deterministic h"

lemma verifier_suite: "verifier_tests_pass h"
  unfolding verifier_tests_pass_def test_initialize_stores_config_def test_initialize_rejects_double_init_def
    test_verify_score_range_rejects_wrong_size_proof_def test_verify_and_consume_requires_auth_def
    test_verify_and_consume_rejects_wrong_size_proof_def test_verify_score_range_requires_initialization_def
    test_public_inputs_encoding_is_deterministic_def
  by (simp add: srv_test_defs list.rel_refl)

text \<open>
  The loop counts up to \<open>target\<close>. At its head the instance has its full lifetime, or what a chunk leaves of it, which is
  below the threshold; so each pass finds the instance alive and renews it.
\<close>

lemma replay_loop_returns:
  assumes ext: "ttl_documented ext"
    and chunk: "unat chunk \<le> 500000" "495000 < unat chunk"
    and room: "unat target + 500000 < 2 ^ 32"
  shows "unat until = unat current + 500000 \<or> unat until + unat chunk = unat current + 500000 \<Longrightarrow>
    current \<le> target \<Longrightarrow> \<exists>last. replay_loop ext chunk target current until = Some (Ok (target, last)) \<and> target \<le> last"
proof (induction "unat target - unat current" arbitrary: current until rule: less_induct)
  case less
  show ?case
  proof (cases "current < target")
    case False
    then have "current = target" using less.prems(2) by simp
    moreover from this have "target \<le> until" using less.prems(1) chunk by (auto simp: word_le_nat_alt)
    ultimately show ?thesis by (subst replay_loop.simps) simp
  next
    case True
    then have lt: "unat current < unat target" by (simp add: word_less_nat_alt)
    obtain c where c: "checked_add current chunk = Some c" "unat c = unat current + unat chunk"
      using chunk room lt by (auto simp: checked_add_def unat_word_ariths)
    have alive: "current \<le> until" using less.prems(1) chunk by (auto simp: word_le_nat_alt)
    let ?u = "ext current INSTANCE_BUMP_THRESHOLD INSTANCE_BUMP_AMOUNT until"
    have u: "unat ?u = unat current + 500000"
      using ext alive less.prems(1) chunk room lt
      by (auto simp: ttl_documented_def INSTANCE_BUMP_THRESHOLD_def INSTANCE_BUMP_AMOUNT_def word_less_nat_alt
          word_le_nat_alt unat_word_ariths unat_sub_if')
    show ?thesis
    proof (cases "c < target")
      case True
      then have m: "min c target = c" by simp
      have "\<exists>last. replay_loop ext chunk target c ?u = Some (Ok (target, last)) \<and> target \<le> last"
        using True u c(2) chunk(2) lt by (intro less.hyps) (simp_all add: word_less_nat_alt word_le_nat_alt)
      then show ?thesis
        using c(1) \<open>current < target\<close> alive by (subst replay_loop.simps) (simp add: m)
    next
      case False
      then have m: "min c target = target" by simp
      have "target \<le> ?u" using False u c(2) chunk(1) by (simp add: word_le_nat_alt word_less_nat_alt)
      then show ?thesis
        using c(1) True alive by (subst replay_loop.simps) (simp add: m, subst replay_loop.simps, simp)
    qed
  qed
qed

section \<open>Properties\<close>

text \<open>C39: The loop of the replay test returns and the test passes: from any ledger 1017400 below the largest, the
  loop stops at exactly 517400 ledgers later without a panic, the instance is never archived on
  the way and alive at the end, and the entry of the consumed proof is alive there. The lifetimes the host gives at
  first need only be below the thresholds.\<close>

theorem replay_test_returns:
  assumes "ttl_documented ext" and "unat start + 1017400 < 2 ^ 32"
    and "start \<le> inst" and "inst - start < INSTANCE_BUMP_THRESHOLD"
    and "start \<le> entry" and "entry - start < PERS_TTL_THRESHOLD"
  shows "test_consumed_proof_replay_protection_survives_ledger_advance ext start inst entry
    = Some (Ok (start + 517400, True))"
proof -
  have sub: "checked_sub INSTANCE_BUMP_AMOUNT 1000 = Some 499000"
    by (simp add: checked_sub_def INSTANCE_BUMP_AMOUNT_def)
  have add: "checked_add start PERS_TTL_EXTEND = Some (start + 518400)"
    using assms(2) by (simp add: checked_add_def PERS_TTL_EXTEND_def)
  have plus: "unat (start + n) = unat start + unat n" if "unat n \<le> 518400" for n
    using that assms(2) by (simp add: unat_word_ariths)
  have target: "checked_sub (start + 518400) 1000 = Some (start + 517400)"
    using plus [of 518400] by (simp add: checked_sub_def word_le_nat_alt)
  have renewed: "ext start INSTANCE_BUMP_THRESHOLD INSTANCE_BUMP_AMOUNT inst = start + 500000"
      "ext start PERS_TTL_THRESHOLD PERS_TTL_EXTEND entry = start + 518400"
    using assms by (simp_all add: ttl_documented_def INSTANCE_BUMP_AMOUNT_def PERS_TTL_EXTEND_def)
  obtain last where "replay_loop ext 499000 (start + 517400) start (start + 500000) = Some (Ok (start + 517400, last))"
    and alive: "start + 517400 \<le> last"
    using replay_loop_returns [OF assms(1), of 499000 "start + 517400" "start + 500000" start]
      plus [of 500000] plus [of 517400] assms(2) by (auto simp: word_le_nat_alt)
  moreover have "\<not> last < start + 517400" using alive by (simp add: not_less)
  ultimately show ?thesis
    using plus [of 517400] plus [of 518400]
    by (simp add: test_consumed_proof_replay_protection_survives_ledger_advance_def Let_def sub add target renewed
        word_le_nat_alt)
qed

text \<open>The tests start at ledger 0 with 4096 ledgers of life.\<close>

definition documented_ttl :: ttl_call where
  "documented_ttl now threshold amount until = (if until - now < threshold then now + amount else until)"

theorem replay_test_returns_witness:
  "test_consumed_proof_replay_protection_survives_ledger_advance documented_ttl 0 4095 4095 = Some (Ok (517400, True))"
proof -
  have "ttl_documented documented_ttl" by (simp add: ttl_documented_def documented_ttl_def)
  from replay_test_returns [OF this, of 0 4095 4095] show ?thesis
    by (simp add: INSTANCE_BUMP_THRESHOLD_def PERS_TTL_THRESHOLD_def word_less_nat_alt)
qed

end
