(* ===== verification/Conformance_Circuit.thy ===== *)
theory Conformance_Circuit
  imports Zk_Api
begin

text \<open>
  The tests of \<open>zk/circuit/src/score_circuit.rs\<close> and \<open>zk/circuit/src/lib.rs\<close>, over an arbitrary field and hash and,
  where they prove and verify, arbitrary Groth16 algorithms. \<open>verify_rejects_wrong_threshold\<close> asks
  the curve arithmetic for its answer: a proof for the other threshold exists too.
\<close>

definition make_witness :: score_witness where
  "make_witness = \<lparr>sw_score = 668, sw_vc_count = 10, sw_tx_volume_30d = 50000000000, sw_avg_counterparties = 10,
     sw_repayment_rate = 5000, sw_last_updated = 1700000000, sw_computed_at_ledger = 1234567, sw_stale = False,
     sw_vc_points = 50, sw_on_time_count = 50, sw_total_count = 100, sw_total_repaid = 20000000000,
     sw_vc_weight = 40, sw_tx_weight = 30, sw_repayment_weight = 30, sw_vc_score = 50,
     sw_volume_score = 80, sw_counterparty_bonus = 2, sw_tx_score = 82,
     sw_repayment_rate_score = 50, sw_repayment_volume_score = 100, sw_repay_score = 75,
     sw_composite = 67, sw_q_volume = 500, sw_q_cp = 2, sw_q_rv = 200,
     sw_total_count_is_zero = False, sw_total_count_inv = 0, sw_blinding = 42\<rparr>"

definition make_zk_inputs :: "fr_field \<Rightarrow> (bytes \<Rightarrow> bytes) \<Rightarrow> score_witness \<Rightarrow> u32 \<Rightarrow> score_public_inputs" where
  "make_zk_inputs f sha256 w threshold =
     (let fields = [uint (sw_score w), uint (sw_vc_count w), uint (volume_wire (sw_tx_volume_30d w)),
            uint (sw_avg_counterparties w), uint (sw_repayment_rate w), uint (sw_last_updated w),
            uint (sw_computed_at_ledger w), if sw_stale w then 1 else 0]
      in \<lparr>zp_threshold = threshold, zp_subject = 1, zp_credit_oracle_id = 2,
          zp_score_commitment = pedersen_commit f (pedersen_new f sha256 CIRCUIT_DOMAIN) fields (sw_blinding w),
          zp_snapshot_ledger = 12345, zp_domain_separator = 3\<rparr>)"

definition circuit_satisfied_for_valid_witness :: "fr_field \<Rightarrow> (bytes \<Rightarrow> bytes) \<Rightarrow> bool" where
  "circuit_satisfied_for_valid_witness f sha256 \<longleftrightarrow>
     (let circuit = score_circuit_new (Some make_witness) (make_zk_inputs f sha256 make_witness 600)
      in circuit_sat f sha256 (sc_public_inputs circuit) (assigned_wires (sc_witness circuit)))"

text \<open>The generator starts from the seed of zeros; an error or a panic of a step fails the test.\<close>

definition generate_and_verify_proof ::
  "fr_field \<Rightarrow> (bytes \<Rightarrow> bytes) \<Rightarrow> ('rng, 'pk, 'vk, 'proof, 'err) groth16 \<Rightarrow> bool" where
  "generate_and_verify_proof f sha256 g \<longleftrightarrow>
     (case generate_test_keys g (g16_from_seed g (replicate 32 0)) of
        (Ok (pk, vk), rng) \<Rightarrow>
          (let pub = make_zk_inputs f sha256 make_witness 600
           in case generate_proof g make_witness pub pk rng of
                (Ok proof, rng') \<Rightarrow> verify_proof g proof pub vk = Ok True
              | _ \<Rightarrow> False)
      | _ \<Rightarrow> False)"

lemma valid_witness_sat:
  assumes "fr_field_ok f"
  shows "circuit_satisfied_for_valid_witness f sha"
proof -
  have v: "volume_wire 50000000000 = 50000000000" "volume_wire 20000000000 = 20000000000"
    by (simp_all add: volume_wire_def i128_max_def)
  have "c11_commitment f sha (make_zk_inputs f sha make_witness 600) (wires_of_witness make_witness)"
    unfolding c11_iff fp_eq_def
    by (simp add: make_zk_inputs_def Let_def pedersen_commit_def field_sum_def committed_fields_def
        wires_of_witness_def make_witness_def v boolean_to_fp_def)
      (rule mod_add_cong [OF foldl_mod [symmetric] refl])
  then show ?thesis
    unfolding circuit_satisfied_for_valid_witness_def Let_def sat_meaning [OF assms]
    by (simp add: circuit_meaning_def score_circuit_new_def assigned_wires_def)
      (simp add: wires_of_witness_def make_witness_def make_zk_inputs_def v either_of_def quotient_within_def)
qed

lemma valid_witness_proof:
  assumes "fr_field_ok f" and "g16_complete f sha g"
    and "generate_test_keys g (g16_from_seed g (replicate 32 0)) = (Ok (pk, vk), rng)"
  shows "generate_and_verify_proof f sha g"
proof -
  have "circuit_sat f sha (make_zk_inputs f sha make_witness 600) (wires_of_witness make_witness)"
    using valid_witness_sat [OF assms(1), of sha]
    by (simp add: circuit_satisfied_for_valid_witness_def score_circuit_new_def assigned_wires_def)
  then obtain p rng' where "g16_prove g pk (score_circuit_new (Some make_witness) (make_zk_inputs f sha make_witness 600)) rng
      = (Ok p, rng')" "g16_verify g vk (public_input_vector (make_zk_inputs f sha make_witness 600)) p = Ok True"
    using assms(2,3) unfolding g16_complete_def by blast
  then show ?thesis
    by (simp add: generate_and_verify_proof_def assms(3) Let_def generate_proof_def verify_proof_def)
qed

end
