(* ===== verification/Spec2Isabelle.thy ===== *)
theory Spec2Isabelle
  imports Scoring Revocation_Registry Identity_Oracle Credit_Oracle Governance Range_Verifier Zk_Api System Fuzz_Targets Panics
    Conformance_Registry Conformance_Governance Conformance_Identity Conformance_Credit
    Conformance_Verifier Conformance_Circuit
begin

text \<open>
  A formal model of stellar-did-credit: the Soroban contracts under \<open>src/contracts/\<close> that keep
  identities, credentials and credit scores on chain, and the zero-knowledge circuit under
  \<open>src/zk/circuit/\<close> with its witness generator \<open>src/packages/zk-wasm/\<close>.

  The program. Issuers anchor credentials of subjects in the identity-oracle, and revoke them there or in
  the revocation-registry, each of which may be linked to the other. Registered feeders and
  lenders write a subject's transaction statistics and repayments into the credit-oracle,
  which computes the score from them and from the credentials (its own list, or the linked
  identity-oracle's live records) under weights that the admin changes through a timelock.
  Governance is a weighted vote over new weights; it holds the oracle's admin role.
  The score-range-verifier checks a Groth16 proof that a committed score is above a threshold; the
  circuit says what such a proof is about, and the witness generator builds one for an honest
  holder.

  Theories, in the order of their imports, and what each one models.

  \<^item> \<open>Prelude\<close>: how an invocation ends (\<open>outcome\<close>: a value, a declared error, a trap), the host
    environment (\<open>env\<close>), Rust's integers as words with their checked and saturating
    operations, sums over finite maps, byte strings read as numbers.
  \<^item> \<open>Shared_Types\<close>: \<open>contracts/credit-oracle-types\<close>, the credential record, the ordered error codes,
    \<open>ScoringWeights::is_valid\<close> and the cross-contract client.
  \<^item> \<open>Interfaces\<close>: the contracts several components honour, as locales: \<open>admin_handover\<close>,
    \<open>flag_index\<close>, \<open>pause_switch\<close>, \<open>one_shot_init\<close>, \<open>revocation_source\<close> (what the identity-oracle
    needs of a registry) and \<open>identity_service\<close> (what scoring needs of an identity-oracle).
  \<^item> \<open>Scoring\<close>: \<open>recency_multiplier_bps\<close>, \<open>apply_recency_bps\<close> and \<open>compute_score_pure\<close> at the widths of the code,
    against the formula of \<open>docs/scoring-spec.md\<close> on unbounded numbers (\<open>score_spec\<close>).
  \<^item> \<open>Revocation_Registry\<close>, \<open>Identity_Oracle\<close>, \<open>Credit_Oracle\<close>, \<open>Governance\<close>, \<open>Range_Verifier\<close>: one contract each,
    \<open>contracts/<name>/src/lib.rs\<close>. The state record has one field per storage key (a map for a
    key with an argument; an absent entry is \<open>None\<close>) and the list of published events; every
    entry point is one definition with the prefix \<open>rr_\<close>, \<open>io_\<close>, \<open>co_\<close>, \<open>gov_\<close> or \<open>srv_\<close>
    and the name it has in the source, its guards in the order of the code; a loop
    in it is a \<open>fun\<close> of its own. A datatype of calls and an \<open>exec\<close> function join the entry
    points that write, and an inductive predicate (\<open>rr_reachable\<close>, ...) gathers the states
    that any calls lead to, from any callers, in any environments, over any behaviour of the contracts called.
  \<^item> \<open>Zk_Circuit\<close>: \<open>range.rs\<close>, \<open>commitment.rs\<close> and \<open>score_circuit.rs\<close>: the gadgets over integers modulo the field
    order, the wires as a record and the eleven constraint groups as predicates on it.
  \<^item> \<open>Zk_Prover\<close>: \<open>score.rs\<close> and \<open>generate_score_proof\<close> of \<open>zk-wasm\<close> up to the call of the prover.
  \<^item> \<open>Zk_Api\<close>: \<open>lib.rs\<close> of the circuit crate (keys, \<open>generate_proof\<close>, \<open>verify_proof\<close>), the whole of
    \<open>generate_score_proof\<close> with its 384 bytes, and \<open>generate_vk.rs\<close>; the Groth16 algorithms are fields of the
    record \<open>groth16\<close> with their documented completeness as the one hypothesis.
  \<^item> \<open>Protocol\<close>: the contracts two by two; every cross-contract call of one model instantiated with
    the model of the contract called.
  \<^item> \<open>System\<close>: the deployment of the four contracts as one machine, \<open>world\<close>, with \<open>sys_exec\<close> for a call of any of
    them by anybody; the reachable worlds project to reachable states of each contract.
  \<^item> \<open>Panics\<close>: which signed calls of the credit-oracle and of governance trap, and that no other does.
  \<^item> \<open>Anchoring\<close>: anchoring on an identity-oracle whose registry revokes nothing: how a list of new credentials is
    stored, counted and cut off at the limit.
  \<^item> \<open>Fuzz_Targets\<close>: the fuzz targets of the contracts, as functions of the fuzzer's bytes.
  \<^item> \<open>Conformance\<close> and \<open>Conformance_Registry\<close>, \<open>Conformance_Governance\<close>, \<open>Conformance_Identity\<close>,
    \<open>Conformance_Credit\<close>: the unit and property tests in the \<open>mod tests\<close> of the four contracts but the four named below,
    each a list of steps (a
    call that succeeds, one that is refused with a given error, one that fails, a look at the state, at the
    events of the last call, the passing of ledgers and seconds) that runs on the models. A test that comes from
    the source is named as the source names it, with \<open>io_\<close> or \<open>co_\<close> before a name two contracts share.
  \<^item> \<open>Conformance_Verifier\<close>, \<open>Conformance_Circuit\<close>: the tests of the verifier contract and of the circuit crate that
    do not ask the curve arithmetic for its answer; the lifetimes of storage, in the one test about them.

  What the lemmas show. Each contract has an invariant that every entry point preserves (\<open>rr_inv\<close>, \<open>io_inv\<close>, \<open>co_inv\<close>,
  \<open>gov_inv\<close>), proved call by call with frame lemmas for the calls that do not touch the
  part of the state in question and lifted to reachable states by rule induction. Normal-form lemmas
  (\<open>rr_revoke_Ok\<close>, \<open>io_anchor_vc_typed_Ok\<close>, \<open>gov_vote_Ok\<close>, \<open>finish_score_Ok\<close>, ...) say when an operation succeeds
  and what it writes; the properties follow from them: exact results on every branch,
  permanence of revocations, anchors and proposals, the timelock, who may change which input,
  the score as the published formula, batch revocation as a sequence of single ones,
  pagination, migration, replay protection, and the meaning of the constraint system together with the
  statements it leaves unproved. The locales are interpreted on the models: the handover by the registry and both
  oracles; the index by issuers, feeders and lenders; the pause switch by all three; one-shot initialisation
  by all five contracts; \<open>revocation_source\<close> by the registry, alone and in \<open>Protocol\<close>; \<open>identity_service\<close> by the
  identity-oracle in \<open>Protocol\<close>, whose properties then speak of the contracts composed, and \<open>System\<close> says that
  all invariants hold together in every reachable world. The suites of \<open>Conformance\<close> compare the models with
  the repository's own expectations: the tests they hold pass on the models. A test of a loop of
  a hundred calls goes through an invariant of the loop (\<open>run_anchors\<close>, \<open>run_repayments\<close>); a property
  test is proved for every input its generator draws.

  The host. An invocation that returns an error or traps is rolled back, so \<open>Err\<close> and \<open>Trap\<close> carry no state. \<open>require_auth\<close>
  succeeds for an address among the invocation's signers and for the contract that is the direct caller.
  \<open>invoke_contract\<close> traps when the callee fails, \<open>try_invoke_contract\<close> returns the failure. A call into
  a contract that is on the call stack is refused. In the theory of one contract the contracts it calls are
  arguments (a query, or a call on an arbitrary state \<open>'w\<close>) about which nothing is assumed
  unless a locale says so; no code of a called contract is guessed. \<open>overflow-checks\<close> is on: a plain
  \<open>+\<close>, \<open>-\<close> or \<open>*\<close> that overflows traps, and is modelled by the checked operation. Reading a value stored in another
  layout traps.

  Bounds. No definition has fuel: every loop of the contracts runs over a list it was given, or over a range of
  indices, and is structural recursion. The one \<open>while\<close> loop whose end is not plain, in the replay test of
  the verifier, is a \<open>partial_function\<close> (\<open>replay_loop\<close>), and returning is what is proved of it. The counters are kept at their width, and a property that needs
  one not to overflow says so as a hypothesis (the subject counter below \<open>2^64 - 1\<close>, a list shorter than \<open>2^32\<close>).
  The scalar field is any order above \<open>2^100\<close> that fits its bit size, the only facts
  the circuit needs of it.

  Not modelled.

  \<^item> Storage lifetimes outside the replay test: \<open>extend_ttl\<close> changes no value; archival of expired entries is left to
    the host.
  \<^item> The length of \<open>BytesN\<close> and the format of addresses: hashes are byte lists, addresses are their text.
  \<^item> SHA-256, XDR and the BLS12-381 operations (fields of the record \<open>bls_host\<close>) and the algorithms of Groth16 (fields of the
    record \<open>groth16\<close>): libraries that the repository calls.
  \<^item> The casts from floating point of \<open>zk-wasm\<close>, whose binding hands over numbers of JavaScript.
  \<^item> The remaining tests: those of the verifier contract that use points which the curve rejects or the pairing
    refuses, and the circuit crate's rejection of another threshold, which rest on the library's arithmetic;
    \<open>prop_tests.rs\<close>, the crate \<open>contracts/tests\<close>, and the measurements of cost, which count what the host charges.
    Of the four contracts: \<open>test_get_active_vc_count_cached_cost_stays_flat\<close>, with and without a registry, whose point
    is the CPU cost; \<open>test_get_active_vc_count_survives_extended_ttl\<close>, whose point is a lifetime; and
    \<open>test_exit_guard_releases_lock\<close>, which writes the lock to instance storage, where no code reads it.
  \<^item> The TypeScript packages (sdk, cli, feeder, examples) and the scripts: clients of the contracts that do network
    input and output.
\<close>

text \<open>The suites together. They evaluate fixed inputs; the property tests of the registry and of the credit-oracle
  are proved for every input beside them (\<open>revoke_batch\<close>, \<open>revoke_twice\<close>, \<open>younger_scores_higher\<close>).\<close>

lemma contract_suites:
  "registry_tests_pass \<and> governance_tests_pass \<and> identity_tests_pass \<and> credit_tests_pass \<and> verifier_tests_pass h"
  by (intro conjI registry_suite governance_suite identity_suite credit_suite verifier_suite)

end
